theory Spec2Isabelle
  imports Complex_Main "HOL-Library.AList"
begin

section \<open>Values\<close>

text \<open>
  Scalar tensors and Python floats carry IEEE values. The model keeps the three
  non-finite values apart from the finite ones and computes on the finite ones
  exactly (no rounding, no overflow).
\<close>

datatype fval = Fin real | PInf | NInf | NaN

fun fadd :: "fval \<Rightarrow> fval \<Rightarrow> fval" where
  "fadd NaN _ = NaN"
| "fadd _ NaN = NaN"
| "fadd (Fin a) (Fin b) = Fin (a + b)"
| "fadd PInf NInf = NaN"
| "fadd NInf PInf = NaN"
| "fadd PInf _ = PInf"
| "fadd _ PInf = PInf"
| "fadd NInf _ = NInf"
| "fadd _ NInf = NInf"

definition inf_signed :: "bool \<Rightarrow> fval" where
  "inf_signed positive = (if positive then PInf else NInf)"

fun fmul :: "fval \<Rightarrow> fval \<Rightarrow> fval" where
  "fmul NaN _ = NaN"
| "fmul _ NaN = NaN"
| "fmul (Fin a) (Fin b) = Fin (a * b)"
| "fmul (Fin a) PInf = (if a = 0 then NaN else inf_signed (0 < a))"
| "fmul (Fin a) NInf = (if a = 0 then NaN else inf_signed (a < 0))"
| "fmul PInf (Fin b) = (if b = 0 then NaN else inf_signed (0 < b))"
| "fmul NInf (Fin b) = (if b = 0 then NaN else inf_signed (b < 0))"
| "fmul PInf PInf = PInf"
| "fmul NInf NInf = PInf"
| "fmul PInf NInf = NInf"
| "fmul NInf PInf = NInf"

text \<open>\<^verbatim>\<open>math.isfinite\<close>\<close>

fun isfinite :: "fval \<Rightarrow> bool" where
  "isfinite (Fin _) = True"
| "isfinite _ = False"

instantiation fval :: comm_monoid_add
begin

definition zero_fval :: fval where
  "zero_fval = Fin 0"

definition plus_fval :: "fval \<Rightarrow> fval \<Rightarrow> fval" where
  "plus_fval = fadd"

instance
proof
  fix a b c :: fval
  show "a + b + c = a + (b + c)"
    unfolding plus_fval_def by (cases a; cases b; cases c) simp_all
  show "a + b = b + a"
    unfolding plus_fval_def by (cases a; cases b) simp_all
  show "0 + a = a"
    unfolding plus_fval_def zero_fval_def by (cases a) simp_all
qed

end

text \<open>
  The Python values the drivers add up and log: the integer \<^verbatim>\<open>0\<close> that
  \<^verbatim>\<open>sum\<close> starts from, a float, or a scalar tensor.
\<close>

datatype pyval = PyInt int | PyFloat fval | Tensor fval

datatype error =
    AttributeError
  | KeyError
  | IndexError
  | TypeError
  | UnboundLocalError
  | ZeroDivisionError
  | SystemExit int

text \<open>The number a Python value stands for.\<close>

fun num_of :: "pyval \<Rightarrow> fval" where
  "num_of (PyInt i) = Fin (of_int i)"
| "num_of (PyFloat x) = x"
| "num_of (Tensor x) = x"

text \<open>\<^verbatim>\<open>a + b\<close>: a tensor operand makes the result a tensor.\<close>

fun py_add :: "pyval \<Rightarrow> pyval \<Rightarrow> pyval" where
  "py_add (PyInt a) (PyInt b) = PyInt (a + b)"
| "py_add (Tensor a) y = Tensor (fadd a (num_of y))"
| "py_add x (Tensor b) = Tensor (fadd (num_of x) b)"
| "py_add x y = PyFloat (fadd (num_of x) (num_of y))"

text \<open>\<^verbatim>\<open>sum(iterable)\<close>: starts from the integer 0 and adds from the left.\<close>

definition py_sum :: "pyval list \<Rightarrow> pyval" where
  "py_sum xs = foldl py_add (PyInt 0) xs"

text \<open>\<^verbatim>\<open>x.item()\<close>: only a tensor has the method.\<close>

fun item :: "pyval \<Rightarrow> error + fval" where
  "item (Tensor x) = Inr x"
| "item _ = Inl AttributeError"

section \<open>Dictionaries\<close>

text \<open>
  A Python dict is an association list in insertion order. A dict comprehension
  inserts its items one by one: a key seen again keeps its place and takes the
  new value, which is what \<^const>\<open>AList.update\<close> does.
\<close>

type_synonym 'v dict = "(string \<times> 'v) list"

definition dict_comp :: "('k \<times> 'v) list \<Rightarrow> ('k \<times> 'v) list" where
  "dict_comp kvs = foldl (\<lambda>d (k, v). AList.update k v d) [] kvs"

definition keys :: "'v dict \<Rightarrow> string list" where
  "keys d = map fst d"

section \<open>The weighted loss\<close>

text \<open>
  \<^verbatim>\<open>losses = sum(loss_dict[k] * weight_dict[k] for k in loss_dict.keys() if k in weight_dict)\<close>
\<close>

definition weighted_terms :: "fval dict \<Rightarrow> (string \<rightharpoonup> fval) \<Rightarrow> pyval list" where
  "weighted_terms loss_dict weight_dict =
     map (\<lambda>k. Tensor (fmul (the (map_of loss_dict k)) (the (weight_dict k))))
       (filter (\<lambda>k. weight_dict k \<noteq> None) (keys loss_dict))"

definition losses :: "fval dict \<Rightarrow> (string \<rightharpoonup> fval) \<Rightarrow> pyval" where
  "losses loss_dict weight_dict = py_sum (weighted_terms loss_dict weight_dict)"

section \<open>Reduction for logging\<close>

text \<open>
  Modelled from the spec: \<^verbatim>\<open>utils.reduce_dict\<close> (\<^verbatim>\<open>util/misc.py\<close> is not among the
  sources). It "averages/sums per-term loss values across all parallel workers":
  every term keeps its name and takes the value the workers together make of it.
  \<open>all_reduce k v\<close> is that value for the local value \<open>v\<close> of term \<open>k\<close>; on a
  single worker it returns \<open>v\<close>.
\<close>

definition reduce_dict :: "(string \<Rightarrow> fval \<Rightarrow> fval) \<Rightarrow> fval dict \<Rightarrow> fval dict" where
  "reduce_dict all_reduce input_dict = map (\<lambda>(k, v). (k, all_reduce k v)) input_dict"

text \<open>
  \<^verbatim>\<open>{f'{k}_unscaled': v for k, v in loss_dict_reduced.items()}\<close>
\<close>

definition loss_dict_reduced_unscaled :: "fval dict \<Rightarrow> fval dict" where
  "loss_dict_reduced_unscaled loss_dict_reduced =
     dict_comp (map (\<lambda>(k, v). (k @ ''_unscaled'', v)) loss_dict_reduced)"

text \<open>
  \<^verbatim>\<open>{k: v * weight_dict[k] for k, v in loss_dict_reduced.items() if k in weight_dict}\<close>
\<close>

definition loss_dict_reduced_scaled :: "fval dict \<Rightarrow> (string \<rightharpoonup> fval) \<Rightarrow> fval dict" where
  "loss_dict_reduced_scaled loss_dict_reduced weight_dict =
     dict_comp (map (\<lambda>(k, v). (k, fmul v (the (weight_dict k))))
       (filter (\<lambda>(k, v). weight_dict k \<noteq> None) loss_dict_reduced))"

text \<open>\<^verbatim>\<open>sum(loss_dict_reduced_scaled.values())\<close>\<close>

definition sum_values :: "fval dict \<Rightarrow> pyval" where
  "sum_values d = py_sum (map (\<lambda>(k, v). Tensor v) d)"

section \<open>The metric aggregator\<close>

text \<open>
  Modelled from the spec: \<^verbatim>\<open>utils.MetricLogger\<close> and \<^verbatim>\<open>utils.SmoothedValue\<close>
  (\<^verbatim>\<open>util/misc.py\<close> is not among the sources). A meter keeps the running sum and the
  count that its global average \<^verbatim>\<open>sum/count\<close> reads; the sliding window, which only
  the progress lines read, is left out. \<^verbatim>\<open>update(**named_values)\<close> "appends each
  value to its meter, creating the meter with default config on first use".
  \<^verbatim>\<open>synchronize_between_processes\<close> all-reduces every meter's sum and count;
  \<open>all_reduce_meter\<close> is what the workers together make of one meter, the
  identity on a single worker.
\<close>

record meter =
  total :: fval
  count :: nat

definition SmoothedValue :: meter where
  "SmoothedValue = \<lparr>total = Fin 0, count = 0\<rparr>"

definition meter_update :: "meter \<Rightarrow> fval \<Rightarrow> meter" where
  "meter_update m v = m\<lparr>count := count m + 1, total := fadd (total m) v\<rparr>"

definition add_meter :: "string \<Rightarrow> meter \<Rightarrow> meter dict \<Rightarrow> meter dict" where
  "add_meter name m meters = AList.update name m meters"

definition update_one :: "meter dict \<Rightarrow> string \<times> pyval \<Rightarrow> meter dict" where
  "update_one meters kv =
     (case kv of (k, v) \<Rightarrow>
        AList.update k
          (meter_update (case map_of meters k of None \<Rightarrow> SmoothedValue | Some m \<Rightarrow> m) (num_of v))
          meters)"

definition update :: "meter dict \<Rightarrow> (string \<times> pyval) list \<Rightarrow> meter dict" where
  "update meters kwargs = foldl update_one meters kwargs"

definition synchronize_between_processes ::
  "(string \<Rightarrow> meter \<Rightarrow> meter) \<Rightarrow> meter dict \<Rightarrow> meter dict" where
  "synchronize_between_processes all_reduce_meter meters =
     map (\<lambda>(k, m). (k, all_reduce_meter k m)) meters"

fun fdiv_count :: "fval \<Rightarrow> nat \<Rightarrow> fval" where
  "fdiv_count (Fin a) n = Fin (a / real n)"
| "fdiv_count x n = x"

text \<open>\<^verbatim>\<open>total / count\<close>: Python raises on a zero count.\<close>

definition global_avg :: "meter \<Rightarrow> error + fval" where
  "global_avg m =
     (if count m = 0 then Inl ZeroDivisionError else Inr (fdiv_count (total m) (count m)))"

text \<open>
  \<^verbatim>\<open>{k: meter.global_avg for k, meter in metric_logger.meters.items()}\<close>: the
  averages are taken in the order of the meters, the first failure ends it.
\<close>

fun global_avgs :: "meter dict \<Rightarrow> error + (string \<times> fval) list" where
  "global_avgs [] = Inr []"
| "global_avgs ((k, m) # ms) =
     (case global_avg m of
        Inl e \<Rightarrow> Inl e
      | Inr a \<Rightarrow> (case global_avgs ms of Inl e \<Rightarrow> Inl e | Inr r \<Rightarrow> Inr ((k, a) # r)))"

text \<open>
  A call \<^verbatim>\<open>f(loss=..., **d1, **d2)\<close> raises \<^verbatim>\<open>TypeError\<close> when a keyword is
  given twice.
\<close>

definition keyword_call :: "(string \<times> 'v) list \<Rightarrow> error + (string \<times> 'v) list" where
  "keyword_call kwargs = (if distinct (map fst kwargs) then Inr kwargs else Inl TypeError)"

definition as_tensors :: "fval dict \<Rightarrow> (string \<times> pyval) list" where
  "as_tensors d = map (\<lambda>(k, v). (k, Tensor v)) d"

section \<open>Gradient clipping\<close>

text \<open>
  \<^verbatim>\<open>torch.nn.utils.clip_grad_norm_(parameters, max_norm)\<close> is PyTorch's, not this
  repository's. As documented there, it takes the 2-norm of all gradients together,
  the coefficient \<^verbatim>\<open>max_norm / (total_norm + 1e-6)\<close> clamped to at most 1, and scales
  every gradient by it in place. Gradients are real numbers here.
\<close>

definition l2_norm :: "real list \<Rightarrow> real" where
  "l2_norm g = sqrt (\<Sum>x\<leftarrow>g. x\<^sup>2)"

definition clip_grad_norm :: "real list \<Rightarrow> real \<Rightarrow> real list" where
  "clip_grad_norm g max_norm =
     (let total_norm = l2_norm g;
          clip_coef = max_norm / (total_norm + 1 / 1000000);
          clip_coef_clamped = min clip_coef 1
      in map (\<lambda>x. x * clip_coef_clamped) g)"

section \<open>The training driver\<close>

text \<open>
  The collaborators of \<^verbatim>\<open>train_one_epoch\<close>: the model's forward pass on the batch at
  the current parameters, the criterion and its weight dict, the cross-worker
  reductions, the gradient that \<^verbatim>\<open>losses.backward()\<close> leaves, the optimizer's step
  and the learning rates of its parameter groups.
\<close>

record ('p, 's, 'b, 'o) collaborators =
  model :: "'p \<Rightarrow> 'b \<Rightarrow> 'o"
  criterion :: "'o \<Rightarrow> 'b \<Rightarrow> fval dict"
  weight_dict :: "string \<rightharpoonup> fval"
  all_reduce :: "string \<Rightarrow> fval \<Rightarrow> fval"
  all_reduce_meter :: "string \<Rightarrow> meter \<Rightarrow> meter"
  backward :: "'p \<Rightarrow> 'b \<Rightarrow> real list"
  optimizer_step :: "'s \<Rightarrow> 'p \<Rightarrow> real list \<Rightarrow> 's \<times> 'p"
  param_groups_lr :: "'s \<Rightarrow> fval list"

datatype call =
    Print_loss_is fval
  | Print_loss_dict "fval dict"
  | Zero_grad
  | Backward
  | Clip_grad_norm real
  | Optimizer_step

record ('p, 's) train_state =
  params :: 'p
  optimizer :: 's
  grads :: "real list"
  meters :: "meter dict"
  calls :: "call list"

text \<open>
  Lines 99 to 103: \<^verbatim>\<open>optimizer.zero_grad()\<close>, \<^verbatim>\<open>losses.backward()\<close>, the clip when
  \<^verbatim>\<open>max_norm > 0\<close>, \<^verbatim>\<open>optimizer.step()\<close>. Only a tensor has \<^verbatim>\<open>backward\<close>.
\<close>

definition optimize ::
  "('p, 's, 'b, 'o) collaborators \<Rightarrow> real \<Rightarrow> pyval \<Rightarrow> ('p, 's) train_state \<Rightarrow> 'b
     \<Rightarrow> (error \<times> ('p, 's) train_state) + ('p, 's) train_state" where
  "optimize c max_norm the_losses s b =
     (let s1 = s\<lparr>grads := [], calls := calls s @ [Zero_grad]\<rparr>
      in case the_losses of
           Tensor _ \<Rightarrow>
             (let s2 = s1\<lparr>grads := backward c (params s1) b, calls := calls s1 @ [Backward]\<rparr>;
                  s3 = (if max_norm > 0
                        then s2\<lparr>grads := clip_grad_norm (grads s2) max_norm,
                                calls := calls s2 @ [Clip_grad_norm max_norm]\<rparr>
                        else s2)
              in case optimizer_step c (optimizer s3) (params s3) (grads s3) of
                   (o', p') \<Rightarrow>
                     Inr (s3\<lparr>optimizer := o', params := p', calls := calls s3 @ [Optimizer_step]\<rparr>))
         | _ \<Rightarrow> Inl (AttributeError, s1))"

text \<open>Lines 105 to 107: the three updates of the aggregator.\<close>

definition log_batch ::
  "('p, 's, 'b, 'o) collaborators \<Rightarrow> fval \<Rightarrow> fval dict \<Rightarrow> fval dict \<Rightarrow> fval dict
     \<Rightarrow> ('p, 's) train_state \<Rightarrow> (error \<times> ('p, 's) train_state) + ('p, 's) train_state" where
  "log_batch c loss_value scaled unscaled loss_dict_reduced s =
     (case keyword_call ((''loss'', PyFloat loss_value) # as_tensors scaled @ as_tensors unscaled) of
        Inl e \<Rightarrow> Inl (e, s)
      | Inr kwargs \<Rightarrow>
          (let s1 = s\<lparr>meters := update (meters s) kwargs\<rparr>
           in case map_of loss_dict_reduced ''class_error'' of
                None \<Rightarrow> Inl (KeyError, s1)
              | Some class_error \<Rightarrow>
                  (let s2 = s1\<lparr>meters := update (meters s1) [(''class_error'', Tensor class_error)]\<rparr>
                   in case param_groups_lr c (optimizer s2) of
                        [] \<Rightarrow> Inl (IndexError, s2)
                      | lr # _ \<Rightarrow> Inr (s2\<lparr>meters := update (meters s2) [(''lr'', PyFloat lr)]\<rparr>))))"

text \<open>The body of the loop of \<^verbatim>\<open>train_one_epoch\<close>, lines 66 to 107.\<close>

definition train_batch ::
  "('p, 's, 'b, 'o) collaborators \<Rightarrow> real \<Rightarrow> ('p, 's) train_state \<Rightarrow> 'b
     \<Rightarrow> (error \<times> ('p, 's) train_state) + ('p, 's) train_state" where
  "train_batch c max_norm s b =
     (let outputs = model c (params s) b;
          loss_dict = criterion c outputs b;
          the_losses = losses loss_dict (weight_dict c);
          loss_dict_reduced = reduce_dict (all_reduce c) loss_dict;
          unscaled = loss_dict_reduced_unscaled loss_dict_reduced;
          scaled = loss_dict_reduced_scaled loss_dict_reduced (weight_dict c);
          losses_reduced_scaled = sum_values scaled
      in case item losses_reduced_scaled of
           Inl e \<Rightarrow> Inl (e, s)
         | Inr loss_value \<Rightarrow>
             if \<not> isfinite loss_value
             then Inl (SystemExit 1,
                       s\<lparr>calls := calls s @ [Print_loss_is loss_value, Print_loss_dict loss_dict_reduced]\<rparr>)
             else (case optimize c max_norm the_losses s b of
                     Inl e \<Rightarrow> Inl e
                   | Inr s' \<Rightarrow> log_batch c loss_value scaled unscaled loss_dict_reduced s'))"

fun train_batches ::
  "('p, 's, 'b, 'o) collaborators \<Rightarrow> real \<Rightarrow> ('p, 's) train_state \<Rightarrow> 'b list
     \<Rightarrow> (error \<times> ('p, 's) train_state) + ('p, 's) train_state" where
  "train_batches c max_norm s [] = Inr s"
| "train_batches c max_norm s (b # bs) =
     (case train_batch c max_norm s b of
        Inl e \<Rightarrow> Inl e
      | Inr s' \<Rightarrow> train_batches c max_norm s' bs)"

text \<open>
  \<^verbatim>\<open>train_one_epoch\<close>: a fresh aggregator with the meters \<^verbatim>\<open>lr\<close> and
  \<^verbatim>\<open>class_error\<close>, the batches in the order the loader yields them, the
  synchronisation, and the averages of all meters. The progress lines of
  \<^verbatim>\<open>log_every\<close> and the final print are left out.
\<close>

definition train_one_epoch ::
  "('p, 's, 'b, 'o) collaborators \<Rightarrow> real \<Rightarrow> ('p, 's) train_state \<Rightarrow> 'b list
     \<Rightarrow> (error \<times> ('p, 's) train_state) + (fval dict \<times> ('p, 's) train_state)" where
  "train_one_epoch c max_norm s data_loader =
     (let metric_logger =
            add_meter ''class_error'' SmoothedValue (add_meter ''lr'' SmoothedValue [])
      in case train_batches c max_norm (s\<lparr>meters := metric_logger\<rparr>) data_loader of
           Inl e \<Rightarrow> Inl e
         | Inr s1 \<Rightarrow>
             (let s2 = s1\<lparr>meters := synchronize_between_processes (all_reduce_meter c) (meters s1)\<rparr>
              in case global_avgs (meters s2) of
                   Inl e \<Rightarrow> Inl (e, s2)
                 | Inr avgs \<Rightarrow> Inr (dict_comp avgs, s2)))"

section \<open>The evaluation driver\<close>

text \<open>
  A target is the dict of tensors the data loader yields for one image; of its
  entries \<^verbatim>\<open>evaluate\<close> reads \<^verbatim>\<open>image_id\<close> (through \<^verbatim>\<open>.item()\<close>, a Python int),
  \<^verbatim>\<open>orig_size\<close> and \<^verbatim>\<open>size\<close> (height and width).
\<close>

type_synonym hw = "nat \<times> nat"

record target =
  image_id :: int
  orig_size :: hw
  size_hw :: hw

text \<open>
  \<^verbatim>\<open>postprocessors\<close> is a dict of callables of which the driver looks up the keys
  \<^verbatim>\<open>'bbox'\<close>, \<^verbatim>\<open>'segm'\<close> and \<^verbatim>\<open>'panoptic'\<close>; an absent key is \<open>None\<close>. One panoptic
  result is a dict again, to which the driver adds two entries.
\<close>

datatype 'q entry = Int_entry int | Str_entry string | Other_entry 'q

record ('o, 'r, 'q) postprocessors =
  bbox :: "('o \<Rightarrow> hw list \<Rightarrow> 'r list) option"
  segm :: "('r list \<Rightarrow> 'o \<Rightarrow> hw list \<Rightarrow> hw list \<Rightarrow> 'r list) option"
  panoptic :: "('o \<Rightarrow> hw list \<Rightarrow> hw list \<Rightarrow> 'q entry dict list) option"

text \<open>
  The two accumulators are \<^verbatim>\<open>datasets.coco_eval.CocoEvaluator\<close> and
  \<^verbatim>\<open>datasets.panoptic_eval.PanopticEvaluator\<close>. The driver only constructs them,
  feeds them and reads their summaries, so an accumulator is what it was constructed
  with and what it has been fed; \<open>coco_stats\<close> and \<open>panoptic_summarize\<close> stand for
  the summaries read at the end. \<open>None\<close> is the panoptic accumulator that was not
  constructed.
\<close>

record 'r coco =
  iou_types :: "string list"
  coco_fed :: "(int \<times> 'r) list list"

record ('b, 'r, 'q, 'cs, 'ps) accumulators =
  targets_of :: "'b \<Rightarrow> target list"
  coco_stats :: "string \<Rightarrow> 'r coco \<Rightarrow> 'cs"
  panoptic_summarize :: "'q entry dict list list \<Rightarrow> (string \<Rightarrow> 'ps) option"

record ('r, 'q) eval_state =
  eval_meters :: "meter dict"
  coco_evaluator :: "'r coco"
  panoptic_evaluator :: "'q entry dict list list option"

datatype ('cs, 'ps) stat = Global_avg fval | Coco_stats 'cs | PQ 'ps

text \<open>Decimal digits of a natural number, most significant first.\<close>

fun decimal :: "nat \<Rightarrow> string" where
  "decimal n = (if n < 10 then [''0123456789'' ! n] else decimal (n div 10) @ [''0123456789'' ! (n mod 10)])"

declare decimal.simps [simp del]

text \<open>
  The format \<^verbatim>\<open>{image_id:012d}\<close>: the sign of a negative number, then zeros up to
  a width of 12 characters, then the digits. The width is a minimum.
\<close>

definition format_012d :: "int \<Rightarrow> string" where
  "format_012d n =
     (let sign = (if n < 0 then ''-'' else '''');
          digits = decimal (nat \<bar>n\<bar>)
      in sign @ replicate (12 - length sign - length digits) CHR ''0'' @ digits)"

text \<open>\<^verbatim>\<open>file_name = f"{image_id:012d}.png"\<close>\<close>

definition file_name :: "int \<Rightarrow> string" where
  "file_name the_image_id = format_012d the_image_id @ ''.png''"

text \<open>
  Lines 166 to 170: the loop over \<^verbatim>\<open>enumerate(targets)\<close> writes the two entries into
  \<^verbatim>\<open>res_pano[i]\<close>; an index past the end of \<^verbatim>\<open>res_pano\<close> raises.
\<close>

fun attach :: "target list \<Rightarrow> nat \<Rightarrow> 'q entry dict list \<Rightarrow> error + 'q entry dict list" where
  "attach [] i res_pano = Inr res_pano"
| "attach (t # ts) i res_pano =
     (if i < length res_pano
      then attach ts (i + 1)
             (res_pano[i := AList.update ''file_name'' (Str_entry (file_name (image_id t)))
                              (AList.update ''image_id'' (Int_entry (image_id t)) (res_pano ! i))])
      else Inl IndexError)"

text \<open>
  Lines 155 to 172. \<^verbatim>\<open>target_sizes\<close> is assigned only under
  \<^verbatim>\<open>if 'segm' in postprocessors.keys()\<close>; reading it unassigned raises
  \<^verbatim>\<open>UnboundLocalError\<close>. The call \<^verbatim>\<open>postprocessors["panoptic"](outputs, target_sizes, ...)\<close>
  looks the callable up before it evaluates the arguments.
\<close>

definition postprocess ::
  "('o, 'r, 'q) postprocessors \<Rightarrow> 'o \<Rightarrow> target list \<Rightarrow> ('r, 'q) eval_state
     \<Rightarrow> (error \<times> ('r, 'q) eval_state) + ('r, 'q) eval_state" where
  "postprocess pp outputs targets s =
     (let orig_target_sizes = map orig_size targets
      in case bbox pp of
           None \<Rightarrow> Inl (KeyError, s)
         | Some post_bbox \<Rightarrow>
             (let results0 = post_bbox outputs orig_target_sizes;
                  target_sizes = (case segm pp of None \<Rightarrow> None | Some _ \<Rightarrow> Some (map size_hw targets));
                  results = (case segm pp of
                               None \<Rightarrow> results0
                             | Some post_segm \<Rightarrow>
                                 post_segm results0 outputs orig_target_sizes (map size_hw targets));
                  res = dict_comp (zip (map image_id targets) results);
                  s1 = s\<lparr>coco_evaluator :=
                          (coco_evaluator s)\<lparr>coco_fed := coco_fed (coco_evaluator s) @ [res]\<rparr>\<rparr>
              in case panoptic_evaluator s1 of
                   None \<Rightarrow> Inr s1
                 | Some fed \<Rightarrow>
                     (case panoptic pp of
                        None \<Rightarrow> Inl (KeyError, s1)
                      | Some post_panoptic \<Rightarrow>
                          (case target_sizes of
                             None \<Rightarrow> Inl (UnboundLocalError, s1)
                           | Some sizes \<Rightarrow>
                               (case attach targets 0 (post_panoptic outputs sizes orig_target_sizes) of
                                  Inl e \<Rightarrow> Inl (e, s1)
                                | Inr res_pano \<Rightarrow>
                                    Inr (s1\<lparr>panoptic_evaluator := Some (fed @ [res_pano])\<rparr>))))))"

text \<open>The body of the loop of \<^verbatim>\<open>evaluate\<close>, lines 140 to 172.\<close>

definition eval_batch ::
  "('p, 's, 'b, 'o) collaborators \<Rightarrow> 'p \<Rightarrow> ('b, 'r, 'q, 'cs, 'ps) accumulators
     \<Rightarrow> ('o, 'r, 'q) postprocessors \<Rightarrow> ('r, 'q) eval_state \<Rightarrow> 'b
     \<Rightarrow> (error \<times> ('r, 'q) eval_state) + ('r, 'q) eval_state" where
  "eval_batch c p acc pp s b =
     (let targets = targets_of acc b;
          outputs = model c p b;
          loss_dict = criterion c outputs b;
          loss_dict_reduced = reduce_dict (all_reduce c) loss_dict;
          scaled = loss_dict_reduced_scaled loss_dict_reduced (weight_dict c);
          unscaled = loss_dict_reduced_unscaled loss_dict_reduced
      in case keyword_call ((''loss'', sum_values scaled) # as_tensors scaled @ as_tensors unscaled) of
           Inl e \<Rightarrow> Inl (e, s)
         | Inr kwargs \<Rightarrow>
             (let s1 = s\<lparr>eval_meters := update (eval_meters s) kwargs\<rparr>
              in case map_of loss_dict_reduced ''class_error'' of
                   None \<Rightarrow> Inl (KeyError, s1)
                 | Some class_error \<Rightarrow>
                     postprocess pp outputs targets
                       (s1\<lparr>eval_meters := update (eval_meters s1) [(''class_error'', Tensor class_error)]\<rparr>)))"

fun eval_batches ::
  "('p, 's, 'b, 'o) collaborators \<Rightarrow> 'p \<Rightarrow> ('b, 'r, 'q, 'cs, 'ps) accumulators
     \<Rightarrow> ('o, 'r, 'q) postprocessors \<Rightarrow> ('r, 'q) eval_state \<Rightarrow> 'b list
     \<Rightarrow> (error \<times> ('r, 'q) eval_state) + ('r, 'q) eval_state" where
  "eval_batches c p acc pp s [] = Inr s"
| "eval_batches c p acc pp s (b # bs) =
     (case eval_batch c p acc pp s b of
        Inl e \<Rightarrow> Inl e
      | Inr s' \<Rightarrow> eval_batches c p acc pp s' bs)"

text \<open>
  Lines 189 to 198: the averages of the meters, then the entries the driver adds
  with \<^verbatim>\<open>stats[key] = ...\<close>.
\<close>

definition make_stats ::
  "('b, 'r, 'q, 'cs, 'ps) accumulators \<Rightarrow> ('o, 'r, 'q) postprocessors \<Rightarrow> fval dict
     \<Rightarrow> 'r coco \<Rightarrow> (string \<Rightarrow> 'ps) option \<Rightarrow> ('cs, 'ps) stat dict" where
  "make_stats acc pp avgs coco panoptic_res =
     (let stats0 = dict_comp (map (\<lambda>(k, a). (k, Global_avg a)) avgs);
          stats1 = (if bbox pp \<noteq> None
                    then AList.update ''coco_eval_bbox'' (Coco_stats (coco_stats acc ''bbox'' coco)) stats0
                    else stats0);
          stats2 = (if segm pp \<noteq> None
                    then AList.update ''coco_eval_masks'' (Coco_stats (coco_stats acc ''segm'' coco)) stats1
                    else stats1)
      in case panoptic_res of
           None \<Rightarrow> stats2
         | Some res \<Rightarrow>
             AList.update ''PQ_st'' (PQ (res ''Stuff''))
               (AList.update ''PQ_th'' (PQ (res ''Things''))
                 (AList.update ''PQ_all'' (PQ (res ''All'')) stats2)))"

text \<open>
  \<^verbatim>\<open>evaluate\<close>: a fresh aggregator with the meter \<^verbatim>\<open>class_error\<close>, the detection
  accumulator for the types among \<^verbatim>\<open>('segm', 'bbox')\<close> that have a postprocessor, the
  panoptic accumulator only when \<^verbatim>\<open>'panoptic'\<close> has one, the batches, the
  synchronisation, the summaries and the stats. It returns the stats and the
  detection accumulator. Printing, the synchronisation of the accumulators and
  their \<^verbatim>\<open>accumulate\<close> and \<^verbatim>\<open>summarize\<close> calls leave no trace in what is returned
  other than through \<open>coco_stats\<close> and \<open>panoptic_summarize\<close>.
\<close>

definition evaluate ::
  "('p, 's, 'b, 'o) collaborators \<Rightarrow> 'p \<Rightarrow> ('b, 'r, 'q, 'cs, 'ps) accumulators
     \<Rightarrow> ('o, 'r, 'q) postprocessors \<Rightarrow> 'b list
     \<Rightarrow> (error \<times> ('r, 'q) eval_state) + ((('cs, 'ps) stat dict \<times> 'r coco) \<times> ('r, 'q) eval_state)" where
  "evaluate c p acc pp data_loader =
     (let metric_logger = add_meter ''class_error'' SmoothedValue [];
          the_iou_types = filter (\<lambda>k. if k = ''segm'' then segm pp \<noteq> None else bbox pp \<noteq> None)
                            [''segm'', ''bbox''];
          s0 = \<lparr>eval_meters = metric_logger,
                coco_evaluator = \<lparr>iou_types = the_iou_types, coco_fed = []\<rparr>,
                panoptic_evaluator = (if panoptic pp \<noteq> None then Some [] else None)\<rparr>
      in case eval_batches c p acc pp s0 data_loader of
           Inl e \<Rightarrow> Inl e
         | Inr s1 \<Rightarrow>
             (let s2 = s1\<lparr>eval_meters :=
                           synchronize_between_processes (all_reduce_meter c) (eval_meters s1)\<rparr>;
                  panoptic_res = (case panoptic_evaluator s2 of
                                    None \<Rightarrow> None
                                  | Some fed \<Rightarrow> panoptic_summarize acc fed)
              in case global_avgs (eval_meters s2) of
                   Inl e \<Rightarrow> Inl (e, s2)
                 | Inr avgs \<Rightarrow>
                     Inr ((make_stats acc pp avgs (coco_evaluator s2) panoptic_res,
                           coco_evaluator s2), s2)))"

section \<open>The visualisation helpers\<close>

text \<open>
  Tensors share storage. A store maps the address of a storage to its flat
  contents; a tensor is a contiguous view: the address of its storage, the offset of
  its first element and its shape. Indexing and iterating a tensor give views into
  the same storage, so an assignment through \<^verbatim>\<open>gate_coord[i] = ...\<close> lands in the
  storage of the tensor the caller passed. Coordinates are real numbers here.
\<close>

type_synonym store = "nat \<Rightarrow> real list"

record tensor =
  base :: nat
  offset :: nat
  shape :: "nat list"

text \<open>\<^verbatim>\<open>t[i].item()\<close> and \<^verbatim>\<open>t[i] = v\<close> for a one-dimensional view \<open>t\<close>.\<close>

definition read :: "store \<Rightarrow> tensor \<Rightarrow> nat \<Rightarrow> real" where
  "read \<sigma> t i = \<sigma> (base t) ! (offset t + i)"

definition assign :: "store \<Rightarrow> tensor \<Rightarrow> nat \<Rightarrow> real \<Rightarrow> store" where
  "assign \<sigma> t i v = \<sigma>(base t := (\<sigma> (base t))[offset t + i := v])"

text \<open>\<^verbatim>\<open>len(t)\<close>, \<^verbatim>\<open>t[j]\<close> and the views that iterating over \<open>t\<close> yields.\<close>

definition len :: "tensor \<Rightarrow> nat" where
  "len t = (case shape t of [] \<Rightarrow> 0 | n # _ \<Rightarrow> n)"

definition row :: "tensor \<Rightarrow> nat \<Rightarrow> tensor" where
  "row t j = \<lparr>base = base t, offset = offset t + j * prod_list (tl (shape t)), shape = tl (shape t)\<rparr>"

definition rows :: "tensor \<Rightarrow> tensor list" where
  "rows t = map (row t) [0..<len t]"

definition colors :: "string list" where
  "colors = [''blue'', ''red'', ''orange'', ''green'', ''yellow'']"

text \<open>
  Lines 224 to 228 and 270 to 274, for one index \<open>i\<close>: the second test reads the
  element again, after the first assignment.
\<close>

definition clamp_at :: "tensor \<Rightarrow> nat \<Rightarrow> store \<Rightarrow> store" where
  "clamp_at g i \<sigma> =
     (let \<sigma>1 = (if read \<sigma> g i \<ge> 1 then assign \<sigma> g i (99 / 100) else \<sigma>)
      in if read \<sigma>1 g i \<le> 0 then assign \<sigma>1 g i (99 / 100) else \<sigma>1)"

text \<open>\<^verbatim>\<open>for i in range(len(gate_coord)): ...\<close>\<close>

definition clamp_coords :: "tensor \<Rightarrow> store \<Rightarrow> store" where
  "clamp_coords g \<sigma> = fold (clamp_at g) [0..<len g] \<sigma>"

text \<open>
  The four \<^verbatim>\<open>plt.scatter\<close> calls for one gate: the corners are elements 0 to 7 of
  the view, scaled by width and height; a view with fewer than 8 elements raises.
\<close>

datatype point = Point real real string

definition corners :: "store \<Rightarrow> tensor \<Rightarrow> nat \<Rightarrow> nat \<Rightarrow> string \<Rightarrow> error + point list" where
  "corners \<sigma> g h w color =
     (if len g < 8 then Inl IndexError
      else Inr [Point (read \<sigma> g 0 * real w) (read \<sigma> g 1 * real h) color,
                Point (read \<sigma> g 2 * real w) (read \<sigma> g 3 * real h) color,
                Point (read \<sigma> g 4 * real w) (read \<sigma> g 5 * real h) color,
                Point (read \<sigma> g 6 * real w) (read \<sigma> g 7 * real h) color])"

text \<open>
  The batch of images: \<^verbatim>\<open>samples.tensors\<close> has shape \<^verbatim>\<open>[batch, channels, h, w]\<close>; the
  helpers read it and never assign to it.
\<close>

record samples =
  batch_size :: nat
  height :: nat
  width :: nat

text \<open>
  The loop of \<^verbatim>\<open>plot_image_with_labels\<close> over \<^verbatim>\<open>zip(coords, colors)\<close>. It returns
  the exception, if any, the store and the points drawn so far.
\<close>

fun plot_gates ::
  "bool \<Rightarrow> nat \<Rightarrow> nat \<Rightarrow> (tensor \<times> string) list \<Rightarrow> store \<Rightarrow> point list
     \<Rightarrow> error option \<times> store \<times> point list" where
  "plot_gates threshold h w [] \<sigma> drawn = (None, \<sigma>, drawn)"
| "plot_gates threshold h w ((gate_coord, color) # rest) \<sigma> drawn =
     (let \<sigma>1 = (if threshold then clamp_coords gate_coord \<sigma> else \<sigma>)
      in case corners \<sigma>1 gate_coord h w color of
           Inl e \<Rightarrow> (Some e, \<sigma>1, drawn)
         | Inr pts \<Rightarrow> plot_gates threshold h w rest \<sigma>1 (drawn @ pts))"

text \<open>
  \<^verbatim>\<open>plot_image_with_labels(samples, targets, num_sample, threshold)\<close>; a target is
  represented by its \<^verbatim>\<open>boxes\<close> tensor, of shape \<^verbatim>\<open>[num_gates, 8]\<close>, the only entry
  the helper touches.
\<close>

definition plot_image_with_labels ::
  "samples \<Rightarrow> tensor list \<Rightarrow> nat \<Rightarrow> bool \<Rightarrow> store \<Rightarrow> error option \<times> store \<times> point list" where
  "plot_image_with_labels the_samples targets num_sample threshold \<sigma> =
     (if num_sample < batch_size the_samples \<and> num_sample < length targets
      then (let coords = targets ! num_sample
            in plot_gates threshold (height the_samples) (width the_samples)
                 (zip (rows coords) colors) \<sigma> [])
      else (Some IndexError, \<sigma>, []))"

text \<open>
  \<^verbatim>\<open>torch.max(logit, 0)\<close>: the index of the largest element, the first one among
  equals. The elements of a one-dimensional view:
\<close>

definition elements :: "store \<Rightarrow> tensor \<Rightarrow> real list" where
  "elements \<sigma> t = map (read \<sigma> t) [0..<len t]"

definition argmax :: "real list \<Rightarrow> nat" where
  "argmax xs =
     fst (foldl (\<lambda>(best, m) (i, x). if x > m then (i, x) else (best, m))
                (0, xs ! 0) (zip [0..<length xs] xs))"

text \<open>The inner loop of \<^verbatim>\<open>plot_prediction\<close> over \<^verbatim>\<open>zip(logits, coords, colors)\<close>.\<close>

fun plot_queries ::
  "nat \<Rightarrow> nat \<Rightarrow> (tensor \<times> tensor \<times> string) list \<Rightarrow> store \<Rightarrow> point list
     \<Rightarrow> error option \<times> store \<times> point list" where
  "plot_queries h w [] \<sigma> drawn = (None, \<sigma>, drawn)"
| "plot_queries h w ((logit, coord, color) # rest) \<sigma> drawn =
     (if len logit = 0 then (Some IndexError, \<sigma>, drawn)
      else if argmax (elements \<sigma> logit) \<noteq> 1
      then (let \<sigma>1 = clamp_coords coord \<sigma>
            in case corners \<sigma>1 coord h w color of
                 Inl e \<Rightarrow> (Some e, \<sigma>1, drawn)
               | Inr pts \<Rightarrow> plot_queries h w rest \<sigma>1 (drawn @ pts))
      else plot_queries h w rest \<sigma> drawn)"

text \<open>The outer loop over \<^verbatim>\<open>zip(samples.tensors, logits_batch, coords_batch)\<close>.\<close>

fun plot_images ::
  "nat \<Rightarrow> nat \<Rightarrow> (tensor \<times> tensor) list \<Rightarrow> store \<Rightarrow> point list
     \<Rightarrow> error option \<times> store \<times> point list" where
  "plot_images h w [] \<sigma> drawn = (None, \<sigma>, drawn)"
| "plot_images h w ((logits, coords) # rest) \<sigma> drawn =
     (case plot_queries h w (zip (rows logits) (zip (rows coords) colors)) \<sigma> drawn of
        (Some e, \<sigma>1, drawn1) \<Rightarrow> (Some e, \<sigma>1, drawn1)
      | (None, \<sigma>1, drawn1) \<Rightarrow> plot_images h w rest \<sigma>1 drawn1)"

text \<open>
  \<^verbatim>\<open>plot_prediction(samples, outputs)\<close> with \<^verbatim>\<open>outputs["pred_logits"]\<close> of shape
  \<^verbatim>\<open>[batch, queries, classes]\<close> and \<^verbatim>\<open>outputs["pred_boxes"]\<close> of shape
  \<^verbatim>\<open>[batch, queries, 8]\<close>.
\<close>

definition plot_prediction ::
  "samples \<Rightarrow> tensor \<Rightarrow> tensor \<Rightarrow> store \<Rightarrow> error option \<times> store \<times> point list" where
  "plot_prediction the_samples pred_logits pred_boxes \<sigma> =
     plot_images (height the_samples) (width the_samples)
       (take (batch_size the_samples) (zip (rows pred_logits) (rows pred_boxes))) \<sigma> []"

section \<open>Observing the driver\<close>

text \<open>The state an outcome of the loop leaves, and the clip calls among the recorded calls.\<close>

definition state_of :: "(error \<times> 'st) + 'st \<Rightarrow> 'st" where
  "state_of r = (case r of Inl (e, s) \<Rightarrow> s | Inr s \<Rightarrow> s)"

fun is_clip :: "call \<Rightarrow> bool" where
  "is_clip (Clip_grad_norm _) = True"
| "is_clip _ = False"

definition clips_as_required :: "real \<Rightarrow> call list \<Rightarrow> bool" where
  "clips_as_required max_norm new =
     (if max_norm > 0
      then length (filter is_clip new) = length (filter (\<lambda>x. x = Backward) new)
           \<and> (\<forall>x \<in> set new. is_clip x \<longrightarrow> x = Clip_grad_norm max_norm)
      else filter is_clip new = [])"

definition counted :: "string set \<Rightarrow> meter dict \<Rightarrow> bool" where
  "counted A ms = (\<forall>k m. map_of ms k = Some m \<longrightarrow> count m = 0 \<longrightarrow> k \<in> A)"

text \<open>Reading a string of decimal digits back, to state what a file name denotes.\<close>

definition digit_value :: "char \<Rightarrow> nat" where
  "digit_value ch = of_char ch - 48"

definition is_digit :: "char \<Rightarrow> bool" where
  "is_digit ch = (ch \<in> set ''0123456789'')"

definition read_decimal :: "string \<Rightarrow> nat" where
  "read_decimal ds = foldl (\<lambda>a ch. 10 * a + digit_value ch) 0 ds"

definition outcome_state :: "(error \<times> 'st) + ('res \<times> 'st) \<Rightarrow> 'st" where
  "outcome_state r = (case r of Inl es \<Rightarrow> snd es | Inr rs \<Rightarrow> snd rs)"

definition added_keys :: "string set" where
  "added_keys = {''PQ_all'', ''PQ_th'', ''PQ_st'', ''coco_eval_masks''}"

text \<open>What a call may change in the store: only storage \<open>a\<close>, only at indices in \<open>J\<close>, and only values outside the open interval from 0 to 1.\<close>

definition frame :: "nat \<Rightarrow> nat set \<Rightarrow> store \<Rightarrow> store \<Rightarrow> bool" where
  "frame a J \<sigma> \<sigma>' =
     ((\<forall>b. b \<noteq> a \<longrightarrow> \<sigma>' b = \<sigma> b)
      \<and> length (\<sigma>' a) = length (\<sigma> a)
      \<and> (\<forall>j. \<sigma>' a ! j \<noteq> \<sigma> a ! j \<longrightarrow> j \<in> J \<and> (\<sigma> a ! j \<le> 0 \<or> 1 \<le> \<sigma> a ! j)))"

definition cells :: "tensor \<Rightarrow> nat set" where
  "cells g = (\<lambda>i. offset g + i) ` {i. i < len g}"

definition drawn_cells :: "tensor \<Rightarrow> nat set" where
  "drawn_cells t = (\<Union>j \<in> {j. j < len t \<and> j < 5}. cells (row t j))"

text \<open>The cells \<^verbatim>\<open>plot_prediction\<close> may clamp: the coordinates of the queries it visits (the images of the batch, at most five queries of an image) whose arg-max class, read from the logits in store \<open>\<sigma>\<close>, is not 1.\<close>

definition clamped_cells :: "store \<Rightarrow> samples \<Rightarrow> tensor \<Rightarrow> tensor \<Rightarrow> nat set" where
  "clamped_cells \<sigma> the_samples pred_logits pred_boxes =
     (\<Union>b \<in> {b. b < batch_size the_samples \<and> b < len pred_logits \<and> b < len pred_boxes}.
        \<Union>q \<in> {q. q < len (row pred_logits b) \<and> q < len (row pred_boxes b) \<and> q < 5
                  \<and> argmax (elements \<sigma> (row (row pred_logits b) q)) \<noteq> 1}.
          cells (row (row pred_boxes b) q))"

section \<open>Example inputs\<close>

definition example_loss_dict :: "fval dict" where
  "example_loss_dict = [(''loss_ce'', Fin 2), (''class_error'', Fin 50), (''loss_bbox'', Fin 3)]"

definition example_weight_dict :: "string \<rightharpoonup> fval" where
  "example_weight_dict = [''loss_ce'' \<mapsto> Fin 1, ''loss_bbox'' \<mapsto> Fin 5]"

definition single_worker :: "(real list, unit, nat, unit) collaborators" where
  "single_worker =
     \<lparr>model = (\<lambda>p b. ()),
      criterion = (\<lambda>outputs b. [(''loss_ce'', Fin (real b)), (''class_error'', Fin 0)]),
      weight_dict = [''loss_ce'' \<mapsto> Fin 1],
      all_reduce = (\<lambda>k v. v),
      all_reduce_meter = (\<lambda>k m. m),
      backward = (\<lambda>p b. [3, 4]),
      optimizer_step = (\<lambda>st p g. (st, map (\<lambda>(x, y). x - y / 10) (zip p g))),
      param_groups_lr = (\<lambda>st. [Fin (1 / 10)])\<rparr>"

definition two_workers :: "(real list, unit, nat, unit) collaborators" where
  "two_workers =
     single_worker\<lparr>all_reduce :=
       (\<lambda>k v. fmul (fadd v (if k = ''loss_ce'' then NaN else Fin 0)) (Fin (1 / 2)))\<rparr>"

definition start :: "(real list, unit) train_state" where
  "start =
     \<lparr>params = [1, 1], optimizer = (), grads = [],
      meters = [(''lr'', SmoothedValue), (''class_error'', SmoothedValue)], calls = []\<rparr>"

definition after_first :: "(real list, unit) train_state" where
  "after_first =
     \<lparr>params = [7 / 10, 3 / 5], optimizer = (), grads = [3, 4],
      meters = [(''lr'', \<lparr>total = Fin (1 / 10), count = 1\<rparr>),
                (''class_error'', \<lparr>total = Fin 0, count = 1\<rparr>),
                (''loss'', \<lparr>total = Fin 1, count = 1\<rparr>),
                (''loss_ce'', \<lparr>total = Fin 1, count = 1\<rparr>),
                (''loss_ce_unscaled'', \<lparr>total = Fin 1, count = 1\<rparr>),
                (''class_error_unscaled'', \<lparr>total = Fin 0, count = 1\<rparr>)],
      calls = [Zero_grad, Backward, Optimizer_step]\<rparr>"

definition after_second :: "(real list, unit) train_state" where
  "after_second =
     \<lparr>params = [2 / 5, 1 / 5], optimizer = (), grads = [3, 4],
      meters = [(''lr'', \<lparr>total = Fin (1 / 5), count = 2\<rparr>),
                (''class_error'', \<lparr>total = Fin 0, count = 2\<rparr>),
                (''loss'', \<lparr>total = Fin 4, count = 2\<rparr>),
                (''loss_ce'', \<lparr>total = Fin 4, count = 2\<rparr>),
                (''loss_ce_unscaled'', \<lparr>total = Fin 4, count = 2\<rparr>),
                (''class_error_unscaled'', \<lparr>total = Fin 0, count = 2\<rparr>)],
      calls = [Zero_grad, Backward, Optimizer_step, Zero_grad, Backward, Optimizer_step]\<rparr>"

definition epoch_stats :: "fval dict" where
  "epoch_stats =
     [(''lr'', Fin (1 / 10)), (''class_error'', Fin 0), (''loss'', Fin 2), (''loss_ce'', Fin 2),
      (''loss_ce_unscaled'', Fin 2), (''class_error_unscaled'', Fin 0)]"

definition unweighted :: "(real list, unit, nat, unit) collaborators" where
  "unweighted = single_worker\<lparr>weight_dict := Map.empty\<rparr>"

definition example_targets :: "nat \<Rightarrow> target list" where
  "example_targets b = [\<lparr>image_id = 17, orig_size = (480, 640), size_hw = (800, 1066)\<rparr>]"

definition example_acc :: "(nat, unit, unit, unit, unit) accumulators" where
  "example_acc =
     \<lparr>targets_of = example_targets, coco_stats = (\<lambda>k coco. ()), panoptic_summarize = (\<lambda>fed. None)\<rparr>"

definition bbox_only :: "(unit, unit, unit) postprocessors" where
  "bbox_only = \<lparr>bbox = Some (\<lambda>outputs sizes. map (\<lambda>_. ()) sizes), segm = None, panoptic = None\<rparr>"

definition bbox_panoptic :: "(unit, unit, unit) postprocessors" where
  "bbox_panoptic =
     bbox_only\<lparr>panoptic :=
       Some (\<lambda>outputs sizes orig. map (\<lambda>_. [(''segments_info'', Other_entry ())]) sizes)\<rparr>"

definition pq_named :: "(real list, unit, nat, unit) collaborators" where
  "pq_named =
     single_worker\<lparr>criterion := (\<lambda>outputs b. [(''PQ_all'', Fin 1), (''class_error'', Fin 0)]),
                   weight_dict := [''PQ_all'' \<mapsto> Fin 1]\<rparr>"

definition logged_once :: "fval \<Rightarrow> string \<Rightarrow> meter dict" where
  "logged_once x name =
     [(''class_error'', \<lparr>total = Fin 0, count = 1\<rparr>),
      (''loss'', \<lparr>total = x, count = 1\<rparr>),
      (name, \<lparr>total = x, count = 1\<rparr>),
      (name @ ''_unscaled'', \<lparr>total = x, count = 1\<rparr>),
      (''class_error_unscaled'', \<lparr>total = Fin 0, count = 1\<rparr>)]"

definition fed_once :: "unit coco" where
  "fed_once = \<lparr>iou_types = [''bbox''], coco_fed = [[(17, ())]]\<rparr>"

definition pq_stats :: "(unit, unit) stat dict" where
  "pq_stats =
     [(''class_error'', Global_avg (Fin 0)), (''loss'', Global_avg (Fin 1)),
      (''PQ_all'', Global_avg (Fin 1)), (''PQ_all_unscaled'', Global_avg (Fin 1)),
      (''class_error_unscaled'', Global_avg (Fin 0)), (''coco_eval_bbox'', Coco_stats ())]"

definition single_stats :: "(unit, unit) stat dict" where
  "single_stats =
     [(''class_error'', Global_avg (Fin 0)), (''loss'', Global_avg (Fin 1)),
      (''loss_ce'', Global_avg (Fin 1)), (''loss_ce_unscaled'', Global_avg (Fin 1)),
      (''class_error_unscaled'', Global_avg (Fin 0)), (''coco_eval_bbox'', Coco_stats ())]"

definition evaluated_once :: "string \<Rightarrow> (unit, unit) eval_state" where
  "evaluated_once name =
     \<lparr>eval_meters = logged_once (Fin 1) name, coco_evaluator = fed_once, panoptic_evaluator = None\<rparr>"

definition gate_boxes :: tensor where
  "gate_boxes = \<lparr>base = 0, offset = 0, shape = [1, 8]\<rparr>"

definition pred_boxes_example :: tensor where
  "pred_boxes_example = \<lparr>base = 0, offset = 0, shape = [1, 1, 8]\<rparr>"

definition pred_logits_example :: tensor where
  "pred_logits_example = \<lparr>base = 2, offset = 0, shape = [1, 1, 3]\<rparr>"

definition one_image :: samples where
  "one_image = \<lparr>batch_size = 1, height = 480, width = 640\<rparr>"

definition out_of_range :: store where
  "out_of_range =
     (\<lambda>a. if a = 0 then [3 / 2, 1 / 5, 3 / 10, 2 / 5, 1 / 2, 3 / 5, 7 / 10, 4 / 5]
          else if a = 2 then [1 / 10, 1 / 5, 7 / 10] else [])"

definition in_range :: store where
  "in_range =
     (\<lambda>a. if a = 0 then [1 / 10, 1 / 5, 3 / 10, 2 / 5, 1 / 2, 3 / 5, 7 / 10, 4 / 5]
          else if a = 2 then [1 / 10, 1 / 5, 7 / 10] else [])"

definition class_one :: store where
  "class_one =
     (\<lambda>a. if a = 0 then [3 / 2, 1 / 5, 3 / 10, 2 / 5, 1 / 2, 3 / 5, 7 / 10, 4 / 5]
          else if a = 2 then [1 / 10, 7 / 10, 1 / 5] else [])"

section \<open>Properties of the weighted loss\<close>

lemma foldl_py_add_Tensor:
  "foldl py_add (Tensor a) (map Tensor ts) = Tensor (a + sum_list ts)"
proof (induction ts arbitrary: a)
  case Nil
  show ?case by (simp add: zero_fval_def plus_fval_def) (cases a; simp)
next
  case (Cons t ts)
  show ?case by (simp add: Cons.IH plus_fval_def [symmetric] add.assoc)
qed

lemma py_sum_Tensor:
  "py_sum (map Tensor ts) = (if ts = [] then PyInt 0 else Tensor (sum_list ts))"
proof (cases ts)
  case Nil
  then show ?thesis by (simp add: py_sum_def)
next
  case (Cons t ts')
  have "py_add (PyInt 0) (Tensor t) = Tensor t"
    by (cases t) simp_all
  then show ?thesis
    using Cons by (simp add: py_sum_def foldl_py_add_Tensor)
qed

lemma weighted_terms_Tensor:
  "weighted_terms L W =
     map Tensor (map (\<lambda>k. fmul (the (map_of L k)) (the (W k)))
       (filter (\<lambda>k. W k \<noteq> None) (keys L)))"
  by (simp add: weighted_terms_def)

lemma weighted_keys_set:
  "set (filter (\<lambda>k. W k \<noteq> None) (keys L)) = fst ` set L \<inter> dom W"
  by (auto simp: keys_def dom_def)

lemma losses_char:
  assumes "distinct (keys L)"
  shows "losses L W =
     (if fst ` set L \<inter> dom W = {} then PyInt 0
      else Tensor (\<Sum>k \<in> fst ` set L \<inter> dom W. fmul (the (map_of L k)) (the (W k))))"
proof -
  let ?ks = "filter (\<lambda>k. W k \<noteq> None) (keys L)"
  let ?f = "\<lambda>k. fmul (the (map_of L k)) (the (W k))"
  have d: "distinct ?ks" using assms by simp
  have s: "sum_list (map ?f ?ks) = sum ?f (set ?ks)"
    using d by (rule sum_list_distinct_conv_sum_set)
  have e: "(?ks = []) = (fst ` set L \<inter> dom W = {})"
    using weighted_keys_set [of W L] set_empty [of ?ks] by simp
  show ?thesis
    by (simp only: losses_def weighted_terms_Tensor py_sum_Tensor map_is_Nil_conv e s
        weighted_keys_set)
qed

section \<open>Dict comprehensions and the reduced views\<close>

lemma update_fresh:
  "k \<notin> fst ` set d \<Longrightarrow> AList.update k v d = d @ [(k, v)]"
  by (induction d) auto

lemma foldl_update_distinct:
  "distinct (map fst kvs) \<Longrightarrow> fst ` set kvs \<inter> fst ` set d = {} \<Longrightarrow>
     foldl (\<lambda>d (k, v). AList.update k v d) d kvs = d @ kvs"
proof (induction kvs arbitrary: d)
  case Nil
  then show ?case by simp
next
  case (Cons kv kvs)
  obtain k v where kv: "kv = (k, v)" by (cases kv)
  have fresh: "k \<notin> fst ` set d" using Cons.prems(2) kv by auto
  have disj: "fst ` set kvs \<inter> fst ` set (d @ [(k, v)]) = {}"
    using Cons.prems kv by auto
  have "distinct (map fst kvs)" using Cons.prems(1) by simp
  from Cons.IH [OF this disj] show ?case
    by (simp add: kv update_fresh [OF fresh])
qed

lemma dict_comp_distinct:
  "distinct (map fst kvs) \<Longrightarrow> dict_comp kvs = kvs"
  using foldl_update_distinct [of kvs "[]"] by (simp add: dict_comp_def)

lemma keys_reduce_dict: "keys (reduce_dict r L) = keys L"
  by (simp add: keys_def reduce_dict_def case_prod_unfold comp_def)

lemma map_of_reduce_dict:
  "map_of (reduce_dict r L) k = map_option (r k) (map_of L k)"
  by (induction L) (auto simp: reduce_dict_def)

lemma inj_unscaled: "inj (\<lambda>k. k @ ''_unscaled'')"
  by (simp add: inj_on_def)

lemma unscaled_eq:
  assumes "distinct (keys R)"
  shows "loss_dict_reduced_unscaled R = map (\<lambda>(k, v). (k @ ''_unscaled'', v)) R"
proof -
  have "map fst (map (\<lambda>(k, v). (k @ ''_unscaled'', v)) R) = map (\<lambda>k. k @ ''_unscaled'') (map fst R)"
    by (simp add: case_prod_unfold comp_def)
  moreover have "distinct (map (\<lambda>k. k @ ''_unscaled'') (map fst R))"
    using assms by (simp add: distinct_map keys_def inj_on_def)
  ultimately show ?thesis
    unfolding loss_dict_reduced_unscaled_def by (simp only: dict_comp_distinct)
qed

lemma scaled_eq:
  assumes "distinct (keys R)"
  shows "loss_dict_reduced_scaled R W =
     map (\<lambda>(k, v). (k, fmul v (the (W k)))) (filter (\<lambda>(k, v). W k \<noteq> None) R)"
proof -
  have "map fst (map (\<lambda>(k, v). (k, fmul v (the (W k)))) (filter (\<lambda>(k, v). W k \<noteq> None) R))
      = map fst (filter (\<lambda>(k, v). W k \<noteq> None) R)"
    by (simp add: case_prod_unfold comp_def)
  moreover have "distinct (map fst (filter (\<lambda>(k, v). W k \<noteq> None) R))"
    using assms by (simp add: keys_def distinct_map_filter)
  ultimately show ?thesis
    unfolding loss_dict_reduced_scaled_def by (simp only: dict_comp_distinct)
qed

lemma keys_scaled:
  assumes "distinct (keys R)"
  shows "keys (loss_dict_reduced_scaled R W) = filter (\<lambda>k. W k \<noteq> None) (keys R)"
  unfolding scaled_eq [OF assms] keys_def
  by (induction R) auto

lemma map_of_scaled:
  assumes "distinct (keys R)"
  shows "map_of (loss_dict_reduced_scaled R W) k =
     (case W k of None \<Rightarrow> None | Some w \<Rightarrow> map_option (\<lambda>v. fmul v w) (map_of R k))"
  unfolding scaled_eq [OF assms]
  by (induction R) (auto split: option.splits)

lemma keys_unscaled:
  assumes "distinct (keys R)"
  shows "keys (loss_dict_reduced_unscaled R) = map (\<lambda>k. k @ ''_unscaled'') (keys R)"
  unfolding unscaled_eq [OF assms] keys_def
  by (simp add: case_prod_unfold comp_def)

lemma map_of_unscaled:
  assumes "distinct (keys R)"
  shows "map_of (loss_dict_reduced_unscaled R) (k @ ''_unscaled'') = map_of R k"
  unfolding unscaled_eq [OF assms]
  by (induction R) auto

lemma key_in_set_iff: "k \<in> set (keys L) \<longleftrightarrow> map_of L k \<noteq> None"
  by (simp add: keys_def map_of_eq_None_iff)

text \<open>
  Claim C1. For a loss dict (its keys distinct, as in every Python dict) the loss
  that \<^verbatim>\<open>train_one_epoch\<close> backpropagates is the sum, over the keys present in both
  the loss dict and the weight dict, of loss times weight. Terms whose key is not
  in the weight dict do not contribute: any loss dict that agrees with this one on
  the weighted keys gives the same \<^verbatim>\<open>losses\<close>.
\<close>

theorem losses_weighted_sum:
  assumes "distinct (keys loss_dict)"
  shows "num_of (losses loss_dict W) =
           (\<Sum>k \<in> set (keys loss_dict) \<inter> dom W. fmul (the (map_of loss_dict k)) (the (W k)))
       \<and> (\<forall>other. distinct (keys other) \<longrightarrow> (\<forall>k \<in> dom W. map_of other k = map_of loss_dict k)
             \<longrightarrow> losses other W = losses loss_dict W)"
proof (intro conjI allI impI)
  show "num_of (losses loss_dict W) =
      (\<Sum>k \<in> set (keys loss_dict) \<inter> dom W. fmul (the (map_of loss_dict k)) (the (W k)))"
    using losses_char [OF assms, of W] by (simp add: keys_def zero_fval_def)
next
  fix other :: "fval dict"
  assume d: "distinct (keys other)" and agree: "\<forall>k \<in> dom W. map_of other k = map_of loss_dict k"
  have "(k \<in> fst ` set other) = (k \<in> fst ` set loss_dict)" if "k \<in> dom W" for k
    using agree that map_of_eq_None_iff [of other k] map_of_eq_None_iff [of loss_dict k]
    by simp
  then have same: "fst ` set other \<inter> dom W = fst ` set loss_dict \<inter> dom W"
    by blast
  have "(\<Sum>k \<in> fst ` set loss_dict \<inter> dom W. fmul (the (map_of other k)) (the (W k)))
      = (\<Sum>k \<in> fst ` set loss_dict \<inter> dom W. fmul (the (map_of loss_dict k)) (the (W k)))"
    by (rule sum.cong) (use agree in auto)
  then show "losses other W = losses loss_dict W"
    by (simp only: losses_char [OF d] losses_char [OF assms] same)
qed

lemma example_losses: "losses example_loss_dict example_weight_dict = Tensor (Fin 17)"
  by (simp add: losses_def weighted_terms_def keys_def py_sum_def example_loss_dict_def
      example_weight_dict_def)

theorem losses_weighted_sum_witness:
  "distinct (keys example_loss_dict)
   \<and> (\<Sum>k \<in> set (keys example_loss_dict) \<inter> dom example_weight_dict.
         fmul (the (map_of example_loss_dict k)) (the (example_weight_dict k))) = Fin 17
   \<and> losses [(''loss_ce'', Fin 2), (''loss_bbox'', Fin 3)] example_weight_dict
       = losses example_loss_dict example_weight_dict"
proof -
  have d: "distinct (keys example_loss_dict)"
    by (simp add: keys_def example_loss_dict_def)
  note t = losses_weighted_sum [OF d, of example_weight_dict]
  have d': "distinct (keys [(''loss_ce'', Fin 2), (''loss_bbox'', Fin 3)])"
    by (simp add: keys_def)
  have a: "\<forall>k \<in> dom example_weight_dict.
      map_of [(''loss_ce'', Fin 2), (''loss_bbox'', Fin 3)] k = map_of example_loss_dict k"
    by (simp add: example_weight_dict_def example_loss_dict_def)
  show ?thesis
    using d conjunct1 [OF t] conjunct2 [OF t, THEN spec, THEN mp, THEN mp, OF d' a]
    by (simp add: example_losses)
qed

text \<open>
  Claim C3. The reduced scaled mapping built by both drivers has exactly the keys
  that the loss dict and the weight dict share, each with the reduced value times
  its weight. The reduced unscaled mapping has the keys of the loss dict, in
  order, each with the suffix \<^verbatim>\<open>_unscaled\<close>; the renaming is one-to-one and
  every renamed key carries the reduced value of the key it comes from.
\<close>

theorem reduced_views_keys:
  assumes "distinct (keys loss_dict)"
  shows "set (keys (loss_dict_reduced_scaled (reduce_dict r loss_dict) W))
           = set (keys loss_dict) \<inter> dom W
       \<and> (\<forall>k v w. map_of loss_dict k = Some v \<and> W k = Some w \<longrightarrow>
             map_of (loss_dict_reduced_scaled (reduce_dict r loss_dict) W) k = Some (fmul (r k v) w))
       \<and> keys (loss_dict_reduced_unscaled (reduce_dict r loss_dict))
           = map (\<lambda>k. k @ ''_unscaled'') (keys loss_dict)
       \<and> distinct (keys (loss_dict_reduced_unscaled (reduce_dict r loss_dict)))
       \<and> inj (\<lambda>k. k @ ''_unscaled'')
       \<and> (\<forall>k. map_of (loss_dict_reduced_unscaled (reduce_dict r loss_dict)) (k @ ''_unscaled'')
             = map_of (reduce_dict r loss_dict) k)"
proof -
  have d: "distinct (keys (reduce_dict r loss_dict))"
    using assms by (simp add: keys_reduce_dict)
  have 1: "set (keys (loss_dict_reduced_scaled (reduce_dict r loss_dict) W))
           = set (keys loss_dict) \<inter> dom W"
    by (auto simp: keys_scaled [OF d] keys_reduce_dict)
  have 2: "\<forall>k v w. map_of loss_dict k = Some v \<and> W k = Some w \<longrightarrow>
             map_of (loss_dict_reduced_scaled (reduce_dict r loss_dict) W) k = Some (fmul (r k v) w)"
    by (simp add: map_of_scaled [OF d] map_of_reduce_dict)
  have 3: "keys (loss_dict_reduced_unscaled (reduce_dict r loss_dict))
           = map (\<lambda>k. k @ ''_unscaled'') (keys loss_dict)"
    by (simp add: keys_unscaled [OF d] keys_reduce_dict)
  have 4: "distinct (keys (loss_dict_reduced_unscaled (reduce_dict r loss_dict)))"
    unfolding 3 using assms by (simp add: distinct_map inj_on_def)
  have 5: "\<forall>k. map_of (loss_dict_reduced_unscaled (reduce_dict r loss_dict)) (k @ ''_unscaled'')
             = map_of (reduce_dict r loss_dict) k"
    by (simp add: map_of_unscaled [OF d])
  show ?thesis using 1 2 3 4 5 inj_unscaled by blast
qed

theorem reduced_views_keys_witness:
  "distinct (keys example_loss_dict)
   \<and> set (keys (loss_dict_reduced_scaled (reduce_dict (\<lambda>k v. v) example_loss_dict)
         example_weight_dict)) = {''loss_ce'', ''loss_bbox''}
   \<and> map_of (loss_dict_reduced_scaled (reduce_dict (\<lambda>k v. v) example_loss_dict)
         example_weight_dict) ''loss_bbox'' = Some (Fin 15)
   \<and> keys (loss_dict_reduced_unscaled (reduce_dict (\<lambda>k v. v) example_loss_dict))
       = [''loss_ce_unscaled'', ''class_error_unscaled'', ''loss_bbox_unscaled'']
   \<and> map_of (loss_dict_reduced_unscaled (reduce_dict (\<lambda>k v. v) example_loss_dict))
         ''class_error_unscaled'' = Some (Fin 50)"
proof -
  have d: "distinct (keys example_loss_dict)"
    by (simp add: keys_def example_loss_dict_def)
  note t = reduced_views_keys [OF d, of "\<lambda>k v. v" example_weight_dict]
  have i: "set (keys example_loss_dict) \<inter> dom example_weight_dict = {''loss_ce'', ''loss_bbox''}"
    by (auto simp: keys_def example_loss_dict_def example_weight_dict_def)
  have m: "map_of example_loss_dict ''loss_bbox'' = Some (Fin 3)
      \<and> example_weight_dict ''loss_bbox'' = Some (Fin 5)"
    by (simp add: example_loss_dict_def example_weight_dict_def)
  have u: "map_of (reduce_dict (\<lambda>k v. v) example_loss_dict) ''class_error'' = Some (Fin 50)"
    by (simp add: reduce_dict_def example_loss_dict_def)
  have k: "map (\<lambda>k. k @ ''_unscaled'') (keys example_loss_dict)
      = [''loss_ce_unscaled'', ''class_error_unscaled'', ''loss_bbox_unscaled'']"
    by (simp add: keys_def example_loss_dict_def)
  from t have "map_of (loss_dict_reduced_scaled (reduce_dict (\<lambda>k v. v) example_loss_dict)
         example_weight_dict) ''loss_bbox'' = Some (fmul (Fin 3) (Fin 5))"
    using m by blast
  moreover from t have "map_of (loss_dict_reduced_unscaled (reduce_dict (\<lambda>k v. v) example_loss_dict))
         (''class_error'' @ ''_unscaled'')
       = map_of (reduce_dict (\<lambda>k v. v) example_loss_dict) ''class_error''"
    by blast
  then have "map_of (loss_dict_reduced_unscaled (reduce_dict (\<lambda>k v. v) example_loss_dict))
         ''class_error_unscaled'' = Some (Fin 50)"
    using u by simp
  ultimately show ?thesis
    using d t i k by simp
qed

section \<open>The training step\<close>

lemma sum_values_char:
  "sum_values d = (if d = [] then PyInt 0 else Tensor (sum_list (map snd d)))"
proof -
  have "map (\<lambda>(k, v). Tensor v) d = map Tensor (map snd d)"
    by (simp add: case_prod_unfold comp_def)
  then have "sum_values d = py_sum (map Tensor (map snd d))"
    by (simp only: sum_values_def)
  then show ?thesis
    by (simp only: py_sum_Tensor map_is_Nil_conv)
qed

lemma scaled_empty_iff:
  assumes "distinct (keys R)"
  shows "(loss_dict_reduced_scaled R W = []) = (set (keys R) \<inter> dom W = {})"
proof -
  have "(loss_dict_reduced_scaled R W = []) = (keys (loss_dict_reduced_scaled R W) = [])"
    by (simp add: keys_def)
  also have "\<dots> = (set (filter (\<lambda>k. W k \<noteq> None) (keys R)) = {})"
    by (simp only: keys_scaled [OF assms] set_empty)
  also have "\<dots> = (set (keys R) \<inter> dom W = {})"
    using weighted_keys_set [of W R] by (simp add: keys_def)
  finally show ?thesis .
qed

lemma losses_tensor_iff:
  assumes "distinct (keys L)"
  shows "(\<exists>t. losses L W = Tensor t) = (set (keys L) \<inter> dom W \<noteq> {})"
  using losses_char [OF assms, of W] by (simp add: keys_def)

lemma optimize_Tensor:
  "optimize c max_norm (Tensor t) s b =
     Inr (s\<lparr>grads := (if max_norm > 0 then clip_grad_norm (backward c (params s) b) max_norm
                       else backward c (params s) b),
            calls := calls s @ [Zero_grad, Backward]
                       @ (if max_norm > 0 then [Clip_grad_norm max_norm] else [])
                       @ [Optimizer_step],
            optimizer := fst (optimizer_step c (optimizer s) (params s)
                        (if max_norm > 0 then clip_grad_norm (backward c (params s) b) max_norm
                         else backward c (params s) b)),
            params := snd (optimizer_step c (optimizer s) (params s)
                        (if max_norm > 0 then clip_grad_norm (backward c (params s) b) max_norm
                         else backward c (params s) b))\<rparr>)"
  by (simp add: optimize_def Let_def case_prod_unfold)

lemma optimize_not_Tensor:
  "(\<forall>t. the_losses \<noteq> Tensor t) \<Longrightarrow>
     optimize c max_norm the_losses s b = Inl (AttributeError, s\<lparr>grads := [], calls := calls s @ [Zero_grad]\<rparr>)"
  by (cases the_losses) (simp_all add: optimize_def Let_def)

lemma log_batch_cases:
  "log_batch c v scaled unscaled R s = Inl (e, s') \<Longrightarrow> e \<in> {TypeError, KeyError, IndexError}"
  by (auto simp: log_batch_def keyword_call_def Let_def split: if_splits option.splits list.splits)

lemma log_batch_keeps:
  "log_batch c v scaled unscaled R s = Inr s' \<Longrightarrow>
     params s' = params s \<and> optimizer s' = optimizer s \<and> grads s' = grads s \<and> calls s' = calls s"
  by (auto simp: log_batch_def keyword_call_def Let_def split: if_splits option.splits list.splits)

lemma log_batch_keeps_Inl:
  "log_batch c v scaled unscaled R s = Inl (e, s') \<Longrightarrow>
     params s' = params s \<and> optimizer s' = optimizer s \<and> grads s' = grads s \<and> calls s' = calls s"
  by (auto simp: log_batch_def keyword_call_def Let_def split: if_splits option.splits list.splits)

lemma log_batch_meters:
  "log_batch c v scaled unscaled R s = Inr s' \<Longrightarrow>
     (\<exists>class_error lr rest.
        map_of R ''class_error'' = Some class_error \<and>
        param_groups_lr c (optimizer s) = lr # rest \<and>
        meters s' =
          update (update (update (meters s)
              ((''loss'', PyFloat v) # as_tensors scaled @ as_tensors unscaled))
            [(''class_error'', Tensor class_error)])
            [(''lr'', PyFloat lr)])"
  by (auto simp: log_batch_def keyword_call_def Let_def split: if_splits option.splits list.splits)

lemma train_batch_Tensor:
  assumes "sum_values (loss_dict_reduced_scaled
             (reduce_dict (all_reduce c) (criterion c (model c (params s) b) b)) (weight_dict c)) = Tensor v"
  shows "train_batch c max_norm s b =
     (if \<not> isfinite v
      then Inl (SystemExit 1,
             s\<lparr>calls := calls s @ [Print_loss_is v,
                Print_loss_dict (reduce_dict (all_reduce c) (criterion c (model c (params s) b) b))]\<rparr>)
      else (case optimize c max_norm (losses (criterion c (model c (params s) b) b) (weight_dict c)) s b of
              Inl e \<Rightarrow> Inl e
            | Inr s' \<Rightarrow>
                log_batch c v
                  (loss_dict_reduced_scaled
                     (reduce_dict (all_reduce c) (criterion c (model c (params s) b) b)) (weight_dict c))
                  (loss_dict_reduced_unscaled
                     (reduce_dict (all_reduce c) (criterion c (model c (params s) b) b)))
                  (reduce_dict (all_reduce c) (criterion c (model c (params s) b) b)) s'))"
  by (simp add: train_batch_def Let_def assms)

lemma train_batch_not_Tensor:
  assumes "\<forall>v. sum_values (loss_dict_reduced_scaled
             (reduce_dict (all_reduce c) (criterion c (model c (params s) b) b)) (weight_dict c)) \<noteq> Tensor v"
  shows "train_batch c max_norm s b = Inl (AttributeError, s)"
proof -
  have "item (sum_values (loss_dict_reduced_scaled
             (reduce_dict (all_reduce c) (criterion c (model c (params s) b) b)) (weight_dict c)))
        = Inl AttributeError"
    using assms
    by (cases "sum_values (loss_dict_reduced_scaled
             (reduce_dict (all_reduce c) (criterion c (model c (params s) b) b)) (weight_dict c))")
       simp_all
  then show ?thesis
    by (simp add: train_batch_def Let_def)
qed

text \<open>
  Claim C10. \<^verbatim>\<open>train_one_epoch\<close> needs, for every batch, a key that the loss dict and
  the weight dict share. With one, the unreduced weighted sum and the reduced scaled
  sum are tensors, \<^verbatim>\<open>.item()\<close> gives a value and the batch does not fail for a
  missing \<^verbatim>\<open>item\<close> or \<^verbatim>\<open>backward\<close>. With none, both sums are the integer 0 and the
  batch raises \<^verbatim>\<open>AttributeError\<close> at \<^verbatim>\<open>.item()\<close> with the state untouched: no
  gradient is zeroed and no optimizer step is taken, and the epoch ends there.
\<close>

theorem empty_intersection_fails:
  fixes c :: "('p, 's, 'b, 'o) collaborators" and s :: "('p, 's) train_state" and b :: 'b
  defines "L \<equiv> criterion c (model c (params s) b) b"
  defines "rtotal \<equiv> sum_values (loss_dict_reduced_scaled
                      (reduce_dict (all_reduce c) (criterion c (model c (params s) b) b)) (weight_dict c))"
  assumes "distinct (keys (criterion c (model c (params s) b) b))"
  shows "(set (keys L) \<inter> dom (weight_dict c) \<noteq> {} \<longrightarrow>
            (\<exists>t. losses L (weight_dict c) = Tensor t)
          \<and> (\<exists>v. rtotal = Tensor v \<and> item rtotal = Inr v)
          \<and> (\<forall>s'. train_batch c max_norm s b \<noteq> Inl (AttributeError, s')))
       \<and> (set (keys L) \<inter> dom (weight_dict c) = {} \<longrightarrow>
            losses L (weight_dict c) = PyInt 0
          \<and> rtotal = PyInt 0
          \<and> train_batch c max_norm s b = Inl (AttributeError, s)
          \<and> train_batches c max_norm s (b # data_loader) = Inl (AttributeError, s))"
proof (intro conjI impI)
  have dL: "distinct (keys L)" using assms by simp
  have dR: "distinct (keys (reduce_dict (all_reduce c) L))"
    using dL by (simp add: keys_reduce_dict)
  have rtotal: "rtotal = sum_values (loss_dict_reduced_scaled (reduce_dict (all_reduce c) L) (weight_dict c))"
    by (simp add: rtotal_def L_def)
  {
    assume ne: "set (keys L) \<inter> dom (weight_dict c) \<noteq> {}"
    show "\<exists>t. losses L (weight_dict c) = Tensor t"
      using losses_tensor_iff [OF dL] ne by simp
    have "loss_dict_reduced_scaled (reduce_dict (all_reduce c) L) (weight_dict c) \<noteq> []"
      using scaled_empty_iff [OF dR, of "weight_dict c"] ne by (simp add: keys_reduce_dict)
    then obtain v where v: "rtotal = Tensor v"
      unfolding rtotal sum_values_char by simp
    then show "\<exists>v. rtotal = Tensor v \<and> item rtotal = Inr v" by simp
    obtain t where t: "losses L (weight_dict c) = Tensor t"
      using losses_tensor_iff [OF dL] ne by auto
    show "\<forall>s'. train_batch c max_norm s b \<noteq> Inl (AttributeError, s')"
    proof (intro allI notI)
      fix s'
      assume a: "train_batch c max_norm s b = Inl (AttributeError, s')"
      note u = train_batch_Tensor [OF v [unfolded rtotal_def], of max_norm]
      show False
      proof (cases "isfinite v")
        case False
        then show False using a u by simp
      next
        case True
        then show False
          using a u t [unfolded L_def] log_batch_cases [of c v _ _ _ _ AttributeError s']
          by (simp add: optimize_Tensor)
      qed
    qed
  }
  {
    assume e: "set (keys L) \<inter> dom (weight_dict c) = {}"
    show "losses L (weight_dict c) = PyInt 0"
      using losses_char [OF dL, of "weight_dict c"] e by (simp add: keys_def)
    have "loss_dict_reduced_scaled (reduce_dict (all_reduce c) L) (weight_dict c) = []"
      using scaled_empty_iff [OF dR, of "weight_dict c"] e by (simp add: keys_reduce_dict)
    then show z: "rtotal = PyInt 0"
      unfolding rtotal sum_values_char by simp
    then have "\<forall>v. rtotal \<noteq> Tensor v" by simp
    from train_batch_not_Tensor [OF this [unfolded rtotal_def], of max_norm]
    show tb: "train_batch c max_norm s b = Inl (AttributeError, s)" .
    then show "train_batches c max_norm s (b # data_loader) = Inl (AttributeError, s)"
      by simp
  }
qed

lemma lookup_filter_map:
  "distinct (map fst L) \<Longrightarrow>
     map (\<lambda>k. f k (the (map_of L k))) (filter P (map fst L))
       = map (\<lambda>(k, v). f k v) (filter (\<lambda>(k, v). P k) L)"
proof (induction L)
  case Nil
  then show ?case by simp
next
  case (Cons kv L)
  obtain k v where kv: "kv = (k, v)" by (cases kv)
  have notin: "k \<notin> fst ` set L" and d: "distinct (map fst L)"
    using Cons.prems kv by auto
  have "map (\<lambda>k'. f k' (the (map_of (kv # L) k'))) (filter P (map fst L))
      = map (\<lambda>k'. f k' (the (map_of L k'))) (filter P (map fst L))"
    using notin kv by (intro map_cong) auto
  then show ?case
    using Cons.IH [OF d] by (simp add: kv)
qed

lemma reduce_dict_single: "reduce_dict (\<lambda>k v. v) L = L"
  by (simp add: reduce_dict_def case_prod_unfold)

lemma single_worker_same:
  assumes "distinct (keys L)"
  shows "sum_values (loss_dict_reduced_scaled (reduce_dict (\<lambda>k v. v) L) W) = losses L W"
proof -
  have "map (\<lambda>(k, v). Tensor v) (map (\<lambda>(k, v). (k, fmul v (the (W k)))) (filter (\<lambda>(k, v). W k \<noteq> None) L))
      = map (\<lambda>(k, v). Tensor (fmul v (the (W k)))) (filter (\<lambda>(k, v). W k \<noteq> None) L)"
    by (simp add: case_prod_unfold comp_def)
  also have "\<dots> = map (\<lambda>k. Tensor (fmul (the (map_of L k)) (the (W k)))) (filter (\<lambda>k. W k \<noteq> None) (map fst L))"
    using lookup_filter_map [of L "\<lambda>k v. Tensor (fmul v (the (W k)))" "\<lambda>k. W k \<noteq> None"] assms
    by (simp add: keys_def)
  finally show ?thesis
    by (simp add: sum_values_def losses_def weighted_terms_def reduce_dict_single
        scaled_eq [OF assms] keys_def)
qed

text \<open>
  Claim C2, as the code has it. The guard of \<^verbatim>\<open>train_one_epoch\<close> reads the sum of
  the reduced scaled terms (\<^verbatim>\<open>losses_reduced_scaled.item()\<close>), not the unreduced loss
  that is backpropagated. Whenever that reduced sum is not finite the driver prints
  the reduced loss dict and exits with status 1 before \<^verbatim>\<open>zero_grad\<close>,
  \<^verbatim>\<open>backward\<close> and \<^verbatim>\<open>optimizer.step\<close>: parameters, optimizer state, gradients and
  meters are those before the batch. Whenever it is finite there is no such exit, and
  every exit of a batch comes from a non-finite reduced sum. On a single worker, where
  the reduction returns its input, the reduced sum is the unreduced loss.
\<close>

theorem nonfinite_reduced_loss_exits:
  fixes c :: "('p, 's, 'b, 'o) collaborators" and s :: "('p, 's) train_state" and b :: 'b
  defines "L \<equiv> criterion c (model c (params s) b) b"
  defines "R \<equiv> reduce_dict (all_reduce c) (criterion c (model c (params s) b) b)"
  defines "rtotal \<equiv> sum_values (loss_dict_reduced_scaled
                      (reduce_dict (all_reduce c) (criterion c (model c (params s) b) b)) (weight_dict c))"
  shows "(\<forall>v. rtotal = Tensor v \<and> \<not> isfinite v \<longrightarrow>
            train_batch c max_norm s b =
              Inl (SystemExit 1, s\<lparr>calls := calls s @ [Print_loss_is v, Print_loss_dict R]\<rparr>))
       \<and> (\<forall>v. rtotal = Tensor v \<and> isfinite v \<longrightarrow>
            (\<forall>n s'. train_batch c max_norm s b \<noteq> Inl (SystemExit n, s')))
       \<and> (\<forall>n s'. train_batch c max_norm s b = Inl (SystemExit n, s') \<longrightarrow>
            n = 1 \<and> params s' = params s \<and> optimizer s' = optimizer s
            \<and> grads s' = grads s \<and> meters s' = meters s
            \<and> (\<exists>v. rtotal = Tensor v \<and> \<not> isfinite v
                 \<and> calls s' = calls s @ [Print_loss_is v, Print_loss_dict R]))
       \<and> (all_reduce c = (\<lambda>k v. v) \<and> distinct (keys L) \<longrightarrow> rtotal = losses L (weight_dict c))"
proof -
  have no_exit: "train_batch c max_norm s b \<noteq> Inl (SystemExit n, s')"
    if v: "rtotal = Tensor v" and f: "isfinite v" for v n s'
  proof
    assume a: "train_batch c max_norm s b = Inl (SystemExit n, s')"
    note u = train_batch_Tensor [OF v [unfolded rtotal_def], of max_norm]
    show False
    proof (cases "\<exists>t. losses L (weight_dict c) = Tensor t")
      case True
      then obtain t where "losses L (weight_dict c) = Tensor t" by blast
      then show False
        using a u f log_batch_cases [of c v _ _ _ _ "SystemExit n" s']
        by (simp add: optimize_Tensor L_def)
    next
      case False
      then have "\<forall>t. losses L (weight_dict c) \<noteq> Tensor t" by simp
      from optimize_not_Tensor [OF this, of c max_norm s b] show False
        using a u f by (simp add: L_def)
    qed
  qed
  have exit: "train_batch c max_norm s b =
              Inl (SystemExit 1, s\<lparr>calls := calls s @ [Print_loss_is v, Print_loss_dict R]\<rparr>)"
    if v: "rtotal = Tensor v" and f: "\<not> isfinite v" for v
    using train_batch_Tensor [OF v [unfolded rtotal_def], of max_norm] f by (simp add: R_def)
  have only: "n = 1 \<and> params s' = params s \<and> optimizer s' = optimizer s
            \<and> grads s' = grads s \<and> meters s' = meters s
            \<and> (\<exists>v. rtotal = Tensor v \<and> \<not> isfinite v
                 \<and> calls s' = calls s @ [Print_loss_is v, Print_loss_dict R])"
    if a: "train_batch c max_norm s b = Inl (SystemExit n, s')" for n s'
  proof (cases "\<exists>v. rtotal = Tensor v")
    case True
    then obtain v where v: "rtotal = Tensor v" by blast
    have nf: "\<not> isfinite v" using no_exit [OF v] a by blast
    from exit [OF v nf] a v nf show ?thesis by auto
  next
    case False
    then have "\<forall>v. rtotal \<noteq> Tensor v" by simp
    from train_batch_not_Tensor [OF this [unfolded rtotal_def], of max_norm] a
    show ?thesis by simp
  qed
  have single: "rtotal = losses L (weight_dict c)"
    if "all_reduce c = (\<lambda>k v. v)" and "distinct (keys L)"
    using single_worker_same [OF that(2), of "weight_dict c"] that(1)
    by (simp add: rtotal_def L_def)
  show ?thesis
    using no_exit exit only single by blast
qed

text \<open>
  Claim C2 as stated fails with two workers: the local weighted loss is the finite
  1.0, the other worker's \<^verbatim>\<open>loss_ce\<close> is NaN, the reduced sum is NaN and the driver
  exits.
\<close>

theorem finite_local_loss_exits_counterexample:
  "losses (criterion two_workers (model two_workers (params start) 1) 1) (weight_dict two_workers)
     = Tensor (Fin 1)
   \<and> isfinite (Fin 1)
   \<and> train_batch two_workers 0 start 1 =
       Inl (SystemExit 1,
            start\<lparr>calls := [Print_loss_is NaN,
                             Print_loss_dict [(''loss_ce'', NaN), (''class_error'', Fin 0)]]\<rparr>)"
  by (simp add: two_workers_def single_worker_def start_def losses_def weighted_terms_def keys_def
      py_sum_def train_batch_def Let_def reduce_dict_def loss_dict_reduced_scaled_def
      loss_dict_reduced_unscaled_def dict_comp_def sum_values_def)

lemma l2_norm_scale: "l2_norm (map (\<lambda>x. x * a) g) = \<bar>a\<bar> * l2_norm g"
proof -
  have "(\<Sum>x\<leftarrow>g. (x * a)\<^sup>2) = a\<^sup>2 * (\<Sum>x\<leftarrow>g. x\<^sup>2)"
    by (induction g) (simp_all add: power_mult_distrib algebra_simps)
  then show ?thesis
    by (simp add: l2_norm_def comp_def real_sqrt_mult)
qed

lemma l2_norm_nonneg: "0 \<le> l2_norm g"
proof -
  have "0 \<le> (\<Sum>x\<leftarrow>g. x\<^sup>2)"
    by (induction g) simp_all
  then show ?thesis by (simp add: l2_norm_def)
qed

lemma clip_bound:
  assumes "0 < max_norm"
  shows "l2_norm (clip_grad_norm g max_norm) \<le> max_norm"
proof -
  define n where "n = l2_norm g"
  define a where "a = min (max_norm / (n + 1 / 1000000)) 1"
  have n0: "0 \<le> n" by (simp add: n_def l2_norm_nonneg)
  have pos: "0 < n + 1 / 1000000" using n0 by simp
  have a0: "0 \<le> a" using assms pos by (simp add: a_def)
  have "a * n \<le> (max_norm / (n + 1 / 1000000)) * n"
    using n0 by (intro mult_right_mono) (simp_all add: a_def)
  also have "\<dots> = max_norm * (n / (n + 1 / 1000000))" by simp
  also have "\<dots> \<le> max_norm * 1"
    using assms pos n0 by (intro mult_left_mono) simp_all
  finally have "a * n \<le> max_norm" by simp
  moreover have "l2_norm (clip_grad_norm g max_norm) = \<bar>a\<bar> * n"
    by (simp add: clip_grad_norm_def Let_def l2_norm_scale a_def n_def)
  ultimately show ?thesis using a0 by simp
qed

lemma clips_append:
  "clips_as_required m xs \<Longrightarrow> clips_as_required m ys \<Longrightarrow> clips_as_required m (xs @ ys)"
  by (auto simp: clips_as_required_def split: if_splits)

lemma train_batch_Inr:
  assumes "train_batch c max_norm s b = Inr s'"
  shows "calls s' = calls s @ [Zero_grad, Backward]
                      @ (if max_norm > 0 then [Clip_grad_norm max_norm] else []) @ [Optimizer_step]
       \<and> grads s' = (if max_norm > 0 then clip_grad_norm (backward c (params s) b) max_norm
                     else backward c (params s) b)"
proof -
  let ?rt = "sum_values (loss_dict_reduced_scaled
             (reduce_dict (all_reduce c) (criterion c (model c (params s) b) b)) (weight_dict c))"
  have "\<exists>v. ?rt = Tensor v"
    using train_batch_not_Tensor [of c s b max_norm] assms by force
  then obtain v where v: "?rt = Tensor v" by blast
  note u = train_batch_Tensor [OF v, of max_norm]
  have f: "isfinite v" using u assms by (auto split: if_splits)
  have "\<exists>t. losses (criterion c (model c (params s) b) b) (weight_dict c) = Tensor t"
    using optimize_not_Tensor [of "losses (criterion c (model c (params s) b) b) (weight_dict c)" c max_norm s b]
      u f assms by force
  then obtain t where t: "losses (criterion c (model c (params s) b) b) (weight_dict c) = Tensor t"
    by blast
  from u f t assms obtain s1 where
    o: "optimize c max_norm (Tensor t) s b = Inr s1" and
    l: "log_batch c v (loss_dict_reduced_scaled
             (reduce_dict (all_reduce c) (criterion c (model c (params s) b) b)) (weight_dict c))
          (loss_dict_reduced_unscaled (reduce_dict (all_reduce c) (criterion c (model c (params s) b) b)))
          (reduce_dict (all_reduce c) (criterion c (model c (params s) b) b)) s1 = Inr s'"
    by (simp add: optimize_Tensor)
  from log_batch_keeps [OF l] o show ?thesis
    by (auto simp: optimize_Tensor)
qed

lemma train_batch_calls:
  "\<exists>new. calls (state_of (train_batch c max_norm s b)) = calls s @ new
         \<and> clips_as_required max_norm new"
proof -
  let ?L = "criterion c (model c (params s) b) b"
  let ?R = "reduce_dict (all_reduce c) ?L"
  let ?rt = "sum_values (loss_dict_reduced_scaled ?R (weight_dict c))"
  show ?thesis
  proof (cases "\<exists>v. ?rt = Tensor v")
    case False
    then have "train_batch c max_norm s b = Inl (AttributeError, s)"
      using train_batch_not_Tensor [of c s b max_norm] by simp
    then show ?thesis by (simp add: state_of_def clips_as_required_def)
  next
    case True
    then obtain v where v: "?rt = Tensor v" by blast
    note u = train_batch_Tensor [OF v, of max_norm]
    show ?thesis
    proof (cases "isfinite v")
      case False
      then show ?thesis using u by (simp add: state_of_def clips_as_required_def)
    next
      case f: True
      show ?thesis
      proof (cases "\<exists>t. losses ?L (weight_dict c) = Tensor t")
        case False
        then have "\<forall>t. losses ?L (weight_dict c) \<noteq> Tensor t" by simp
        from optimize_not_Tensor [OF this, of c max_norm s b] u f
        show ?thesis by (simp add: state_of_def clips_as_required_def)
      next
        case True
        then obtain t where t: "losses ?L (weight_dict c) = Tensor t" by blast
        obtain s1 where o: "optimize c max_norm (Tensor t) s b = Inr s1"
          and c1: "calls s1 = calls s @ [Zero_grad, Backward]
                      @ (if max_norm > 0 then [Clip_grad_norm max_norm] else []) @ [Optimizer_step]"
          by (simp add: optimize_Tensor)
        have tb: "train_batch c max_norm s b =
            log_batch c v (loss_dict_reduced_scaled ?R (weight_dict c))
              (loss_dict_reduced_unscaled ?R) ?R s1"
          using u f t o by simp
        have "calls (state_of (train_batch c max_norm s b)) = calls s1"
        proof (cases "train_batch c max_norm s b")
          case (Inl es)
          obtain e s2 where es: "es = (e, s2)" by (cases es)
          have "log_batch c v (loss_dict_reduced_scaled ?R (weight_dict c))
              (loss_dict_reduced_unscaled ?R) ?R s1 = Inl (e, s2)"
            using Inl tb es by simp
          from log_batch_keeps_Inl [OF this] show ?thesis
            by (simp add: Inl es state_of_def)
        next
          case (Inr s2)
          have "log_batch c v (loss_dict_reduced_scaled ?R (weight_dict c))
              (loss_dict_reduced_unscaled ?R) ?R s1 = Inr s2"
            using Inr tb by simp
          from log_batch_keeps [OF this] show ?thesis
            by (simp add: Inr state_of_def)
        qed
        moreover have "clips_as_required max_norm ([Zero_grad, Backward]
                      @ (if max_norm > 0 then [Clip_grad_norm max_norm] else []) @ [Optimizer_step])"
          by (simp add: clips_as_required_def)
        ultimately show ?thesis using c1 by metis
      qed
    qed
  qed
qed

lemma train_batches_calls:
  "\<exists>new. calls (state_of (train_batches c max_norm s bs)) = calls s @ new
         \<and> clips_as_required max_norm new"
proof (induction bs arbitrary: s)
  case Nil
  show ?case by (simp add: state_of_def clips_as_required_def)
next
  case (Cons b bs)
  obtain new1 where n1: "calls (state_of (train_batch c max_norm s b)) = calls s @ new1"
    and g1: "clips_as_required max_norm new1"
    using train_batch_calls [of c max_norm s b] by blast
  show ?case
  proof (cases "train_batch c max_norm s b")
    case (Inl es)
    then have "train_batches c max_norm s (b # bs) = train_batch c max_norm s b"
      by simp
    then show ?thesis using n1 g1 by auto
  next
    case (Inr s1)
    obtain new2 where n2: "calls (state_of (train_batches c max_norm s1 bs)) = calls s1 @ new2"
      and g2: "clips_as_required max_norm new2"
      using Cons.IH [of s1] by blast
    have "calls s1 = calls s @ new1" using n1 Inr by (simp add: state_of_def)
    then have "calls (state_of (train_batches c max_norm s (b # bs))) = calls s @ (new1 @ new2)"
      using Inr n2 by simp
    then show ?thesis using clips_append [OF g1 g2] by blast
  qed
qed

text \<open>
  Claim C6. A batch that \<^verbatim>\<open>train_one_epoch\<close> completes calls \<^verbatim>\<open>zero_grad\<close>,
  \<^verbatim>\<open>backward\<close>, the clip exactly when \<^verbatim>\<open>max_norm > 0\<close>, and \<^verbatim>\<open>optimizer.step\<close>, in
  this order; with \<^verbatim>\<open>max_norm > 0\<close> the gradients the optimizer steps with are the
  clipped ones and their 2-norm is at most \<^verbatim>\<open>max_norm\<close>. Over a whole run of the
  loop, however it ends: with \<^verbatim>\<open>max_norm > 0\<close> there is one clip call, with
  \<^verbatim>\<open>max_norm\<close> as its bound, for every \<^verbatim>\<open>backward\<close>, and otherwise there is no clip
  call at all.
\<close>

theorem clip_iff_max_norm_positive:
  fixes c :: "('p, 's, 'b, 'o) collaborators"
  shows "(\<forall>s'. train_batch c max_norm s b = Inr s' \<longrightarrow>
            calls s' = calls s @ [Zero_grad, Backward]
                         @ (if max_norm > 0 then [Clip_grad_norm max_norm] else []) @ [Optimizer_step]
          \<and> grads s' = (if max_norm > 0 then clip_grad_norm (backward c (params s) b) max_norm
                        else backward c (params s) b)
          \<and> (max_norm > 0 \<longrightarrow> l2_norm (grads s') \<le> max_norm))
       \<and> (\<exists>new. calls (state_of (train_batches c max_norm s data_loader)) = calls s @ new
                \<and> clips_as_required max_norm new)"
proof (intro conjI allI impI)
  fix s' assume a: "train_batch c max_norm s b = Inr s'"
  note r = train_batch_Inr [OF a]
  show "calls s' = calls s @ [Zero_grad, Backward]
                         @ (if max_norm > 0 then [Clip_grad_norm max_norm] else []) @ [Optimizer_step]"
    using r by blast
  show "grads s' = (if max_norm > 0 then clip_grad_norm (backward c (params s) b) max_norm
                        else backward c (params s) b)"
    using r by blast
  show "l2_norm (grads s') \<le> max_norm" if "max_norm > 0"
    using r that clip_bound [OF that] by simp
next
  show "\<exists>new. calls (state_of (train_batches c max_norm s data_loader)) = calls s @ new
                \<and> clips_as_required max_norm new"
    by (rule train_batches_calls)
qed

section \<open>The aggregator over an epoch\<close>

lemma distinct_update_one:
  "distinct (map fst ms) \<Longrightarrow> distinct (map fst (update_one ms kv))"
  by (cases kv) (simp add: update_one_def distinct_update)

lemma distinct_update_meters:
  "distinct (map fst ms) \<Longrightarrow> distinct (map fst (update ms kwargs))"
  unfolding update_def
  by (induction kwargs arbitrary: ms) (simp_all add: distinct_update_one)

lemma map_of_update_one:
  "map_of (update_one ms (k, v)) =
     (map_of ms)(k \<mapsto> meter_update (case map_of ms k of None \<Rightarrow> SmoothedValue | Some m \<Rightarrow> m) (num_of v))"
  by (simp add: update_one_def update_conv')

lemma counted_update_one:
  "counted A ms \<Longrightarrow> counted (A - {fst kv}) (update_one ms kv)"
  by (cases kv) (auto simp: counted_def map_of_update_one meter_update_def)

lemma counted_mono: "counted A ms \<Longrightarrow> A \<subseteq> B \<Longrightarrow> counted B ms"
  by (auto simp: counted_def)

lemma counted_update:
  "counted A ms \<Longrightarrow> counted (A - fst ` set kwargs) (update ms kwargs)"
  unfolding update_def
proof (induction kwargs arbitrary: ms A)
  case Nil
  then show ?case by simp
next
  case (Cons kv kwargs)
  have "counted (A - {fst kv} - fst ` set kwargs) (foldl update_one (update_one ms kv) kwargs)"
    by (rule Cons.IH [OF counted_update_one [OF Cons.prems, of kv]])
  then have "counted (A - fst ` set (kv # kwargs)) (foldl update_one (update_one ms kv) kwargs)"
    by (rule counted_mono) auto
  then show ?case by simp
qed

lemma global_avgs_Inr:
  "global_avgs ms = Inr avgs \<Longrightarrow>
     avgs = map (\<lambda>(k, m). (k, fdiv_count (total m) (count m))) ms
     \<and> (\<forall>(k, m) \<in> set ms. count m \<noteq> 0)"
proof (induction ms arbitrary: avgs)
  case Nil
  then show ?case by simp
next
  case (Cons km ms)
  obtain k m where km: "km = (k, m)" by (cases km)
  from Cons.prems km obtain r where
    c: "count m \<noteq> 0" and r: "global_avgs ms = Inr r"
    and a: "avgs = (k, fdiv_count (total m) (count m)) # r"
    by (auto simp: global_avg_def split: if_splits sum.splits)
  from Cons.IH [OF r] c a km show ?case by simp
qed

lemma global_avgs_total:
  "\<forall>(k, m) \<in> set ms. count m \<noteq> 0 \<Longrightarrow>
     global_avgs ms = Inr (map (\<lambda>(k, m). (k, fdiv_count (total m) (count m))) ms)"
  by (induction ms) (auto simp: global_avg_def)

lemma keys_synchronize: "map fst (synchronize_between_processes r ms) = map fst ms"
  by (simp add: synchronize_between_processes_def case_prod_unfold comp_def)

lemma train_batch_meters:
  assumes "train_batch c max_norm s b = Inr s'"
  shows "\<exists>v class_error lr rest.
        item (sum_values (loss_dict_reduced_scaled
               (reduce_dict (all_reduce c) (criterion c (model c (params s) b) b)) (weight_dict c))) = Inr v
      \<and> map_of (reduce_dict (all_reduce c) (criterion c (model c (params s) b) b)) ''class_error''
          = Some class_error
      \<and> param_groups_lr c (optimizer s') = lr # rest
      \<and> meters s' =
          update (update (update (meters s)
              ((''loss'', PyFloat v)
                # as_tensors (loss_dict_reduced_scaled
                    (reduce_dict (all_reduce c) (criterion c (model c (params s) b) b)) (weight_dict c))
                @ as_tensors (loss_dict_reduced_unscaled
                    (reduce_dict (all_reduce c) (criterion c (model c (params s) b) b)))))
            [(''class_error'', Tensor class_error)])
            [(''lr'', PyFloat lr)]"
proof -
  let ?L = "criterion c (model c (params s) b) b"
  let ?R = "reduce_dict (all_reduce c) ?L"
  let ?rt = "sum_values (loss_dict_reduced_scaled ?R (weight_dict c))"
  have "\<exists>v. ?rt = Tensor v"
    using train_batch_not_Tensor [of c s b max_norm] assms by force
  then obtain v where v: "?rt = Tensor v" by blast
  note u = train_batch_Tensor [OF v, of max_norm]
  have f: "isfinite v" using u assms by (auto split: if_splits)
  have "\<exists>t. losses ?L (weight_dict c) = Tensor t"
    using optimize_not_Tensor [of "losses ?L (weight_dict c)" c max_norm s b] u f assms by force
  then obtain t where t: "losses ?L (weight_dict c) = Tensor t" by blast
  from u f t assms obtain s1 where
    o: "optimize c max_norm (Tensor t) s b = Inr s1" and
    l: "log_batch c v (loss_dict_reduced_scaled ?R (weight_dict c))
          (loss_dict_reduced_unscaled ?R) ?R s1 = Inr s'"
    by (simp add: optimize_Tensor)
  have m1: "meters s1 = meters s" using o by (auto simp: optimize_Tensor)
  have o1: "optimizer s' = optimizer s1" using log_batch_keeps [OF l] by simp
  from log_batch_meters [OF l] show ?thesis
    unfolding m1 o1 [symmetric] using v by auto
qed

lemma train_batch_distinct:
  assumes "train_batch c max_norm s b = Inr s'" and "distinct (map fst (meters s))"
  shows "distinct (map fst (meters s'))"
  using train_batch_meters [OF assms(1)] assms(2)
  by (auto intro!: distinct_update_meters)

lemma train_batch_counted:
  assumes "train_batch c max_norm s b = Inr s'" and "counted A (meters s)"
  shows "counted (A - {''lr'', ''class_error''}) (meters s')"
proof -
  from train_batch_meters [OF assms(1)] obtain kw ce lr where
    m: "meters s' = update (update (update (meters s) kw) [(''class_error'', ce)]) [(''lr'', lr)]"
    by blast
  have "counted (A - fst ` set kw - fst ` set [(''class_error'', ce)] - fst ` set [(''lr'', lr)])
          (meters s')"
    unfolding m by (intro counted_update assms(2))
  then show ?thesis by (rule counted_mono) auto
qed

lemma train_batches_distinct:
  "train_batches c max_norm s bs = Inr s' \<Longrightarrow> distinct (map fst (meters s)) \<Longrightarrow>
     distinct (map fst (meters s'))"
proof (induction bs arbitrary: s)
  case Nil
  then show ?case by simp
next
  case (Cons b bs)
  then show ?case
    by (auto split: sum.splits dest: train_batch_distinct)
qed

lemma train_batches_counted:
  "train_batches c max_norm s bs = Inr s' \<Longrightarrow> counted A (meters s) \<Longrightarrow> bs \<noteq> [] \<Longrightarrow>
     counted (A - {''lr'', ''class_error''}) (meters s')"
proof (induction bs arbitrary: s A)
  case Nil
  then show ?case by simp
next
  case (Cons b bs)
  from Cons.prems(1) obtain s1 where
    b: "train_batch c max_norm s b = Inr s1" and r: "train_batches c max_norm s1 bs = Inr s'"
    by (auto split: sum.splits)
  note c1 = train_batch_counted [OF b Cons.prems(2)]
  show ?case
  proof (cases bs)
    case Nil
    then show ?thesis using r c1 by simp
  next
    case (Cons b' bs')
    then have "bs \<noteq> []" by simp
    from Cons.IH [OF r c1 this] show ?thesis
      by (rule counted_mono) auto
  qed
qed

lemma fresh_logger:
  "add_meter ''class_error'' SmoothedValue (add_meter ''lr'' SmoothedValue [])
     = [(''lr'', SmoothedValue), (''class_error'', SmoothedValue)]"
  by (simp add: add_meter_def)

lemma train_one_epoch_Inr:
  assumes "train_one_epoch c max_norm s data_loader = Inr (stats, s')"
  shows "\<exists>s1. train_batches c max_norm
              (s\<lparr>meters := [(''lr'', SmoothedValue), (''class_error'', SmoothedValue)]\<rparr>) data_loader = Inr s1
          \<and> s' = s1\<lparr>meters := synchronize_between_processes (all_reduce_meter c) (meters s1)\<rparr>
          \<and> global_avgs (meters s') = Inr stats"
proof -
  from assms obtain s1 avgs where
    t: "train_batches c max_norm
          (s\<lparr>meters := [(''lr'', SmoothedValue), (''class_error'', SmoothedValue)]\<rparr>) data_loader = Inr s1"
    and g: "global_avgs (synchronize_between_processes (all_reduce_meter c) (meters s1)) = Inr avgs"
    and st: "stats = dict_comp avgs"
    and s': "s' = s1\<lparr>meters := synchronize_between_processes (all_reduce_meter c) (meters s1)\<rparr>"
    by (auto simp: train_one_epoch_def fresh_logger Let_def split: sum.splits)
  have "distinct (map fst (meters s1))"
    using train_batches_distinct [OF t] by simp
  then have d: "distinct (map fst (synchronize_between_processes (all_reduce_meter c) (meters s1)))"
    by (simp add: keys_synchronize)
  have "map fst avgs = map fst (synchronize_between_processes (all_reduce_meter c) (meters s1))"
    using global_avgs_Inr [OF g] by (simp add: case_prod_unfold comp_def)
  then have "dict_comp avgs = avgs"
    using d by (simp add: dict_comp_distinct)
  then show ?thesis using t g st s' by simp
qed

text \<open>
  Claim C8. When \<^verbatim>\<open>train_one_epoch\<close> returns, all batches have been processed, the
  aggregator has been synchronised, and the returned mapping has exactly the names
  of the aggregator's meters as keys, each with that meter's global average
  \<^verbatim>\<open>total / count\<close>. A batch that completes has updated the aggregator with the
  total loss value, every reduced scaled and unscaled term, the reduced
  \<^verbatim>\<open>class_error\<close> and the learning rate of the optimizer's first parameter group,
  read after the step. On a single worker a non-empty loader whose batches all
  complete makes \<^verbatim>\<open>train_one_epoch\<close> return.
\<close>

theorem epoch_returns_global_averages:
  fixes c :: "('p, 's, 'b, 'o) collaborators" and s :: "('p, 's) train_state" and b :: 'b
  defines "R \<equiv> reduce_dict (all_reduce c) (criterion c (model c (params s) b) b)"
  defines "fresh \<equiv> [(''lr'', SmoothedValue), (''class_error'', SmoothedValue)]"
  shows "(\<forall>stats s'. train_one_epoch c max_norm s data_loader = Inr (stats, s') \<longrightarrow>
            (\<exists>s1. train_batches c max_norm (s\<lparr>meters := fresh\<rparr>) data_loader = Inr s1
                 \<and> s' = s1\<lparr>meters := synchronize_between_processes (all_reduce_meter c) (meters s1)\<rparr>)
          \<and> keys stats = keys (meters s')
          \<and> (\<forall>k m. map_of (meters s') k = Some m \<longrightarrow>
                count m \<noteq> 0 \<and> global_avg m = Inr (fdiv_count (total m) (count m))
                \<and> map_of stats k = Some (fdiv_count (total m) (count m))))
       \<and> (\<forall>s'. train_batch c max_norm s b = Inr s' \<longrightarrow>
            (\<exists>loss_value class_error lr rest.
                item (sum_values (loss_dict_reduced_scaled R (weight_dict c))) = Inr loss_value
              \<and> map_of R ''class_error'' = Some class_error
              \<and> param_groups_lr c (optimizer s') = lr # rest
              \<and> meters s' =
                  update (update (update (meters s)
                      ((''loss'', PyFloat loss_value)
                        # as_tensors (loss_dict_reduced_scaled R (weight_dict c))
                        @ as_tensors (loss_dict_reduced_unscaled R)))
                    [(''class_error'', Tensor class_error)])
                    [(''lr'', PyFloat lr)]))
       \<and> (\<forall>s1. data_loader \<noteq> [] \<and> all_reduce_meter c = (\<lambda>k m. m)
               \<and> train_batches c max_norm (s\<lparr>meters := fresh\<rparr>) data_loader = Inr s1 \<longrightarrow>
            (\<exists>stats. train_one_epoch c max_norm s data_loader = Inr (stats, s1)))"
proof (intro conjI allI impI)
  fix stats s'
  assume a: "train_one_epoch c max_norm s data_loader = Inr (stats, s')"
  from train_one_epoch_Inr [OF a] obtain s1 where
    t: "train_batches c max_norm (s\<lparr>meters := fresh\<rparr>) data_loader = Inr s1"
    and s': "s' = s1\<lparr>meters := synchronize_between_processes (all_reduce_meter c) (meters s1)\<rparr>"
    and g: "global_avgs (meters s') = Inr stats"
    unfolding fresh_def by blast
  show "\<exists>s1. train_batches c max_norm (s\<lparr>meters := fresh\<rparr>) data_loader = Inr s1
            \<and> s' = s1\<lparr>meters := synchronize_between_processes (all_reduce_meter c) (meters s1)\<rparr>"
    using t s' by blast
  note ga = global_avgs_Inr [OF g]
  show "keys stats = keys (meters s')"
    using ga by (simp add: keys_def case_prod_unfold comp_def)
  fix k m
  assume km: "map_of (meters s') k = Some m"
  then have "(k, m) \<in> set (meters s')" by (rule map_of_SomeD)
  then have c0: "count m \<noteq> 0" using ga by auto
  have "map_of stats k = map_option (\<lambda>m. fdiv_count (total m) (count m)) (map_of (meters s') k)"
    using ga by (simp add: map_of_map)
  then have r: "count m \<noteq> 0 \<and> global_avg m = Inr (fdiv_count (total m) (count m))
                \<and> map_of stats k = Some (fdiv_count (total m) (count m))"
    using c0 km by (simp add: global_avg_def)
  show "count m \<noteq> 0" using r by blast
  show "global_avg m = Inr (fdiv_count (total m) (count m))" using r by blast
  show "map_of stats k = Some (fdiv_count (total m) (count m))" using r by blast
next
  fix s' assume "train_batch c max_norm s b = Inr s'"
  from train_batch_meters [OF this] show "\<exists>loss_value class_error lr rest.
                item (sum_values (loss_dict_reduced_scaled R (weight_dict c))) = Inr loss_value
              \<and> map_of R ''class_error'' = Some class_error
              \<and> param_groups_lr c (optimizer s') = lr # rest
              \<and> meters s' =
                  update (update (update (meters s)
                      ((''loss'', PyFloat loss_value)
                        # as_tensors (loss_dict_reduced_scaled R (weight_dict c))
                        @ as_tensors (loss_dict_reduced_unscaled R)))
                    [(''class_error'', Tensor class_error)])
                    [(''lr'', PyFloat lr)]"
    unfolding R_def .
next
  fix s1
  assume a: "data_loader \<noteq> [] \<and> all_reduce_meter c = (\<lambda>k m. m)
               \<and> train_batches c max_norm (s\<lparr>meters := fresh\<rparr>) data_loader = Inr s1"
  then have t: "train_batches c max_norm (s\<lparr>meters := fresh\<rparr>) data_loader = Inr s1"
    and ne: "data_loader \<noteq> []" and single: "all_reduce_meter c = (\<lambda>k m. m)" by simp_all
  have "counted {''lr'', ''class_error''} (meters (s\<lparr>meters := fresh\<rparr>))"
    by (auto simp: counted_def fresh_def split: if_splits)
  from train_batches_counted [OF t this ne]
  have c0: "counted {} (meters s1)" by simp
  have "\<forall>(k, m) \<in> set (meters s1). count m \<noteq> 0"
  proof -
    have d: "distinct (map fst (meters s1))"
      using train_batches_distinct [OF t] by (simp add: fresh_def)
    show ?thesis
      using c0 d by (auto simp: counted_def)
  qed
  from global_avgs_total [OF this] obtain avgs where g: "global_avgs (meters s1) = Inr avgs"
    by blast
  have sy: "synchronize_between_processes (all_reduce_meter c) (meters s1) = meters s1"
    by (simp add: synchronize_between_processes_def single case_prod_unfold)
  show "\<exists>stats. train_one_epoch c max_norm s data_loader = Inr (stats, s1)"
    using t g by (simp add: train_one_epoch_def fresh_logger Let_def sy fresh_def)
qed

section \<open>A two-batch epoch on one worker\<close>

lemma ex_loss_dict:
  "criterion single_worker (model single_worker p b) b = [(''loss_ce'', Fin (real b)), (''class_error'', Fin 0)]"
  by (simp add: single_worker_def)

lemma ex_scaled:
  "loss_dict_reduced_scaled [(''loss_ce'', Fin x), (''class_error'', Fin 0)] [''loss_ce'' \<mapsto> Fin 1]
     = [(''loss_ce'', Fin x)]"
  by (simp add: loss_dict_reduced_scaled_def dict_comp_def)

lemma ex_unscaled:
  "loss_dict_reduced_unscaled [(''loss_ce'', Fin x), (''class_error'', Fin 0)]
     = [(''loss_ce_unscaled'', Fin x), (''class_error_unscaled'', Fin 0)]"
  by (simp add: loss_dict_reduced_unscaled_def dict_comp_def)

lemma ex_losses:
  "losses [(''loss_ce'', Fin x), (''class_error'', Fin 0)] [''loss_ce'' \<mapsto> Fin 1] = Tensor (Fin x)"
  by (simp add: losses_def weighted_terms_def keys_def py_sum_def)

lemma ex_sum: "sum_values [(''loss_ce'', Fin x)] = Tensor (Fin x)"
  by (simp add: sum_values_def py_sum_def)

lemma ex_fields:
  "weight_dict single_worker = [''loss_ce'' \<mapsto> Fin 1]"
  "all_reduce single_worker = (\<lambda>k v. v)"
  "all_reduce_meter single_worker = (\<lambda>k m. m)"
  "backward single_worker p b = [3, 4]"
  "optimizer_step single_worker st p g = (st, map (\<lambda>(x, y). x - y / 10) (zip p g))"
  "param_groups_lr single_worker st = [Fin (1 / 10)]"
  by (simp_all add: single_worker_def)

lemma ex_batch:
  "train_batch single_worker mn s b =
     (case optimize single_worker mn (Tensor (Fin (real b))) s b of
        Inl e \<Rightarrow> Inl e
      | Inr s' \<Rightarrow>
          log_batch single_worker (Fin (real b)) [(''loss_ce'', Fin (real b))]
            [(''loss_ce_unscaled'', Fin (real b)), (''class_error_unscaled'', Fin 0)]
            [(''loss_ce'', Fin (real b)), (''class_error'', Fin 0)] s')"
proof -
  have "sum_values (loss_dict_reduced_scaled
             (reduce_dict (all_reduce single_worker)
               (criterion single_worker (model single_worker (params s) b) b))
             (weight_dict single_worker)) = Tensor (Fin (real b))"
    by (simp only: ex_loss_dict ex_fields reduce_dict_single ex_scaled ex_sum)
  from train_batch_Tensor [OF this, of mn] show ?thesis
    by (simp only: ex_loss_dict ex_fields reduce_dict_single ex_scaled ex_unscaled ex_losses
        isfinite.simps not_True_eq_False if_False)
qed

lemma ex_log:
  "log_batch single_worker v [(''loss_ce'', x)]
      [(''loss_ce_unscaled'', x), (''class_error_unscaled'', y)]
      [(''loss_ce'', x), (''class_error'', y)] s
   = Inr (s\<lparr>meters :=
        update (update (update (meters s)
          [(''loss'', PyFloat v), (''loss_ce'', Tensor x), (''loss_ce_unscaled'', Tensor x),
           (''class_error_unscaled'', Tensor y)])
          [(''class_error'', Tensor y)]) [(''lr'', PyFloat (Fin (1 / 10)))]\<rparr>)"
  by (simp add: log_batch_def keyword_call_def as_tensors_def ex_fields Let_def)

lemma ex_step1:
  "train_batch single_worker 0 start 1 = Inr after_first"
  by (simp add: ex_batch optimize_Tensor ex_fields ex_log start_def after_first_def
      update_def update_one_def meter_update_def SmoothedValue_def)

lemma ex_step2: "train_batch single_worker 0 after_first 3 = Inr after_second"
  by (simp add: ex_batch optimize_Tensor ex_fields ex_log after_first_def after_second_def
      update_def update_one_def meter_update_def SmoothedValue_def)

lemma ex_batches:
  "train_batches single_worker 0 start [1, 3] = Inr after_second"
  by (simp only: train_batches.simps ex_step1 ex_step2 sum.case)

lemma ex_avgs: "global_avgs (meters after_second) = Inr epoch_stats"
  by (simp add: after_second_def epoch_stats_def global_avg_def)

lemma ex_epoch: "train_one_epoch single_worker 0 start [1, 3] = Inr (epoch_stats, after_second)"
proof -
  have s: "synchronize_between_processes (all_reduce_meter single_worker) (meters after_second)
      = meters after_second"
    by (simp add: synchronize_between_processes_def ex_fields case_prod_unfold)
  have f: "start\<lparr>meters := [(''lr'', SmoothedValue), (''class_error'', SmoothedValue)]\<rparr> = start"
    by (simp add: start_def)
  have d: "dict_comp epoch_stats = epoch_stats"
    by (rule dict_comp_distinct) (simp add: epoch_stats_def)
  show ?thesis
    unfolding train_one_epoch_def Let_def fresh_logger f ex_batches
    by (simp add: s ex_avgs d Let_def)
qed

section \<open>The claims at the example run\<close>

lemma ex_criterion:
  "criterion single_worker outputs b = [(''loss_ce'', Fin (real b)), (''class_error'', Fin 0)]"
  "criterion unweighted outputs b = [(''loss_ce'', Fin (real b)), (''class_error'', Fin 0)]"
  by (simp_all add: unweighted_def single_worker_def)

lemma ex_two_workers_total:
  "sum_values (loss_dict_reduced_scaled
       (reduce_dict (all_reduce two_workers) (criterion two_workers (model two_workers (params start) 1) 1))
       (weight_dict two_workers)) = Tensor NaN"
  by (simp add: two_workers_def single_worker_def reduce_dict_def loss_dict_reduced_scaled_def
      dict_comp_def sum_values_def py_sum_def)

lemma ex_single_total:
  "sum_values (loss_dict_reduced_scaled
       (reduce_dict (all_reduce single_worker) (criterion single_worker (model single_worker (params start) 1) 1))
       (weight_dict single_worker)) = Tensor (Fin 1)"
  by (simp only: ex_loss_dict ex_fields reduce_dict_single ex_scaled ex_sum of_nat_1)

theorem nonfinite_reduced_loss_exits_witness:
  "train_batch two_workers 0 start 1 =
       Inl (SystemExit 1,
            start\<lparr>calls := calls start @ [Print_loss_is NaN,
               Print_loss_dict (reduce_dict (all_reduce two_workers)
                 (criterion two_workers (model two_workers (params start) 1) 1))]\<rparr>)
   \<and> (\<forall>n s'. train_batch single_worker 0 start 1 \<noteq> Inl (SystemExit n, s'))
   \<and> sum_values (loss_dict_reduced_scaled
         (reduce_dict (all_reduce single_worker)
           (criterion single_worker (model single_worker (params start) 1) 1))
         (weight_dict single_worker))
       = losses (criterion single_worker (model single_worker (params start) 1) 1)
           (weight_dict single_worker)"
proof -
  note two = nonfinite_reduced_loss_exits [where c = two_workers and s = start and b = 1
      and max_norm = 0]
  note one = nonfinite_reduced_loss_exits [where c = single_worker and s = start and b = 1
      and max_norm = 0]
  have h2: "sum_values (loss_dict_reduced_scaled
       (reduce_dict (all_reduce two_workers) (criterion two_workers (model two_workers (params start) 1) 1))
       (weight_dict two_workers)) = Tensor NaN \<and> \<not> isfinite NaN"
    using ex_two_workers_total by simp
  have h1: "sum_values (loss_dict_reduced_scaled
       (reduce_dict (all_reduce single_worker) (criterion single_worker (model single_worker (params start) 1) 1))
       (weight_dict single_worker)) = Tensor (Fin 1) \<and> isfinite (Fin 1)"
    using ex_single_total by simp
  have d: "all_reduce single_worker = (\<lambda>k v. v)
      \<and> distinct (keys (criterion single_worker (model single_worker (params start) 1) 1))"
    by (simp add: ex_fields ex_criterion keys_def)
  note a = two [THEN conjunct1, THEN spec, THEN mp, OF h2]
  note b = one [THEN conjunct2, THEN conjunct1, THEN spec, THEN mp, OF h1]
  note c = one [THEN conjunct2, THEN conjunct2, THEN conjunct2, THEN mp, OF d]
  show ?thesis using a b c by (intro conjI)
qed

theorem empty_intersection_fails_witness:
  "distinct (keys (criterion single_worker (model single_worker (params start) 1) 1))
   \<and> (\<exists>t. losses (criterion single_worker (model single_worker (params start) 1) 1)
             (weight_dict single_worker) = Tensor t)
   \<and> (\<forall>s'. train_batch single_worker 0 start 1 \<noteq> Inl (AttributeError, s'))
   \<and> losses (criterion unweighted (model unweighted (params start) 1) 1) (weight_dict unweighted)
       = PyInt 0
   \<and> train_batches unweighted 0 start [1, 3] = Inl (AttributeError, start)"
proof -
  have d1: "distinct (keys (criterion single_worker (model single_worker (params start) 1) 1))"
    by (simp add: ex_criterion keys_def)
  have d2: "distinct (keys (criterion unweighted (model unweighted (params start) 1) 1))"
    by (simp add: ex_criterion keys_def)
  note one = empty_intersection_fails [where c = single_worker and s = start and b = 1
      and max_norm = 0, OF d1]
  note none = empty_intersection_fails [where c = unweighted and s = start and b = 1
      and max_norm = 0 and data_loader = "[3]", OF d2]
  have ne: "set (keys (criterion single_worker (model single_worker (params start) 1) 1))
      \<inter> dom (weight_dict single_worker) \<noteq> {}"
    by (simp add: ex_criterion ex_fields keys_def)
  have e: "set (keys (criterion unweighted (model unweighted (params start) 1) 1))
      \<inter> dom (weight_dict unweighted) = {}"
    by (simp add: unweighted_def)
  note a = one [THEN conjunct1, THEN mp, OF ne]
  note b = none [THEN conjunct2, THEN mp, OF e]
  show ?thesis
    using d1 a b by simp
qed

lemma ex_step1_clip: "\<exists>s'. train_batch single_worker 1 start 1 = Inr s'"
  by (simp add: ex_batch optimize_Tensor ex_log)

theorem clip_iff_max_norm_positive_witness:
  "(\<exists>s'. train_batch single_worker 1 start 1 = Inr s'
        \<and> calls s' = [Zero_grad, Backward, Clip_grad_norm 1, Optimizer_step]
        \<and> grads s' = clip_grad_norm [3, 4] 1
        \<and> l2_norm (grads s') \<le> 1)
   \<and> calls after_first = [Zero_grad, Backward, Optimizer_step]
   \<and> clips_as_required 0 (calls after_second)"
proof -
  obtain s' where s': "train_batch single_worker 1 start 1 = Inr s'"
    using ex_step1_clip by blast
  note one = clip_iff_max_norm_positive [where c = single_worker and s = start and b = 1
      and max_norm = 1 and data_loader = "[1, 3]"]
  note zero = clip_iff_max_norm_positive [where c = single_worker and s = start and b = 1
      and max_norm = 0 and data_loader = "[1, 3]"]
  note p = one [THEN conjunct1, THEN spec, THEN mp, OF s']
  have pos: "(0::real) < 1" by simp
  have a1: "calls s' = [Zero_grad, Backward, Clip_grad_norm 1, Optimizer_step]"
    using p [THEN conjunct1] by (simp add: start_def)
  have a2: "grads s' = clip_grad_norm [3, 4] 1"
    using p [THEN conjunct2, THEN conjunct1] by (simp add: ex_fields)
  have a3: "l2_norm (grads s') \<le> 1"
    using p [THEN conjunct2, THEN conjunct2, THEN mp, OF pos] .
  note q = zero [THEN conjunct1, THEN spec, THEN mp, OF ex_step1]
  have b: "calls after_first = [Zero_grad, Backward, Optimizer_step]"
    using q [THEN conjunct1] by (simp add: start_def)
  obtain new where n1: "calls (state_of (train_batches single_worker 0 start [1, 3])) = calls start @ new"
    and n: "clips_as_required 0 new"
    using zero [THEN conjunct2] by blast
  have "calls (state_of (train_batches single_worker 0 start [1, 3])) = calls after_second"
    by (simp only: ex_batches state_of_def sum.case)
  then have "new = calls after_second"
    using n1 by (simp add: start_def)
  then have c: "clips_as_required 0 (calls after_second)" using n by simp
  show ?thesis using s' a1 a2 a3 b c by blast
qed

theorem epoch_returns_global_averages_witness:
  "train_one_epoch single_worker 0 start [1, 3] = Inr (epoch_stats, after_second)
   \<and> keys epoch_stats = keys (meters after_second)
   \<and> map_of epoch_stats ''loss'' = Some (Fin 2)
   \<and> param_groups_lr single_worker (optimizer after_first) = [Fin (1 / 10)]
   \<and> map_of (meters after_first) ''loss'' = Some \<lparr>total = Fin 1, count = 1\<rparr>
   \<and> (\<exists>stats. train_one_epoch single_worker 0 start [1, 3] = Inr (stats, after_second))"
proof -
  note t = epoch_returns_global_averages [where c = single_worker and s = start and b = 1
      and max_norm = 0 and data_loader = "[1, 3]"]
  have f: "start\<lparr>meters := [(''lr'', SmoothedValue), (''class_error'', SmoothedValue)]\<rparr> = start"
    by (simp add: start_def)
  have m: "map_of (meters after_second) ''loss'' = Some \<lparr>total = Fin 4, count = 2\<rparr>"
    by (simp add: after_second_def)
  note e = t [THEN conjunct1, THEN spec, THEN spec, THEN mp, OF ex_epoch]
  note k = e [THEN conjunct2, THEN conjunct1]
  note v = e [THEN conjunct2, THEN conjunct2, THEN spec, THEN spec, THEN mp, OF m]
  have l: "map_of epoch_stats ''loss'' = Some (Fin 2)"
    using v by simp
  from t [THEN conjunct2, THEN conjunct1, THEN spec, THEN mp, OF ex_step1]
  obtain loss_value class_error lr rest where
    lr: "param_groups_lr single_worker (optimizer after_first) = lr # rest" and
    lv: "item (sum_values (loss_dict_reduced_scaled
           (reduce_dict (all_reduce single_worker)
             (criterion single_worker (model single_worker (params start) 1) 1))
           (weight_dict single_worker))) = Inr loss_value"
    by blast
  have b1: "param_groups_lr single_worker (optimizer after_first) = [Fin (1 / 10)]"
    by (simp add: ex_fields)
  have b2: "map_of (meters after_first) ''loss'' = Some \<lparr>total = Fin 1, count = 1\<rparr>"
    by (simp add: after_first_def)
  have h: "[1, 3::nat] \<noteq> [] \<and> all_reduce_meter single_worker = (\<lambda>k m. m)
      \<and> train_batches single_worker 0
           (start\<lparr>meters := [(''lr'', SmoothedValue), (''class_error'', SmoothedValue)]\<rparr>) [1, 3]
          = Inr after_second"
    by (simp only: f ex_batches ex_fields) simp
  note r = t [THEN conjunct2, THEN conjunct2, THEN spec, THEN mp, OF h]
  show ?thesis using ex_epoch k l b1 b2 r by (intro conjI)
qed

section \<open>The panoptic file name\<close>

lemma digit_table:
  "\<forall>d \<in> set [0..<10]. digit_value (''0123456789'' ! d) = d \<and> is_digit (''0123456789'' ! d)"
  by (simp add: upt_rec digit_value_def is_digit_def)

lemma digit_ok:
  assumes "d < 10"
  shows "digit_value (''0123456789'' ! d) = d" and "is_digit (''0123456789'' ! d)"
  using digit_table assms by simp_all

lemma length_decimal: "n < 10 ^ k \<Longrightarrow> 0 < k \<Longrightarrow> length (decimal n) \<le> k"
proof (induction n arbitrary: k rule: decimal.induct)
  case (1 n)
  show ?case
  proof (cases "n < 10")
    case True
    then show ?thesis using "1.prems" by (simp add: decimal.simps [of n])
  next
    case False
    obtain j where k: "k = Suc j" using "1.prems"(2) by (cases k) auto
    have j: "0 < j" using False "1.prems"(1) k by (cases j) auto
    have "n div 10 < 10 ^ j" using "1.prems"(1) k by (simp add: less_mult_imp_div_less)
    from "1.IH" [OF False this j] show ?thesis
      using False k by (simp add: decimal.simps [of n])
  qed
qed

lemma digits_decimal: "list_all is_digit (decimal n)"
proof (induction n rule: decimal.induct)
  case (1 n)
  show ?case
  proof (cases "n < 10")
    case True
    then show ?thesis using digit_ok(2) [of n] by (simp add: decimal.simps [of n])
  next
    case False
    have "n mod 10 < 10" by simp
    from digit_ok(2) [OF this] "1.IH" [OF False] show ?thesis
      using False by (simp add: decimal.simps [of n])
  qed
qed

lemma read_decimal_snoc: "read_decimal (ds @ [ch]) = 10 * read_decimal ds + digit_value ch"
  by (simp add: read_decimal_def)

lemma read_decimal_decimal: "read_decimal (decimal n) = n"
proof (induction n rule: decimal.induct)
  case (1 n)
  show ?case
  proof (cases "n < 10")
    case True
    then show ?thesis
      using digit_ok(1) [of n] by (simp add: decimal.simps [of n] read_decimal_def)
  next
    case False
    have "n mod 10 < 10" by simp
    from digit_ok(1) [OF this] "1.IH" [OF False] show ?thesis
      using False by (simp add: decimal.simps [of n] read_decimal_snoc)
  qed
qed

lemma read_decimal_zeros: "read_decimal (replicate k CHR ''0'' @ ds) = read_decimal ds"
proof -
  have "foldl (\<lambda>a ch. 10 * a + digit_value ch) 0 (replicate k CHR ''0'') = 0"
    by (induction k) (simp_all add: digit_value_def)
  then show ?thesis by (simp add: read_decimal_def)
qed

lemma decimal_nonempty: "decimal n \<noteq> []"
  by (simp add: decimal.simps [of n])

text \<open>
  Claim C7, as the code has it. For an image id from 0 up to, but not including,
  \<^verbatim>\<open>10**12\<close> the file name attached in the panoptic branch of \<^verbatim>\<open>evaluate\<close> is the
  decimal id padded with zeros on the left to exactly 12 digits, followed by
  \<^verbatim>\<open>.png\<close>: the 12 characters are digits and read back as the id. Image id 17 gives
  \<^verbatim>\<open>000000000017.png\<close>.
\<close>

theorem file_name_twelve_digits:
  assumes "0 \<le> n" and "n < 10 ^ 12"
  shows "file_name n = format_012d n @ ''.png''
       \<and> format_012d n = replicate (12 - length (decimal (nat n))) CHR ''0'' @ decimal (nat n)
       \<and> length (format_012d n) = 12
       \<and> list_all is_digit (format_012d n)
       \<and> read_decimal (format_012d n) = nat n
       \<and> file_name 17 = ''000000000017.png''"
proof -
  have "nat n < 10 ^ 12" using assms by (simp add: nat_less_iff)
  then have len: "length (decimal (nat n)) \<le> 12" by (rule length_decimal) simp
  have f: "format_012d n = replicate (12 - length (decimal (nat n))) CHR ''0'' @ decimal (nat n)"
    using assms(1) by (simp add: format_012d_def Let_def)
  have l: "length (format_012d n) = 12" using len by (simp add: f)
  have z: "is_digit CHR ''0''" by (simp add: is_digit_def)
  have d: "list_all is_digit (format_012d n)"
    unfolding f using digits_decimal [of "nat n"] z by (auto simp: list_all_iff)
  have r: "read_decimal (format_012d n) = nat n"
    by (simp only: f read_decimal_zeros read_decimal_decimal)
  have e: "file_name 17 = ''000000000017.png''"
    by code_simp
  show ?thesis using f l d r e by (simp add: file_name_def)
qed

theorem file_name_twelve_digits_witness:
  "(0::int) \<le> 42 \<and> (42::int) < 10 ^ 12 \<and> file_name 42 = ''000000000042.png''
   \<and> length (format_012d 42) = 12 \<and> read_decimal (format_012d 42) = 42"
proof -
  have a: "(0::int) \<le> 42" and b: "(42::int) < 10 ^ 12" by simp_all
  note t = file_name_twelve_digits [OF a b]
  have fmt: "format_012d 42 = ''000000000042''"
    by code_simp
  have n: "file_name 42 = ''000000000042.png''"
    using t [THEN conjunct1] by (simp only: fmt append.simps)
  have l: "length (format_012d 42) = 12"
    using t [THEN conjunct2, THEN conjunct2, THEN conjunct1] .
  have r: "read_decimal (format_012d 42) = 42"
    using t [THEN conjunct2, THEN conjunct2, THEN conjunct2, THEN conjunct2, THEN conjunct1]
    by simp
  show ?thesis using a b n l r by (intro conjI)
qed

lemma d13: "decimal 1000000000000 = ''1000000000000''"
  by (simp add: decimal.simps)

text \<open>
  Claim C7 as stated, for every image id, fails: the width 12 of the format is a
  minimum, and the id \<^verbatim>\<open>10**12\<close> is written with its 13 digits.
\<close>

theorem file_name_thirteen_digits_counterexample:
  "file_name 1000000000000 = ''1000000000000.png'' \<and> length (format_012d 1000000000000) = 13"
  by (simp add: file_name_def format_012d_def d13)

section \<open>The evaluation driver: accumulators and stats\<close>

lemma keys_foldl_update:
  "fst ` set (foldl (\<lambda>d (k, v). AList.update k v d) d kvs) = fst ` set d \<union> fst ` set kvs"
proof (induction kvs arbitrary: d)
  case Nil
  show ?case by simp
next
  case (Cons kv kvs)
  obtain k v where kv: "kv = (k, v)" by (cases kv)
  have "fst ` set (foldl (\<lambda>d (k, v). AList.update k v d) d (kv # kvs))
      = fst ` set (AList.update k v d) \<union> fst ` set kvs"
    using Cons.IH [of "AList.update k v d"] by (simp add: kv)
  also have "\<dots> = ({k} \<union> fst ` set d) \<union> fst ` set kvs"
    by (simp only: dom_update)
  finally show ?case by (simp add: kv)
qed

lemma keys_dict_comp: "fst ` set (dict_comp kvs) = fst ` set kvs"
  by (simp add: dict_comp_def keys_foldl_update)

lemma keys_update_meters: "fst ` set (update ms kwargs) = fst ` set ms \<union> fst ` set kwargs"
  unfolding update_def
proof (induction kwargs arbitrary: ms)
  case Nil
  show ?case by simp
next
  case (Cons kv kwargs)
  obtain k v where kv: "kv = (k, v)" by (cases kv)
  have "fst ` set (update_one ms kv) = {k} \<union> fst ` set ms"
    by (simp add: update_one_def kv dom_update)
  then show ?case using Cons.IH [of "update_one ms kv"] kv by auto
qed

lemma keys_map_filter:
  "fst ` set (map (\<lambda>(k, v). (k, g k v)) (filter (\<lambda>(k, v). P k) R)) = {k \<in> fst ` set R. P k}"
  by (induction R) auto

lemma keys_scaled_subset:
  "fst ` set (loss_dict_reduced_scaled R W) = fst ` set R \<inter> dom W"
proof -
  have "fst ` set (loss_dict_reduced_scaled R W) = {k \<in> fst ` set R. W k \<noteq> None}"
    unfolding loss_dict_reduced_scaled_def keys_dict_comp
    by (rule keys_map_filter [of "\<lambda>k v. fmul v (the (W k))" "\<lambda>k. W k \<noteq> None"])
  then show ?thesis by (auto simp: dom_def)
qed

lemma keys_unscaled_set:
  "fst ` set (loss_dict_reduced_unscaled R) = (\<lambda>k. k @ ''_unscaled'') ` fst ` set R"
proof -
  have "fst ` set (map (\<lambda>(k, v). (k @ ''_unscaled'', v)) R) = (\<lambda>k. k @ ''_unscaled'') ` fst ` set R"
    by (induction R) auto
  then show ?thesis
    by (simp only: loss_dict_reduced_unscaled_def keys_dict_comp)
qed

lemma keys_as_tensors: "fst ` set (as_tensors d) = fst ` set d"
  unfolding as_tensors_def by (induction d) auto

lemma keys_reduce_set: "fst ` set (reduce_dict r L) = fst ` set L"
  using keys_reduce_dict [of r L] by (metis keys_def set_map)

lemma postprocess_no_panoptic:
  assumes "panoptic_evaluator s = None"
  shows "panoptic_evaluator (state_of (postprocess pp outputs targets s)) = None
       \<and> eval_meters (state_of (postprocess pp outputs targets s)) = eval_meters s"
  using assms by (simp add: postprocess_def state_of_def Let_def split: option.splits)

lemma postprocess_meters:
  "postprocess pp outputs targets s = Inr s' \<Longrightarrow> eval_meters s' = eval_meters s"
  by (auto simp: postprocess_def Let_def split: option.splits sum.splits)

lemma postprocess_no_panoptic_Inl:
  "panoptic_evaluator s = None \<Longrightarrow> postprocess pp outputs targets s = Inl (e, s') \<Longrightarrow>
     panoptic_evaluator s' = None"
  using postprocess_no_panoptic [of s pp outputs targets] by (simp add: state_of_def)

lemma postprocess_no_panoptic_Inr:
  "panoptic_evaluator s = None \<Longrightarrow> postprocess pp outputs targets s = Inr s' \<Longrightarrow>
     panoptic_evaluator s' = None"
  using postprocess_no_panoptic [of s pp outputs targets] by (simp add: state_of_def)

lemma eval_batch_no_panoptic:
  assumes "panoptic_evaluator s = None"
  shows "panoptic_evaluator (state_of (eval_batch c p acc pp s b)) = None"
  unfolding eval_batch_def Let_def
  by (auto simp: assms state_of_def split: sum.splits option.splits
      dest!: postprocess_no_panoptic_Inl [rotated] postprocess_no_panoptic_Inr [rotated])

lemma eval_batch_keys:
  assumes "eval_batch c p acc pp s b = Inr s'"
  shows "fst ` set (eval_meters s') =
           fst ` set (eval_meters s) \<union> {''loss'', ''class_error''}
           \<union> (fst ` set (criterion c (model c p b) b) \<inter> dom (weight_dict c))
           \<union> (\<lambda>k. k @ ''_unscaled'') ` fst ` set (criterion c (model c p b) b)"
proof -
  let ?R = "reduce_dict (all_reduce c) (criterion c (model c p b) b)"
  let ?scaled = "loss_dict_reduced_scaled ?R (weight_dict c)"
  let ?unscaled = "loss_dict_reduced_unscaled ?R"
  let ?kw = "(''loss'', sum_values ?scaled) # as_tensors ?scaled @ as_tensors ?unscaled"
  from assms obtain ce s2 where
    s2: "s2 = s\<lparr>eval_meters := update (update (eval_meters s) ?kw) [(''class_error'', Tensor ce)]\<rparr>"
    and pp: "postprocess pp (model c p b) (targets_of acc b) s2 = Inr s'"
    by (auto simp: eval_batch_def Let_def keyword_call_def split: if_splits option.splits)
  have m: "eval_meters s' = eval_meters s2" using postprocess_meters [OF pp] .
  have "fst ` set (eval_meters s2) =
      (fst ` set (eval_meters s) \<union> ({''loss''} \<union> (fst ` set (as_tensors ?scaled)
         \<union> fst ` set (as_tensors ?unscaled)))) \<union> {''class_error''}"
    by (simp add: s2 keys_update_meters image_Un)
  then show ?thesis
    unfolding m
    by (simp only: keys_as_tensors keys_scaled_subset keys_unscaled_set keys_reduce_set) blast
qed

lemma unscaled_not_added: "k @ ''_unscaled'' \<notin> added_keys"
proof
  assume "k @ ''_unscaled'' \<in> added_keys"
  then have "last (k @ ''_unscaled'') \<in> last ` added_keys" by (rule imageI)
  then show False by (simp add: added_keys_def)
qed

lemma eval_batches_no_panoptic:
  "panoptic_evaluator s = None \<Longrightarrow>
     panoptic_evaluator (state_of (eval_batches c p acc pp s bs)) = None"
proof (induction bs arbitrary: s)
  case Nil
  then show ?case by (simp add: state_of_def)
next
  case (Cons b bs)
  note n = eval_batch_no_panoptic [OF Cons.prems, of c p acc pp b]
  show ?case
  proof (cases "eval_batch c p acc pp s b")
    case (Inl es)
    then show ?thesis using n by (simp add: state_of_def)
  next
    case (Inr s1)
    then have "panoptic_evaluator s1 = None" using n by (simp add: state_of_def)
    from Cons.IH [OF this] show ?thesis using Inr by simp
  qed
qed

lemma eval_batches_keys:
  "eval_batches c p acc pp s bs = Inr s' \<Longrightarrow>
     fst ` set (eval_meters s') \<subseteq>
       fst ` set (eval_meters s) \<union> {''loss'', ''class_error''}
       \<union> (\<Union>b \<in> set bs. (fst ` set (criterion c (model c p b) b) \<inter> dom (weight_dict c))
              \<union> (\<lambda>k. k @ ''_unscaled'') ` fst ` set (criterion c (model c p b) b))"
proof (induction bs arbitrary: s)
  case Nil
  then show ?case by auto
next
  case (Cons b bs)
  from Cons.prems obtain s1 where
    b: "eval_batch c p acc pp s b = Inr s1" and r: "eval_batches c p acc pp s1 bs = Inr s'"
    by (auto split: sum.splits)
  note k1 = eval_batch_keys [OF b]
  note k2 = Cons.IH [OF r]
  show ?case
    using k2 unfolding k1 by auto
qed

lemma make_stats_bbox_only:
  assumes "bbox pp \<noteq> None" and "segm pp = None"
  shows "fst ` set (make_stats acc pp avgs coco None) = fst ` set avgs \<union> {''coco_eval_bbox''}"
proof -
  have m: "fst ` set (map (\<lambda>(k, a). (k, Global_avg a)) avgs) = fst ` set avgs"
    by (induction avgs) auto
  obtain f where f: "bbox pp = Some f" using assms(1) by blast
  have "make_stats acc pp avgs coco None =
      AList.update ''coco_eval_bbox'' (Coco_stats (coco_stats acc ''bbox'' coco))
        (dict_comp (map (\<lambda>(k, a). (k, Global_avg a)) avgs))"
    by (simp add: make_stats_def Let_def f assms(2))
  then show ?thesis
    by (simp only: dom_update keys_dict_comp m) blast
qed

lemma evaluate_bbox_only_Inr:
  assumes "bbox pp \<noteq> None" and "segm pp = None" and "panoptic pp = None"
    and "evaluate c p acc pp data_loader = Inr ((stats, coco), s')"
  shows "fst ` set stats = fst ` set (eval_meters s') \<union> {''coco_eval_bbox''}
       \<and> fst ` set (eval_meters s') \<subseteq> {''class_error'', ''loss''}
           \<union> (\<Union>b \<in> set data_loader.
                 (fst ` set (criterion c (model c p b) b) \<inter> dom (weight_dict c))
                 \<union> (\<lambda>k. k @ ''_unscaled'') ` fst ` set (criterion c (model c p b) b))"
proof -
  let ?s0 = "\<lparr>eval_meters = [(''class_error'', SmoothedValue)],
              coco_evaluator = \<lparr>iou_types = [''bbox''], coco_fed = []\<rparr>,
              panoptic_evaluator = None\<rparr>"
  from assms obtain s1 avgs where
    t: "eval_batches c p acc pp ?s0 data_loader = Inr s1"
    and s': "s' = s1\<lparr>eval_meters := synchronize_between_processes (all_reduce_meter c) (eval_meters s1)\<rparr>"
    and g: "global_avgs (eval_meters s') = Inr avgs"
    and st: "stats = make_stats acc pp avgs (coco_evaluator s')
                (case panoptic_evaluator s' of None \<Rightarrow> None | Some fed \<Rightarrow> panoptic_summarize acc fed)"
    by (auto simp: evaluate_def add_meter_def Let_def split: sum.splits)
  have "panoptic_evaluator (state_of (eval_batches c p acc pp ?s0 data_loader)) = None"
    by (rule eval_batches_no_panoptic) simp
  then have pn: "panoptic_evaluator s' = None" using t s' by (simp add: state_of_def)
  have ka: "fst ` set avgs = fst ` set (eval_meters s')"
    using global_avgs_Inr [OF g] by (force simp: image_iff)
  have k1: "fst ` set stats = fst ` set (eval_meters s') \<union> {''coco_eval_bbox''}"
    using make_stats_bbox_only [OF assms(1,2), of acc avgs "coco_evaluator s'"]
    by (simp add: st pn ka)
  have "fst ` set (eval_meters s') = fst ` set (eval_meters s1)"
    using keys_synchronize [of "all_reduce_meter c" "eval_meters s1"]
    by (metis s' eval_state.select_convs(1) eval_state.update_convs(1) eval_state.surjective set_map)
  then have k2: "fst ` set (eval_meters s') \<subseteq> {''class_error'', ''loss''}
           \<union> (\<Union>b \<in> set data_loader.
                 (fst ` set (criterion c (model c p b) b) \<inter> dom (weight_dict c))
                 \<union> (\<lambda>k. k @ ''_unscaled'') ` fst ` set (criterion c (model c p b) b))"
    using eval_batches_keys [OF t] by auto
  show ?thesis using k1 k2 by blast
qed

lemma postprocess_unbound:
  assumes "bbox pp \<noteq> None" and "segm pp = None" and "panoptic pp \<noteq> None"
    and "panoptic_evaluator s = Some fed"
  shows "\<exists>s'. postprocess pp outputs targets s = Inl (UnboundLocalError, s')
            \<and> panoptic_evaluator s' = Some fed \<and> eval_meters s' = eval_meters s"
  using assms by (auto simp: postprocess_def Let_def)

lemma eval_batch_unbound:
  assumes "bbox pp \<noteq> None" and "segm pp = None" and "panoptic pp \<noteq> None"
    and "panoptic_evaluator s = Some fed"
  shows "\<exists>e s'. eval_batch c p acc pp s b = Inl (e, s')
            \<and> e \<in> {TypeError, KeyError, UnboundLocalError} \<and> panoptic_evaluator s' = Some fed"
proof -
  let ?R = "reduce_dict (all_reduce c) (criterion c (model c p b) b)"
  let ?scaled = "loss_dict_reduced_scaled ?R (weight_dict c)"
  let ?kw = "(''loss'', sum_values ?scaled) # as_tensors ?scaled
               @ as_tensors (loss_dict_reduced_unscaled ?R)"
  show ?thesis
  proof (cases "distinct (map fst ?kw)")
    case False
    then have kc: "keyword_call ?kw = Inl TypeError"
      by (simp only: keyword_call_def if_False)
    have "eval_batch c p acc pp s b = Inl (TypeError, s)"
      by (simp only: eval_batch_def Let_def kc sum.case)
    then show ?thesis
      using assms(4) by simp
  next
    case True
    then have kc: "keyword_call ?kw = Inr ?kw"
      by (simp only: keyword_call_def if_True)
    show ?thesis
    proof (cases "map_of ?R ''class_error''")
      case None
      have "eval_batch c p acc pp s b = Inl (KeyError, s\<lparr>eval_meters := update (eval_meters s) ?kw\<rparr>)"
        by (simp only: eval_batch_def Let_def kc sum.case None option.case)
      then show ?thesis
        using assms(4) by simp
    next
      case (Some ce)
      let ?s2 = "s\<lparr>eval_meters := update (update (eval_meters s) ?kw) [(''class_error'', Tensor ce)]\<rparr>"
      have "panoptic_evaluator ?s2 = Some fed" using assms(4) by simp
      from postprocess_unbound [OF assms(1-3) this, of "model c p b" "targets_of acc b"]
      obtain s' where pp: "postprocess pp (model c p b) (targets_of acc b) ?s2 = Inl (UnboundLocalError, s')"
        and pe: "panoptic_evaluator s' = Some fed" by blast
      have "eval_batch c p acc pp s b = postprocess pp (model c p b) (targets_of acc b) ?s2"
        by (simp only: eval_batch_def Let_def kc sum.case Some option.case) simp
      then show ?thesis
        using pp pe by simp
    qed
  qed
qed

lemma ex_eval_batch_pq:
  "eval_batch pq_named p example_acc pp s b =
     postprocess pp () (example_targets b)
       (s\<lparr>eval_meters := update (update (eval_meters s)
           [(''loss'', Tensor (Fin 1)), (''PQ_all'', Tensor (Fin 1)),
            (''PQ_all_unscaled'', Tensor (Fin 1)), (''class_error_unscaled'', Tensor (Fin 0))])
           [(''class_error'', Tensor (Fin 0))]\<rparr>)"
  by (simp add: eval_batch_def Let_def pq_named_def single_worker_def example_acc_def
      reduce_dict_def loss_dict_reduced_scaled_def loss_dict_reduced_unscaled_def dict_comp_def
      sum_values_def py_sum_def keyword_call_def as_tensors_def)

lemma ex_eval_batch_single:
  "eval_batch single_worker p example_acc pp s b =
     postprocess pp () (example_targets b)
       (s\<lparr>eval_meters := update (update (eval_meters s)
           [(''loss'', Tensor (Fin (real b))), (''loss_ce'', Tensor (Fin (real b))),
            (''loss_ce_unscaled'', Tensor (Fin (real b))), (''class_error_unscaled'', Tensor (Fin 0))])
           [(''class_error'', Tensor (Fin 0))]\<rparr>)"
  by (simp add: eval_batch_def Let_def single_worker_def example_acc_def
      reduce_dict_def loss_dict_reduced_scaled_def loss_dict_reduced_unscaled_def dict_comp_def
      sum_values_def py_sum_def keyword_call_def as_tensors_def)

lemma ex_update_once:
  "update (update [(''class_error'', SmoothedValue)]
           [(''loss'', Tensor x), (name, Tensor x),
            (name @ ''_unscaled'', Tensor x), (''class_error_unscaled'', Tensor (Fin 0))])
           [(''class_error'', Tensor (Fin 0))] = logged_once (fadd (Fin 0) x) name"
  if "name \<noteq> ''class_error''" "name \<noteq> ''loss''" "name \<noteq> ''class_error_unscaled''"
     "name @ ''_unscaled'' \<noteq> ''class_error_unscaled''"
  using that
  by (simp add: update_def update_one_def meter_update_def SmoothedValue_def logged_once_def)

lemma ex_post_bbox_only:
  "panoptic_evaluator s = None \<Longrightarrow>
     postprocess bbox_only outputs (example_targets b) s =
       Inr (s\<lparr>coco_evaluator :=
              (coco_evaluator s)\<lparr>coco_fed := coco_fed (coco_evaluator s) @ [[(17, ())]]\<rparr>\<rparr>)"
  by (simp add: postprocess_def bbox_only_def example_targets_def dict_comp_def Let_def)

lemma ex_post_bbox_panoptic:
  "panoptic_evaluator s = Some fed \<Longrightarrow>
     postprocess bbox_panoptic outputs (example_targets b) s =
       Inl (UnboundLocalError,
            s\<lparr>coco_evaluator :=
              (coco_evaluator s)\<lparr>coco_fed := coco_fed (coco_evaluator s) @ [[(17, ())]]\<rparr>\<rparr>)"
  by (simp add: postprocess_def bbox_panoptic_def bbox_only_def example_targets_def dict_comp_def
      Let_def)

lemma ex_start_state:
  "bbox pp \<noteq> None \<Longrightarrow> segm pp = None \<Longrightarrow>
   evaluate c p acc pp data_loader =
     (case eval_batches c p acc pp
        \<lparr>eval_meters = [(''class_error'', SmoothedValue)],
         coco_evaluator = \<lparr>iou_types = [''bbox''], coco_fed = []\<rparr>,
         panoptic_evaluator = (if panoptic pp \<noteq> None then Some [] else None)\<rparr> data_loader of
        Inl e \<Rightarrow> Inl e
      | Inr s1 \<Rightarrow>
          (let s2 = s1\<lparr>eval_meters :=
                        synchronize_between_processes (all_reduce_meter c) (eval_meters s1)\<rparr>;
               panoptic_res = (case panoptic_evaluator s2 of
                                 None \<Rightarrow> None
                               | Some fed \<Rightarrow> panoptic_summarize acc fed)
           in case global_avgs (eval_meters s2) of
                Inl e \<Rightarrow> Inl (e, s2)
              | Inr avgs \<Rightarrow>
                  Inr ((make_stats acc pp avgs (coco_evaluator s2) panoptic_res,
                        coco_evaluator s2), s2)))"
  by (simp add: evaluate_def add_meter_def Let_def)

lemma ex_batches_pq:
  "eval_batches pq_named p example_acc bbox_only
     \<lparr>eval_meters = [(''class_error'', SmoothedValue)],
      coco_evaluator = \<lparr>iou_types = [''bbox''], coco_fed = []\<rparr>,
      panoptic_evaluator = None\<rparr> [b] = Inr (evaluated_once ''PQ_all'')"
proof -
  have u: "update (update [(''class_error'', SmoothedValue)]
           [(''loss'', Tensor (Fin 1)), (''PQ_all'', Tensor (Fin 1)),
            (''PQ_all_unscaled'', Tensor (Fin 1)), (''class_error_unscaled'', Tensor (Fin 0))])
           [(''class_error'', Tensor (Fin 0))] = logged_once (Fin 1) ''PQ_all''"
    using ex_update_once [of "''PQ_all''" "Fin 1"] by simp
  show ?thesis
    by (simp add: ex_eval_batch_pq u ex_post_bbox_only evaluated_once_def fed_once_def)
qed

lemma ex_batches_single:
  "eval_batches single_worker p example_acc bbox_only
     \<lparr>eval_meters = [(''class_error'', SmoothedValue)],
      coco_evaluator = \<lparr>iou_types = [''bbox''], coco_fed = []\<rparr>,
      panoptic_evaluator = None\<rparr> [1] = Inr (evaluated_once ''loss_ce'')"
proof -
  have u: "update (update [(''class_error'', SmoothedValue)]
           [(''loss'', Tensor (Fin 1)), (''loss_ce'', Tensor (Fin 1)),
            (''loss_ce_unscaled'', Tensor (Fin 1)), (''class_error_unscaled'', Tensor (Fin 0))])
           [(''class_error'', Tensor (Fin 0))] = logged_once (Fin 1) ''loss_ce''"
    using ex_update_once [of "''loss_ce''" "Fin 1"] by simp
  have "eval_batch single_worker p example_acc bbox_only
     \<lparr>eval_meters = [(''class_error'', SmoothedValue)],
      coco_evaluator = \<lparr>iou_types = [''bbox''], coco_fed = []\<rparr>,
      panoptic_evaluator = None\<rparr> 1 = Inr (evaluated_once ''loss_ce'')"
    by (simp only: ex_eval_batch_single)
       (simp add: u ex_post_bbox_only evaluated_once_def fed_once_def)
  then show ?thesis
    by (simp only: eval_batches.simps sum.case)
qed

lemma ex_batches_unbound:
  "eval_batches single_worker p example_acc bbox_panoptic
     \<lparr>eval_meters = [(''class_error'', SmoothedValue)],
      coco_evaluator = \<lparr>iou_types = [''bbox''], coco_fed = []\<rparr>,
      panoptic_evaluator = Some []\<rparr> [1]
   = Inl (UnboundLocalError, (evaluated_once ''loss_ce'')\<lparr>panoptic_evaluator := Some []\<rparr>)"
proof -
  have u: "update (update [(''class_error'', SmoothedValue)]
           [(''loss'', Tensor (Fin 1)), (''loss_ce'', Tensor (Fin 1)),
            (''loss_ce_unscaled'', Tensor (Fin 1)), (''class_error_unscaled'', Tensor (Fin 0))])
           [(''class_error'', Tensor (Fin 0))] = logged_once (Fin 1) ''loss_ce''"
    using ex_update_once [of "''loss_ce''" "Fin 1"] by simp
  have "eval_batch single_worker p example_acc bbox_panoptic
     \<lparr>eval_meters = [(''class_error'', SmoothedValue)],
      coco_evaluator = \<lparr>iou_types = [''bbox''], coco_fed = []\<rparr>,
      panoptic_evaluator = Some []\<rparr> 1
     = Inl (UnboundLocalError, (evaluated_once ''loss_ce'')\<lparr>panoptic_evaluator := Some []\<rparr>)"
    by (simp only: ex_eval_batch_single)
       (simp add: u ex_post_bbox_panoptic evaluated_once_def fed_once_def)
  then show ?thesis
    by (simp only: eval_batches.simps sum.case)
qed

lemma ex_pp_fields:
  "bbox bbox_only \<noteq> None" "segm bbox_only = None" "panoptic bbox_only = None"
  "bbox bbox_panoptic \<noteq> None" "segm bbox_panoptic = None" "panoptic bbox_panoptic \<noteq> None"
  by (simp_all add: bbox_only_def bbox_panoptic_def)

lemma no_panoptic:
  "(if panoptic bbox_only \<noteq> None then Some [] else None) = (None :: unit entry dict list list option)"
  by (simp add: bbox_only_def)

lemma ex_avgs_once:
  "global_avgs (logged_once (Fin 1) name) =
     Inr [(''class_error'', Fin 0), (''loss'', Fin 1), (name, Fin 1), (name @ ''_unscaled'', Fin 1),
          (''class_error_unscaled'', Fin 0)]"
  by (simp add: logged_once_def global_avg_def)

lemma ex_evaluate_pq:
  "evaluate pq_named p example_acc bbox_only [b] = Inr ((pq_stats, fed_once), evaluated_once ''PQ_all'')"
proof -
  have sy: "synchronize_between_processes (all_reduce_meter pq_named) ms = ms" for ms
    by (simp add: synchronize_between_processes_def pq_named_def single_worker_def case_prod_unfold)
  have st: "make_stats example_acc bbox_only
      [(''class_error'', Fin 0), (''loss'', Fin 1), (''PQ_all'', Fin 1), (''PQ_all_unscaled'', Fin 1),
       (''class_error_unscaled'', Fin 0)] fed_once None = pq_stats"
    by (simp add: make_stats_def bbox_only_def dict_comp_def example_acc_def pq_stats_def Let_def)
  show ?thesis
    unfolding ex_start_state [OF ex_pp_fields(1,2)] no_panoptic ex_batches_pq
    by (simp add: Let_def sy evaluated_once_def ex_avgs_once st)
qed

lemma ex_evaluate_single:
  "evaluate single_worker p example_acc bbox_only [1] =
     Inr ((single_stats, fed_once), evaluated_once ''loss_ce'')"
proof -
  have sy: "synchronize_between_processes (all_reduce_meter single_worker) ms = ms" for ms
    by (simp add: synchronize_between_processes_def single_worker_def case_prod_unfold)
  have st: "make_stats example_acc bbox_only
      [(''class_error'', Fin 0), (''loss'', Fin 1), (''loss_ce'', Fin 1), (''loss_ce_unscaled'', Fin 1),
       (''class_error_unscaled'', Fin 0)] fed_once None = single_stats"
    by (simp add: make_stats_def bbox_only_def dict_comp_def example_acc_def single_stats_def Let_def)
  show ?thesis
    unfolding ex_start_state [OF ex_pp_fields(1,2)] no_panoptic ex_batches_single
    by (simp add: Let_def sy evaluated_once_def ex_avgs_once st)
qed

lemma ex_evaluate_unbound:
  "evaluate single_worker p example_acc bbox_panoptic [1] =
     Inl (UnboundLocalError, (evaluated_once ''loss_ce'')\<lparr>panoptic_evaluator := Some []\<rparr>)"
  unfolding ex_start_state [OF ex_pp_fields(4,5)]
  by (simp only: ex_pp_fields not_False_eq_True if_True ex_batches_unbound sum.case)

section \<open>Postprocessors and the returned stats\<close>

text \<open>
  Claim C4, at the input where the code departs from it. With a \<^verbatim>\<open>'bbox'\<close> and a
  \<^verbatim>\<open>'panoptic'\<close> postprocessor and no \<^verbatim>\<open>'segm'\<close> one, the panoptic branch of
  \<^verbatim>\<open>evaluate\<close> raises \<^verbatim>\<open>UnboundLocalError\<close> on \<^verbatim>\<open>target_sizes\<close> before the panoptic
  postprocessor runs: on any non-empty loader \<^verbatim>\<open>evaluate\<close> fails on the first batch
  (there, or before in the logging), and the panoptic accumulator has been fed
  nothing.
\<close>

theorem panoptic_without_segm_raises:
  fixes pp :: "('o, 'r, 'q) postprocessors"
  assumes "bbox pp \<noteq> None" and "segm pp = None" and "panoptic pp \<noteq> None"
  shows "(\<forall>s fed. panoptic_evaluator s = Some fed \<longrightarrow>
            (\<exists>s'. postprocess pp outputs targets s = Inl (UnboundLocalError, s')
                  \<and> panoptic_evaluator s' = Some fed))
       \<and> (\<exists>e s'. evaluate c p acc pp (b # data_loader) = Inl (e, s')
              \<and> e \<in> {TypeError, KeyError, UnboundLocalError}
              \<and> panoptic_evaluator s' = Some [])"
proof (intro conjI allI impI)
  fix s :: "('r, 'q) eval_state" and fed
  assume "panoptic_evaluator s = Some fed"
  from postprocess_unbound [OF assms, of s fed outputs targets] this
  show "\<exists>s'. postprocess pp outputs targets s = Inl (UnboundLocalError, s')
                  \<and> panoptic_evaluator s' = Some fed"
    by blast
next
  let ?s0 = "\<lparr>eval_meters = [(''class_error'', SmoothedValue)],
         coco_evaluator = \<lparr>iou_types = [''bbox''], coco_fed = []\<rparr>,
         panoptic_evaluator = (if panoptic pp \<noteq> None then Some [] else None)\<rparr>"
  have "panoptic_evaluator ?s0 = Some []" using assms(3) by simp
  from eval_batch_unbound [OF assms this, of c p acc b]
  obtain e s' where "eval_batch c p acc pp ?s0 b = Inl (e, s')"
    and e: "e \<in> {TypeError, KeyError, UnboundLocalError}" and s': "panoptic_evaluator s' = Some []"
    by blast
  then have "evaluate c p acc pp (b # data_loader) = Inl (e, s')"
    unfolding ex_start_state [OF assms(1,2)] by simp
  then show "\<exists>e s'. evaluate c p acc pp (b # data_loader) = Inl (e, s')
              \<and> e \<in> {TypeError, KeyError, UnboundLocalError}
              \<and> panoptic_evaluator s' = Some []"
    using e s' by blast
qed

theorem panoptic_without_segm_raises_witness:
  "bbox bbox_panoptic \<noteq> None \<and> segm bbox_panoptic = None \<and> panoptic bbox_panoptic \<noteq> None
   \<and> evaluate single_worker [1, 1] example_acc bbox_panoptic [1] =
       Inl (UnboundLocalError, (evaluated_once ''loss_ce'')\<lparr>panoptic_evaluator := Some []\<rparr>)
   \<and> panoptic_evaluator ((evaluated_once ''loss_ce'')\<lparr>panoptic_evaluator := Some []\<rparr>) = Some []"
proof -
  note t = panoptic_without_segm_raises [OF ex_pp_fields(4,5,6), where c = single_worker
      and p = "[1, 1]" and acc = example_acc and b = 1 and data_loader = "[]"]
  from t [THEN conjunct2] obtain e s' where
    "evaluate single_worker [1, 1] example_acc bbox_panoptic [1] = Inl (e, s')"
    and "panoptic_evaluator s' = Some []"
    by blast
  then have "panoptic_evaluator ((evaluated_once ''loss_ce'')\<lparr>panoptic_evaluator := Some []\<rparr>) = Some []"
    by (simp add: ex_evaluate_unbound)
  then show ?thesis
    using ex_pp_fields(4,5,6) ex_evaluate_unbound [of "[1, 1]"] by (intro conjI)
qed

text \<open>
  Claim C5, as the code has it. With only a \<^verbatim>\<open>'bbox'\<close> postprocessor \<^verbatim>\<open>evaluate\<close>
  never constructs the panoptic accumulator, however the call ends, and the keys of
  the returned stats are the names of the aggregator's meters and
  \<^verbatim>\<open>coco_eval_bbox\<close>. The meter names are \<^verbatim>\<open>class_error\<close>, \<^verbatim>\<open>loss\<close>, weighted loss
  terms and loss terms with the suffix \<^verbatim>\<open>_unscaled\<close>, so the stats have none of the
  keys \<^verbatim>\<open>PQ_all\<close>, \<^verbatim>\<open>PQ_th\<close>, \<^verbatim>\<open>PQ_st\<close> and \<^verbatim>\<open>coco_eval_masks\<close> unless a weighted loss
  term of the criterion has that very name.
\<close>

theorem bbox_only_stats:
  assumes "bbox pp \<noteq> None" and "segm pp = None" and "panoptic pp = None"
  shows "panoptic_evaluator (outcome_state (evaluate c p acc pp data_loader)) = None
       \<and> (\<forall>stats coco s'. evaluate c p acc pp data_loader = Inr ((stats, coco), s') \<longrightarrow>
            set (keys stats) = set (keys (eval_meters s')) \<union> {''coco_eval_bbox''}
          \<and> ((\<forall>b \<in> set data_loader.
                 set (keys (criterion c (model c p b) b)) \<inter> dom (weight_dict c) \<inter> added_keys = {})
               \<longrightarrow> set (keys stats) \<inter> added_keys = {}))"
proof (intro conjI allI impI)
  let ?s0 = "\<lparr>eval_meters = [(''class_error'', SmoothedValue)],
         coco_evaluator = \<lparr>iou_types = [''bbox''], coco_fed = []\<rparr>,
         panoptic_evaluator = (if panoptic pp \<noteq> None then Some [] else None)\<rparr>"
  have n0: "panoptic_evaluator ?s0 = None" using assms(3) by simp
  note n = eval_batches_no_panoptic [OF n0, of c p acc pp data_loader]
  show "panoptic_evaluator (outcome_state (evaluate c p acc pp data_loader)) = None"
  proof (cases "eval_batches c p acc pp ?s0 data_loader")
    case (Inl es)
    then have "evaluate c p acc pp data_loader = Inl es"
      unfolding ex_start_state [OF assms(1,2)] by simp
    then show ?thesis
      using n Inl by (simp add: outcome_state_def state_of_def case_prod_unfold)
  next
    case (Inr s1)
    let ?s2 = "s1\<lparr>eval_meters :=
        synchronize_between_processes (all_reduce_meter c) (eval_meters s1)\<rparr>"
    have p1: "panoptic_evaluator s1 = None" using n Inr by (simp add: state_of_def)
    have "outcome_state (evaluate c p acc pp data_loader) = ?s2"
      unfolding ex_start_state [OF assms(1,2)] Inr
      by (cases "global_avgs (eval_meters ?s2)") (simp_all add: outcome_state_def Let_def)
    then show ?thesis using p1 by simp
  qed
next
  fix stats coco s'
  assume a: "evaluate c p acc pp data_loader = Inr ((stats, coco), s')"
  note k = evaluate_bbox_only_Inr [OF assms a]
  show "set (keys stats) = set (keys (eval_meters s')) \<union> {''coco_eval_bbox''}"
    using k by (simp add: keys_def)
  assume free: "\<forall>b \<in> set data_loader.
      set (keys (criterion c (model c p b) b)) \<inter> dom (weight_dict c) \<inter> added_keys = {}"
  show "set (keys stats) \<inter> added_keys = {}"
  proof (rule ccontr)
    assume "set (keys stats) \<inter> added_keys \<noteq> {}"
    then obtain x where x: "x \<in> fst ` set stats" and xa: "x \<in> added_keys"
      by (auto simp: keys_def)
    define U where "U = (\<Union>b \<in> set data_loader.
                 (fst ` set (criterion c (model c p b) b) \<inter> dom (weight_dict c))
                 \<union> (\<lambda>k. k @ ''_unscaled'') ` fst ` set (criterion c (model c p b) b))"
    have ne: "x \<noteq> ''coco_eval_bbox''" "x \<noteq> ''class_error''" "x \<noteq> ''loss''"
      using xa by (auto simp: added_keys_def)
    have k1: "fst ` set stats = insert ''coco_eval_bbox'' (fst ` set (eval_meters s'))"
      using k by simp
    have k2: "fst ` set (eval_meters s') \<subseteq> insert ''class_error'' (insert ''loss'' U)"
      using k unfolding U_def by simp
    have "x \<in> fst ` set (eval_meters s')"
      using x ne(1) unfolding k1 by simp
    then have "x \<in> insert ''class_error'' (insert ''loss'' U)"
      using k2 by (rule subsetD [rotated])
    then have "x \<in> U"
      using ne(2,3) by simp
    then have "x \<in> (\<Union>b \<in> set data_loader.
                 (fst ` set (criterion c (model c p b) b) \<inter> dom (weight_dict c))
                 \<union> (\<lambda>k. k @ ''_unscaled'') ` fst ` set (criterion c (model c p b) b))"
      unfolding U_def .
    then obtain b where b: "b \<in> set data_loader"
      and "x \<in> fst ` set (criterion c (model c p b) b) \<inter> dom (weight_dict c)
           \<or> x \<in> (\<lambda>k. k @ ''_unscaled'') ` fst ` set (criterion c (model c p b) b)"
      by blast
    then have "x \<in> fst ` set (criterion c (model c p b) b) \<inter> dom (weight_dict c)"
      using xa unscaled_not_added by blast
    then show False using free b xa by (auto simp: keys_def)
  qed
qed

theorem bbox_only_stats_witness:
  "bbox bbox_only \<noteq> None \<and> segm bbox_only = None \<and> panoptic bbox_only = None
   \<and> evaluate single_worker [1, 1] example_acc bbox_only [1] =
       Inr ((single_stats, fed_once), evaluated_once ''loss_ce'')
   \<and> panoptic_evaluator (evaluated_once ''loss_ce'') = None
   \<and> set (keys single_stats) = set (keys (eval_meters (evaluated_once ''loss_ce''))) \<union> {''coco_eval_bbox''}
   \<and> set (keys single_stats) \<inter> added_keys = {}"
proof -
  note t = bbox_only_stats [OF ex_pp_fields(1,2,3), where c = single_worker
      and p = "[1, 1]" and acc = example_acc and data_loader = "[1]"]
  note e = ex_evaluate_single [of "[1, 1]"]
  have p: "panoptic_evaluator (evaluated_once ''loss_ce'') = None"
    using t [THEN conjunct1] unfolding e by (simp add: outcome_state_def)
  note r = t [THEN conjunct2, THEN spec, THEN spec, THEN spec, THEN mp, OF e]
  have free: "\<forall>b \<in> set [1::nat].
      set (keys (criterion single_worker (model single_worker [1, 1] b) b))
        \<inter> dom (weight_dict single_worker) \<inter> added_keys = {}"
    by (simp add: ex_criterion ex_fields keys_def added_keys_def)
  note a = r [THEN conjunct2, THEN mp, OF free]
  show ?thesis
    using ex_pp_fields(1,2,3) e p r [THEN conjunct1] a by (intro conjI)
qed

text \<open>
  Claim C5 as stated fails when the criterion names a weighted loss term
  \<^verbatim>\<open>PQ_all\<close>: with only a \<^verbatim>\<open>'bbox'\<close> postprocessor the returned stats have the key
  \<^verbatim>\<open>PQ_all\<close>, the average of that meter.
\<close>

theorem bbox_only_stats_counterexample:
  "bbox bbox_only \<noteq> None \<and> segm bbox_only = None \<and> panoptic bbox_only = None
   \<and> evaluate pq_named [1, 1] example_acc bbox_only [1] =
       Inr ((pq_stats, fed_once), evaluated_once ''PQ_all'')
   \<and> map_of pq_stats ''PQ_all'' = Some (Global_avg (Fin 1))"
  using ex_pp_fields(1,2,3) ex_evaluate_pq [of "[1, 1]" 1]
  by (simp add: pq_stats_def)

section \<open>The visualisation helpers and the store\<close>

lemma frame_refl: "frame a J \<sigma> \<sigma>"
  by (simp add: frame_def)

lemma frame_trans:
  assumes "frame a J \<sigma> \<sigma>1" and "frame a J \<sigma>1 \<sigma>2"
  shows "frame a J \<sigma> \<sigma>2"
proof -
  have 1: "\<forall>b. b \<noteq> a \<longrightarrow> \<sigma>2 b = \<sigma> b" using assms by (simp add: frame_def)
  have 2: "length (\<sigma>2 a) = length (\<sigma> a)" using assms by (simp add: frame_def)
  have 3: "j \<in> J \<and> (\<sigma> a ! j \<le> 0 \<or> 1 \<le> \<sigma> a ! j)" if c: "\<sigma>2 a ! j \<noteq> \<sigma> a ! j" for j
  proof (cases "\<sigma>1 a ! j = \<sigma> a ! j")
    case True
    then have "\<sigma>2 a ! j \<noteq> \<sigma>1 a ! j" using c by simp
    then have "j \<in> J \<and> (\<sigma>1 a ! j \<le> 0 \<or> 1 \<le> \<sigma>1 a ! j)"
      using assms(2) by (simp add: frame_def)
    then show ?thesis using True by simp
  next
    case False
    then show ?thesis using assms(1) by (simp add: frame_def)
  qed
  show ?thesis unfolding frame_def using 1 2 3 by blast
qed

lemma frame_mono: "frame a J \<sigma> \<sigma>' \<Longrightarrow> J \<subseteq> K \<Longrightarrow> frame a K \<sigma> \<sigma>'"
  unfolding frame_def by blast

lemma frame_assign:
  assumes "read \<sigma> g i \<le> 0 \<or> 1 \<le> read \<sigma> g i"
  shows "frame (base g) {offset g + i} \<sigma> (assign \<sigma> g i v)"
proof -
  have 1: "\<forall>b. b \<noteq> base g \<longrightarrow> assign \<sigma> g i v b = \<sigma> b" by (simp add: assign_def)
  have 2: "length (assign \<sigma> g i v (base g)) = length (\<sigma> (base g))"
    by (simp add: assign_def)
  have 3: "j \<in> {offset g + i} \<and> (\<sigma> (base g) ! j \<le> 0 \<or> 1 \<le> \<sigma> (base g) ! j)"
    if c: "assign \<sigma> g i v (base g) ! j \<noteq> \<sigma> (base g) ! j" for j
  proof -
    have "j = offset g + i"
    proof (rule ccontr)
      assume "j \<noteq> offset g + i"
      then have "assign \<sigma> g i v (base g) ! j = \<sigma> (base g) ! j"
        by (simp add: assign_def)
      then show False using c by simp
    qed
    then show ?thesis using assms by (simp add: read_def)
  qed
  show ?thesis unfolding frame_def using 1 2 3 by blast
qed

lemma read_assign_same:
  "read (assign \<sigma> g i v) g i = (if offset g + i < length (\<sigma> (base g)) then v else read \<sigma> g i)"
  by (simp add: read_def assign_def list_update_beyond not_less)

lemma clamp_at_frame: "frame (base g) {offset g + i} \<sigma> (clamp_at g i \<sigma>)"
proof (cases "1 \<le> read \<sigma> g i")
  case True
  have "\<not> read (assign \<sigma> g i (99 / 100)) g i \<le> 0"
    using True by (simp add: read_assign_same)
  then have "clamp_at g i \<sigma> = assign \<sigma> g i (99 / 100)"
    using True by (simp add: clamp_at_def Let_def)
  then show ?thesis using frame_assign [of \<sigma> g i] True by simp
next
  case False
  show ?thesis
  proof (cases "read \<sigma> g i \<le> 0")
    case True
    then have "clamp_at g i \<sigma> = assign \<sigma> g i (99 / 100)"
      using False by (simp add: clamp_at_def Let_def)
    then show ?thesis using frame_assign [of \<sigma> g i] True by simp
  next
    case nonpos: False
    then have "clamp_at g i \<sigma> = \<sigma>"
      using False by (simp add: clamp_at_def Let_def)
    then show ?thesis by (simp add: frame_refl)
  qed
qed

lemma fold_clamp_frame:
  "frame (base g) ((\<lambda>i. offset g + i) ` set is) \<sigma> (fold (clamp_at g) is \<sigma>)"
proof (induction "is" arbitrary: \<sigma>)
  case Nil
  show ?case by (simp add: frame_refl)
next
  case (Cons i "is")
  have 1: "frame (base g) ((\<lambda>i. offset g + i) ` set (i # is)) \<sigma> (clamp_at g i \<sigma>)"
    by (rule frame_mono [OF clamp_at_frame]) simp
  have 2: "frame (base g) ((\<lambda>i. offset g + i) ` set (i # is)) (clamp_at g i \<sigma>)
      (fold (clamp_at g) is (clamp_at g i \<sigma>))"
    by (rule frame_mono [OF Cons.IH]) auto
  show ?case using frame_trans [OF 1 2] by simp
qed

lemma clamp_coords_frame: "frame (base g) (cells g) \<sigma> (clamp_coords g \<sigma>)"
  using fold_clamp_frame [of g "[0..<len g]" \<sigma>]
  by (simp add: clamp_coords_def cells_def lessThan_def [symmetric] atLeast0LessThan)

lemma row_simps: "base (row t j) = base t"
  by (simp add: row_def)

lemma plot_gates_frame:
  assumes "\<forall>(g, c) \<in> set gs. base g = a \<and> cells g \<subseteq> J"
  shows "frame a J \<sigma> (fst (snd (plot_gates threshold h w gs \<sigma> drawn)))"
  using assms
proof (induction gs arbitrary: \<sigma> drawn)
  case Nil
  show ?case by (simp add: frame_refl)
next
  case (Cons gc gs)
  obtain g c where gc: "gc = (g, c)" by (cases gc)
  have g: "base g = a" "cells g \<subseteq> J" using Cons.prems gc by auto
  have rest: "\<forall>(g, c) \<in> set gs. base g = a \<and> cells g \<subseteq> J" using Cons.prems by simp
  let ?\<sigma>1 = "if threshold then clamp_coords g \<sigma> else \<sigma>"
  have 1: "frame a J \<sigma> ?\<sigma>1"
    using frame_mono [OF clamp_coords_frame [of g \<sigma>] g(2)] g(1) by (simp add: frame_refl)
  show ?case
  proof (cases "corners ?\<sigma>1 g h w c")
    case (Inl e)
    then show ?thesis using 1 by (simp add: gc Let_def)
  next
    case (Inr pts)
    have "frame a J ?\<sigma>1 (fst (snd (plot_gates threshold h w gs ?\<sigma>1 (drawn @ pts))))"
      by (rule Cons.IH [OF rest])
    from frame_trans [OF 1 this] show ?thesis using Inr by (simp add: gc Let_def)
  qed
qed

lemma plot_gates_no_threshold:
  "fst (snd (plot_gates False h w gs \<sigma> drawn)) = \<sigma>"
  by (induction gs arbitrary: drawn) (auto split: sum.splits)

lemma plot_queries_frame:
  assumes "\<forall>(l, g, c) \<in> set qs. base g = a \<and> cells g \<subseteq> J"
  shows "frame a J \<sigma> (fst (snd (plot_queries h w qs \<sigma> drawn)))"
  using assms
proof (induction qs arbitrary: \<sigma> drawn)
  case Nil
  show ?case by (simp add: frame_refl)
next
  case (Cons q qs)
  obtain l g c where q: "q = (l, g, c)" by (cases q)
  have g: "base g = a" "cells g \<subseteq> J" using Cons.prems q by auto
  have rest: "\<forall>(l, g, c) \<in> set qs. base g = a \<and> cells g \<subseteq> J" using Cons.prems by simp
  have 1: "frame a J \<sigma> (clamp_coords g \<sigma>)"
    using frame_mono [OF clamp_coords_frame [of g \<sigma>] g(2)] g(1) by simp
  show ?case
  proof (cases "len l = 0")
    case True
    then show ?thesis by (simp add: q frame_refl)
  next
    case nz: False
    show ?thesis
    proof (cases "argmax (elements \<sigma> l) \<noteq> 1")
      case False
      then show ?thesis using nz Cons.IH [OF rest, of \<sigma> drawn] by (simp add: q)
    next
      case True
      show ?thesis
      proof (cases "corners (clamp_coords g \<sigma>) g h w c")
        case (Inl e)
        then show ?thesis using 1 nz True by (simp add: q Let_def)
      next
        case (Inr pts)
        have "frame a J (clamp_coords g \<sigma>)
            (fst (snd (plot_queries h w qs (clamp_coords g \<sigma>) (drawn @ pts))))"
          by (rule Cons.IH [OF rest])
        from frame_trans [OF 1 this] show ?thesis using Inr nz True by (simp add: q Let_def)
      qed
    qed
  qed
qed

lemma zip_rows_colors:
  "(g, c) \<in> set (zip (rows t) colors) \<Longrightarrow> \<exists>j. j < len t \<and> j < 5 \<and> g = row t j"
  by (auto simp: in_set_zip rows_def colors_def)

lemma gates_of_tensor:
  "\<forall>(g, c) \<in> set (zip (rows t) colors). base g = base t \<and> cells g \<subseteq> drawn_cells t"
proof (clarify, intro conjI)
  fix g c assume "(g, c) \<in> set (zip (rows t) colors)"
  then obtain j where j: "j < len t" "j < 5" "g = row t j"
    using zip_rows_colors by blast
  show "base g = base t" using j by (simp add: row_simps)
  show "cells g \<subseteq> drawn_cells t" using j by (auto simp: drawn_cells_def)
qed

lemma queries_of_tensor:
  "\<forall>(l, g, c) \<in> set (zip ls (zip (rows t) colors)). base g = base t \<and> cells g \<subseteq> drawn_cells t"
proof (clarify, intro conjI)
  fix l g c assume "(l, g, c) \<in> set (zip ls (zip (rows t) colors))"
  then have "(g, c) \<in> set (zip (rows t) colors)" by (rule set_zip_rightD)
  then obtain j where j: "j < len t" "j < 5" "g = row t j"
    using zip_rows_colors by blast
  show "base g = base t" using j by (simp add: row_simps)
  show "cells g \<subseteq> drawn_cells t" using j by (auto simp: drawn_cells_def)
qed

lemma plot_images_frame:
  assumes "\<forall>(logits, coords) \<in> set ims. base coords = a \<and> drawn_cells coords \<subseteq> J"
  shows "frame a J \<sigma> (fst (snd (plot_images h w ims \<sigma> drawn)))"
  using assms
proof (induction ims arbitrary: \<sigma> drawn)
  case Nil
  show ?case by (simp add: frame_refl)
next
  case (Cons im ims)
  obtain logits coords where im: "im = (logits, coords)" by (cases im)
  have c: "base coords = a" "drawn_cells coords \<subseteq> J" using Cons.prems im by auto
  have rest: "\<forall>(logits, coords) \<in> set ims. base coords = a \<and> drawn_cells coords \<subseteq> J"
    using Cons.prems by simp
  let ?r = "plot_queries h w (zip (rows logits) (zip (rows coords) colors)) \<sigma> drawn"
  have "\<forall>(l, g, c) \<in> set (zip (rows logits) (zip (rows coords) colors)). base g = a \<and> cells g \<subseteq> J"
    using queries_of_tensor [of "rows logits" coords] c by fastforce
  from plot_queries_frame [OF this, of \<sigma> h w drawn]
  have 1: "frame a J \<sigma> (fst (snd ?r))" .
  obtain e \<sigma>1 d1 where r: "?r = (e, \<sigma>1, d1)" by (cases ?r)
  show ?case
  proof (cases e)
    case (Some x)
    then show ?thesis using 1 r by (simp add: im)
  next
    case None
    have "frame a J \<sigma>1 (fst (snd (plot_images h w ims \<sigma>1 d1)))"
      by (rule Cons.IH [OF rest])
    from frame_trans [OF _ this, of \<sigma>] 1 r None show ?thesis by (simp add: im)
  qed
qed

lemma elements_agree: "\<sigma> (base l) = \<sigma>0 (base l) \<Longrightarrow> elements \<sigma> l = elements \<sigma>0 l"
  by (simp add: elements_def read_def)

lemma frame_agree:
  assumes "frame a J \<sigma> \<sigma>'" and "\<forall>b. b \<noteq> a \<longrightarrow> \<sigma> b = \<sigma>0 b"
  shows "\<forall>b. b \<noteq> a \<longrightarrow> \<sigma>' b = \<sigma>0 b"
  using assms by (simp add: frame_def)

lemma plot_queries_frame_classes:
  assumes "\<forall>(l, g, c) \<in> set qs. base g = a \<and> base l \<noteq> a
             \<and> (argmax (elements \<sigma>0 l) \<noteq> 1 \<longrightarrow> cells g \<subseteq> J)"
    and "\<forall>b. b \<noteq> a \<longrightarrow> \<sigma> b = \<sigma>0 b"
  shows "frame a J \<sigma> (fst (snd (plot_queries h w qs \<sigma> drawn)))"
  using assms
proof (induction qs arbitrary: \<sigma> drawn)
  case Nil
  show ?case by (simp add: frame_refl)
next
  case (Cons q qs)
  obtain l g c where q: "q = (l, g, c)" by (cases q)
  have g: "base g = a" "base l \<noteq> a" "argmax (elements \<sigma>0 l) \<noteq> 1 \<longrightarrow> cells g \<subseteq> J"
    using Cons.prems(1) q by auto
  have rest: "\<forall>(l, g, c) \<in> set qs. base g = a \<and> base l \<noteq> a
             \<and> (argmax (elements \<sigma>0 l) \<noteq> 1 \<longrightarrow> cells g \<subseteq> J)"
    using Cons.prems(1) by simp
  have el: "elements \<sigma> l = elements \<sigma>0 l"
    by (rule elements_agree) (simp add: Cons.prems(2) g(2))
  show ?case
  proof (cases "len l = 0")
    case True
    then show ?thesis by (simp add: q frame_refl)
  next
    case nz: False
    show ?thesis
    proof (cases "argmax (elements \<sigma> l) \<noteq> 1")
      case False
      then show ?thesis using nz Cons.IH [OF rest Cons.prems(2), of drawn] by (simp add: q)
    next
      case True
      then have "cells g \<subseteq> J" using g(3) el by simp
      then have 1: "frame a J \<sigma> (clamp_coords g \<sigma>)"
        using frame_mono [OF clamp_coords_frame [of g \<sigma>]] g(1) by simp
      have ag: "\<forall>b. b \<noteq> a \<longrightarrow> clamp_coords g \<sigma> b = \<sigma>0 b"
        by (rule frame_agree [OF 1 Cons.prems(2)])
      show ?thesis
      proof (cases "corners (clamp_coords g \<sigma>) g h w c")
        case (Inl e)
        then show ?thesis using 1 nz True by (simp add: q Let_def)
      next
        case (Inr pts)
        have "frame a J (clamp_coords g \<sigma>)
            (fst (snd (plot_queries h w qs (clamp_coords g \<sigma>) (drawn @ pts))))"
          by (rule Cons.IH [OF rest ag])
        from frame_trans [OF 1 this] show ?thesis using Inr nz True by (simp add: q Let_def)
      qed
    qed
  qed
qed

lemma plot_images_frame_classes:
  assumes "\<forall>(logits, coords) \<in> set ims.
             \<forall>(l, g, c) \<in> set (zip (rows logits) (zip (rows coords) colors)).
               base g = a \<and> base l \<noteq> a \<and> (argmax (elements \<sigma>0 l) \<noteq> 1 \<longrightarrow> cells g \<subseteq> J)"
    and "\<forall>b. b \<noteq> a \<longrightarrow> \<sigma> b = \<sigma>0 b"
  shows "frame a J \<sigma> (fst (snd (plot_images h w ims \<sigma> drawn)))"
  using assms
proof (induction ims arbitrary: \<sigma> drawn)
  case Nil
  show ?case by (simp add: frame_refl)
next
  case (Cons im ims)
  obtain logits coords where im: "im = (logits, coords)" by (cases im)
  have here: "\<forall>(l, g, c) \<in> set (zip (rows logits) (zip (rows coords) colors)).
               base g = a \<and> base l \<noteq> a \<and> (argmax (elements \<sigma>0 l) \<noteq> 1 \<longrightarrow> cells g \<subseteq> J)"
    using Cons.prems(1) im by simp
  have rest: "\<forall>(logits, coords) \<in> set ims.
             \<forall>(l, g, c) \<in> set (zip (rows logits) (zip (rows coords) colors)).
               base g = a \<and> base l \<noteq> a \<and> (argmax (elements \<sigma>0 l) \<noteq> 1 \<longrightarrow> cells g \<subseteq> J)"
    using Cons.prems(1) by simp
  let ?r = "plot_queries h w (zip (rows logits) (zip (rows coords) colors)) \<sigma> drawn"
  from plot_queries_frame_classes [OF here Cons.prems(2), of h w drawn]
  have 1: "frame a J \<sigma> (fst (snd ?r))" .
  obtain e \<sigma>1 d1 where r: "?r = (e, \<sigma>1, d1)" by (cases ?r)
  have f1: "frame a J \<sigma> \<sigma>1" using 1 r by simp
  have ag: "\<forall>b. b \<noteq> a \<longrightarrow> \<sigma>1 b = \<sigma>0 b"
    by (rule frame_agree [OF f1 Cons.prems(2)])
  show ?case
  proof (cases e)
    case (Some x)
    then show ?thesis using f1 r by (simp add: im)
  next
    case None
    have "frame a J \<sigma>1 (fst (snd (plot_images h w ims \<sigma>1 d1)))"
      by (rule Cons.IH [OF rest ag])
    from frame_trans [OF f1 this] r None show ?thesis by (simp add: im)
  qed
qed

lemma query_index:
  "(l, g, c) \<in> set (zip (rows ls) (zip (rows t) colors))
     \<Longrightarrow> \<exists>q. q < len ls \<and> q < len t \<and> q < 5 \<and> l = row ls q \<and> g = row t q"
  by (auto simp: in_set_zip rows_def colors_def)

lemma image_index:
  "(logits, coords) \<in> set (take n (zip (rows pl) (rows pb)))
     \<Longrightarrow> \<exists>b. b < n \<and> b < len pl \<and> b < len pb \<and> logits = row pl b \<and> coords = row pb b"
  by (auto simp: in_set_conv_nth rows_def)

lemma plot_prediction_frame_classes:
  assumes "base pred_logits \<noteq> base pred_boxes"
  shows "frame (base pred_boxes) (clamped_cells \<sigma> the_samples pred_logits pred_boxes) \<sigma>
           (fst (snd (plot_prediction the_samples pred_logits pred_boxes \<sigma>)))"
proof -
  let ?J = "clamped_cells \<sigma> the_samples pred_logits pred_boxes"
  let ?ims = "take (batch_size the_samples) (zip (rows pred_logits) (rows pred_boxes))"
  have "\<forall>(logits, coords) \<in> set ?ims.
             \<forall>(l, g, c) \<in> set (zip (rows logits) (zip (rows coords) colors)).
               base g = base pred_boxes \<and> base l \<noteq> base pred_boxes
               \<and> (argmax (elements \<sigma> l) \<noteq> 1 \<longrightarrow> cells g \<subseteq> ?J)"
  proof (clarify, intro conjI impI)
    fix logits coords l g c
    assume "(logits, coords) \<in> set ?ims"
      and "(l, g, c) \<in> set (zip (rows logits) (zip (rows coords) colors))"
    then obtain b q where b: "b < batch_size the_samples" "b < len pred_logits" "b < len pred_boxes"
        "logits = row pred_logits b" "coords = row pred_boxes b"
      and q: "q < len logits" "q < len coords" "q < 5" "l = row logits q" "g = row coords q"
      using image_index query_index by meson
    show "base g = base pred_boxes" using b q by (simp add: row_simps)
    show "base l \<noteq> base pred_boxes" using b q assms by (simp add: row_simps)
    assume "argmax (elements \<sigma> l) \<noteq> 1"
    then show "cells g \<subseteq> ?J"
      unfolding clamped_cells_def using b q by blast
  qed
  from plot_images_frame_classes [OF this, of \<sigma> "height the_samples" "width the_samples" "[]"]
  show ?thesis by (simp add: plot_prediction_def)
qed

lemma frame_inside_unchanged:
  assumes "frame a J \<sigma> \<sigma>'" and "\<forall>j \<in> J. 0 < \<sigma> a ! j \<and> \<sigma> a ! j < 1"
  shows "\<sigma>' = \<sigma>"
proof (rule ext)
  fix b
  show "\<sigma>' b = \<sigma> b"
  proof (cases "b = a")
    case False
    then show ?thesis using assms(1) by (simp add: frame_def)
  next
    case True
    have "\<sigma>' a ! j = \<sigma> a ! j" for j
      using assms unfolding frame_def by (metis not_le)
    moreover have "length (\<sigma>' a) = length (\<sigma> a)" using assms(1) by (simp add: frame_def)
    ultimately show ?thesis using True by (simp add: nth_equalityI)
  qed
qed

lemma ex_rows_gate: "zip (rows gate_boxes) colors = [(\<lparr>base = 0, offset = 0, shape = [8]\<rparr>, ''blue'')]"
  by (simp add: rows_def row_def len_def gate_boxes_def colors_def)

lemma ex_clamp:
  "clamp_coords \<lparr>base = 0, offset = 0, shape = [8]\<rparr> out_of_range 0
     = [99 / 100, 1 / 5, 3 / 10, 2 / 5, 1 / 2, 3 / 5, 7 / 10, 4 / 5]"
  by (simp add: clamp_coords_def len_def upt_rec clamp_at_def read_def assign_def out_of_range_def
      Let_def)

lemma ex_plot_labels:
  "fst (snd (plot_image_with_labels one_image [gate_boxes] 0 True out_of_range)) 0
     = [99 / 100, 1 / 5, 3 / 10, 2 / 5, 1 / 2, 3 / 5, 7 / 10, 4 / 5]"
  by (simp add: plot_image_with_labels_def one_image_def ex_rows_gate corners_def len_def Let_def
      ex_clamp)

lemma ex_rows_pred:
  "take (batch_size one_image) (zip (rows pred_logits_example) (rows pred_boxes_example))
     = [(\<lparr>base = 2, offset = 0, shape = [1, 3]\<rparr>, \<lparr>base = 0, offset = 0, shape = [1, 8]\<rparr>)]"
  by (simp add: rows_def row_def len_def pred_logits_example_def pred_boxes_example_def one_image_def)

lemma ex_rows_query:
  "zip (rows \<lparr>base = 2, offset = 0, shape = [1, 3]\<rparr>)
       (zip (rows \<lparr>base = 0, offset = 0, shape = [1, 8]\<rparr>) colors)
     = [(\<lparr>base = 2, offset = 0, shape = [3]\<rparr>, \<lparr>base = 0, offset = 0, shape = [8]\<rparr>, ''blue'')]"
  by (simp add: rows_def row_def len_def colors_def)

lemma ex_argmax: "argmax (elements out_of_range \<lparr>base = 2, offset = 0, shape = [3]\<rparr>) = 2"
  by (simp add: argmax_def elements_def len_def read_def out_of_range_def upt_rec)

lemma ex_plot_prediction:
  "fst (snd (plot_prediction one_image pred_logits_example pred_boxes_example out_of_range)) 0
     = [99 / 100, 1 / 5, 3 / 10, 2 / 5, 1 / 2, 3 / 5, 7 / 10, 4 / 5]"
  unfolding plot_prediction_def ex_rows_pred plot_images.simps ex_rows_query
  by (simp add: ex_argmax len_def Let_def corners_def ex_clamp)

text \<open>
  Claim C9, as the code has it. \<^verbatim>\<open>plot_image_with_labels\<close> and \<^verbatim>\<open>plot_prediction\<close>
  assign through views of the caller's tensors. All they can change is the storage
  of the \<^verbatim>\<open>boxes\<close> tensor of the chosen target, respectively of \<^verbatim>\<open>pred_boxes\<close>, at
  the coordinates of the gates they visit (at most the first five of a tensor) that
  are not strictly between 0 and 1; every other element of every storage holds the
  same value after the call as before. When \<^verbatim>\<open>pred_logits\<close> is stored apart from
  \<^verbatim>\<open>pred_boxes\<close>, \<^verbatim>\<open>plot_prediction\<close> changes such coordinates only of the queries
  whose arg-max class is not 1, in the images of the batch: the coordinates of a
  query of class 1 stay as they are, whatever their values. With
  \<^verbatim>\<open>threshold=False\<close>, and whenever all visited coordinates are strictly between 0
  and 1, nothing changes at all.
\<close>

theorem plots_change_only_clamped_boxes:
  "(case plot_image_with_labels the_samples targets num_sample threshold \<sigma> of
      (e, \<sigma>', drawn) \<Rightarrow>
        (if num_sample < length targets
         then frame (base (targets ! num_sample)) (drawn_cells (targets ! num_sample)) \<sigma> \<sigma>'
         else \<sigma>' = \<sigma>)
        \<and> (\<not> threshold \<longrightarrow> \<sigma>' = \<sigma>))
   \<and> (case plot_prediction the_samples pred_logits pred_boxes \<sigma> of
        (e, \<sigma>', drawn) \<Rightarrow>
          frame (base pred_boxes) (\<Union>b \<in> {b. b < len pred_boxes}. drawn_cells (row pred_boxes b)) \<sigma> \<sigma>'
          \<and> (base pred_logits \<noteq> base pred_boxes \<longrightarrow>
                 frame (base pred_boxes) (clamped_cells \<sigma> the_samples pred_logits pred_boxes) \<sigma> \<sigma>'))
   \<and> (\<forall>a J \<sigma>'. frame a J \<sigma> \<sigma>' \<and> (\<forall>j \<in> J. 0 < \<sigma> a ! j \<and> \<sigma> a ! j < 1) \<longrightarrow> \<sigma>' = \<sigma>)"
proof (intro conjI)
  let ?r = "plot_image_with_labels the_samples targets num_sample threshold \<sigma>"
  have 1: "frame (base (targets ! num_sample)) (drawn_cells (targets ! num_sample)) \<sigma> (fst (snd ?r))"
    using plot_gates_frame [OF gates_of_tensor [of "targets ! num_sample"], of \<sigma> threshold]
    by (simp add: plot_image_with_labels_def Let_def frame_refl)
  have 2: "\<not> num_sample < length targets \<longrightarrow> fst (snd ?r) = \<sigma>"
    by (simp add: plot_image_with_labels_def)
  have 3: "\<not> threshold \<longrightarrow> fst (snd ?r) = \<sigma>"
    by (simp add: plot_image_with_labels_def Let_def plot_gates_no_threshold)
  show "case ?r of (e, \<sigma>', drawn) \<Rightarrow>
        (if num_sample < length targets
         then frame (base (targets ! num_sample)) (drawn_cells (targets ! num_sample)) \<sigma> \<sigma>'
         else \<sigma>' = \<sigma>)
        \<and> (\<not> threshold \<longrightarrow> \<sigma>' = \<sigma>)"
  proof -
    obtain e \<sigma>' drawn where r: "?r = (e, \<sigma>', drawn)" by (cases ?r)
    have f1: "frame (base (targets ! num_sample)) (drawn_cells (targets ! num_sample)) \<sigma> \<sigma>'"
      using 1 unfolding r by simp
    have f2: "\<not> num_sample < length targets \<longrightarrow> \<sigma>' = \<sigma>"
      using 2 unfolding r by simp
    have f3: "\<not> threshold \<longrightarrow> \<sigma>' = \<sigma>"
      using 3 unfolding r by simp
    show ?thesis
      using f1 f2 f3 unfolding r by simp
  qed
next
  let ?J = "\<Union>b \<in> {b. b < len pred_boxes}. drawn_cells (row pred_boxes b)"
  let ?ims = "take (batch_size the_samples) (zip (rows pred_logits) (rows pred_boxes))"
  have "\<forall>(logits, coords) \<in> set ?ims. base coords = base pred_boxes \<and> drawn_cells coords \<subseteq> ?J"
  proof (clarify, intro conjI)
    fix logits coords assume "(logits, coords) \<in> set ?ims"
    then have "(logits, coords) \<in> set (zip (rows pred_logits) (rows pred_boxes))"
      by (rule in_set_takeD)
    then have "coords \<in> set (rows pred_boxes)" by (rule set_zip_rightD)
    then obtain b where b: "b < len pred_boxes" "coords = row pred_boxes b"
      by (auto simp: rows_def)
    show "base coords = base pred_boxes" using b by (simp add: row_simps)
    show "drawn_cells coords \<subseteq> ?J" using b by blast
  qed
  from plot_images_frame [OF this, of \<sigma> "height the_samples" "width the_samples" "[]"]
  have all: "frame (base pred_boxes) ?J \<sigma>
      (fst (snd (plot_prediction the_samples pred_logits pred_boxes \<sigma>)))"
    by (simp add: plot_prediction_def)
  have classes: "base pred_logits \<noteq> base pred_boxes \<longrightarrow>
      frame (base pred_boxes) (clamped_cells \<sigma> the_samples pred_logits pred_boxes) \<sigma>
        (fst (snd (plot_prediction the_samples pred_logits pred_boxes \<sigma>)))"
    by (intro impI) (rule plot_prediction_frame_classes)
  show "case plot_prediction the_samples pred_logits pred_boxes \<sigma> of
        (e, \<sigma>', drawn) \<Rightarrow>
          frame (base pred_boxes) ?J \<sigma> \<sigma>'
          \<and> (base pred_logits \<noteq> base pred_boxes \<longrightarrow>
                 frame (base pred_boxes) (clamped_cells \<sigma> the_samples pred_logits pred_boxes) \<sigma> \<sigma>')"
    using all classes by (simp add: case_prod_unfold)
next
  show "\<forall>a J \<sigma>'. frame a J \<sigma> \<sigma>' \<and> (\<forall>j \<in> J. 0 < \<sigma> a ! j \<and> \<sigma> a ! j < 1) \<longrightarrow> \<sigma>' = \<sigma>"
    using frame_inside_unchanged by blast
qed

text \<open>
  Claim C9 as stated fails: a box coordinate 1.5 of the target, respectively of the
  outputs, is 0.99 after either call.
\<close>

theorem plots_overwrite_boxes_counterexample:
  "out_of_range 0 ! 0 = 3 / 2
   \<and> fst (snd (plot_image_with_labels one_image [gate_boxes] 0 True out_of_range)) 0 ! 0 = 99 / 100
   \<and> fst (snd (plot_prediction one_image pred_logits_example pred_boxes_example out_of_range)) 0 ! 0
       = 99 / 100"
  by (simp add: ex_plot_labels ex_plot_prediction) (simp add: out_of_range_def)

lemma ex_argmax_class_one: "argmax (elements class_one \<lparr>base = 2, offset = 0, shape = [3]\<rparr>) = 1"
  by (simp add: argmax_def elements_def len_def read_def class_one_def upt_rec)

lemma ex_no_clamped_cells:
  "clamped_cells class_one one_image pred_logits_example pred_boxes_example = {}"
proof -
  have "row (row pred_logits_example 0) 0 = \<lparr>base = 2, offset = 0, shape = [3]\<rparr>"
    by (simp add: row_def pred_logits_example_def)
  then have "argmax (elements class_one (row (row pred_logits_example 0) 0)) = 1"
    by (simp only: ex_argmax_class_one)
  moreover have "len (row pred_logits_example b) = 1" "len pred_logits_example = 1" for b
    by (simp_all add: row_def len_def pred_logits_example_def)
  ultimately show ?thesis
    unfolding clamped_cells_def by auto
qed

lemma ex_inside:
  "\<forall>j \<in> drawn_cells gate_boxes. 0 < in_range (base gate_boxes) ! j \<and> in_range (base gate_boxes) ! j < 1"
proof -
  have "\<forall>i<8. 0 < in_range 0 ! i \<and> in_range 0 ! i < 1"
    by (simp add: eval_nat_numeral All_less_Suc in_range_def)
  then show ?thesis
    by (auto simp: drawn_cells_def cells_def len_def row_def gate_boxes_def)
qed

theorem plots_change_only_clamped_boxes_witness:
  "fst (snd (plot_image_with_labels one_image [gate_boxes] 0 True out_of_range)) 2 = out_of_range 2
   \<and> fst (snd (plot_image_with_labels one_image [gate_boxes] 0 False out_of_range)) = out_of_range
   \<and> fst (snd (plot_image_with_labels one_image [gate_boxes] 0 True in_range)) = in_range
   \<and> fst (snd (plot_prediction one_image pred_logits_example pred_boxes_example out_of_range)) 2
       = out_of_range 2
   \<and> class_one 0 ! 0 = 3 / 2
   \<and> fst (snd (plot_prediction one_image pred_logits_example pred_boxes_example class_one))
       = class_one"
proof -
  note t4 = plots_change_only_clamped_boxes [where the_samples = one_image and targets = "[gate_boxes]"
      and num_sample = 0 and threshold = True and \<sigma> = class_one
      and pred_logits = pred_logits_example and pred_boxes = pred_boxes_example]
  note t1 = plots_change_only_clamped_boxes [where the_samples = one_image and targets = "[gate_boxes]"
      and num_sample = 0 and threshold = True and \<sigma> = out_of_range
      and pred_logits = pred_logits_example and pred_boxes = pred_boxes_example]
  note t2 = plots_change_only_clamped_boxes [where the_samples = one_image and targets = "[gate_boxes]"
      and num_sample = 0 and threshold = False and \<sigma> = out_of_range
      and pred_logits = pred_logits_example and pred_boxes = pred_boxes_example]
  note t3 = plots_change_only_clamped_boxes [where the_samples = one_image and targets = "[gate_boxes]"
      and num_sample = 0 and threshold = True and \<sigma> = in_range
      and pred_logits = pred_logits_example and pred_boxes = pred_boxes_example]
  have a: "fst (snd (plot_image_with_labels one_image [gate_boxes] 0 True out_of_range)) 2
      = out_of_range 2"
  proof -
    obtain e \<sigma>' d where r: "plot_image_with_labels one_image [gate_boxes] 0 True out_of_range = (e, \<sigma>', d)"
      by (cases "plot_image_with_labels one_image [gate_boxes] 0 True out_of_range")
    have "frame (base gate_boxes) (drawn_cells gate_boxes) out_of_range \<sigma>'"
      using t1 [THEN conjunct1] unfolding r by simp
    then have "\<sigma>' 2 = out_of_range 2"
      by (simp add: frame_def gate_boxes_def)
    then show ?thesis by (simp add: r)
  qed
  have b: "fst (snd (plot_image_with_labels one_image [gate_boxes] 0 False out_of_range)) = out_of_range"
  proof -
    obtain e \<sigma>' d where r: "plot_image_with_labels one_image [gate_boxes] 0 False out_of_range = (e, \<sigma>', d)"
      by (cases "plot_image_with_labels one_image [gate_boxes] 0 False out_of_range")
    have "\<sigma>' = out_of_range"
      using t2 [THEN conjunct1] unfolding r by simp
    then show ?thesis by (simp add: r)
  qed
  have c: "fst (snd (plot_image_with_labels one_image [gate_boxes] 0 True in_range)) = in_range"
  proof -
    obtain e \<sigma>' d where r: "plot_image_with_labels one_image [gate_boxes] 0 True in_range = (e, \<sigma>', d)"
      by (cases "plot_image_with_labels one_image [gate_boxes] 0 True in_range")
    have f: "frame (base gate_boxes) (drawn_cells gate_boxes) in_range \<sigma>'"
      using t3 [THEN conjunct1] unfolding r by simp
    have "\<sigma>' = in_range"
      using t3 [THEN conjunct2, THEN conjunct2, THEN spec, THEN spec, THEN spec, THEN mp,
          OF conjI, OF f ex_inside] .
    then show ?thesis by (simp add: r)
  qed
  have d: "fst (snd (plot_prediction one_image pred_logits_example pred_boxes_example out_of_range)) 2
       = out_of_range 2"
  proof -
    obtain e \<sigma>' d where r: "plot_prediction one_image pred_logits_example pred_boxes_example out_of_range
        = (e, \<sigma>', d)"
      by (cases "plot_prediction one_image pred_logits_example pred_boxes_example out_of_range")
    have "frame (base pred_boxes_example)
        (\<Union>b \<in> {b. b < len pred_boxes_example}. drawn_cells (row pred_boxes_example b)) out_of_range \<sigma>'"
      using t1 [THEN conjunct2, THEN conjunct1] unfolding r by simp
    then have "\<sigma>' 2 = out_of_range 2"
      by (simp add: frame_def pred_boxes_example_def)
    then show ?thesis by (simp add: r)
  qed
  have e: "class_one 0 ! 0 = 3 / 2"
    by (simp add: class_one_def)
  have f: "fst (snd (plot_prediction one_image pred_logits_example pred_boxes_example class_one))
      = class_one"
  proof -
    obtain e \<sigma>' d where r: "plot_prediction one_image pred_logits_example pred_boxes_example class_one
        = (e, \<sigma>', d)"
      by (cases "plot_prediction one_image pred_logits_example pred_boxes_example class_one")
    have ne: "base pred_logits_example \<noteq> base pred_boxes_example"
      by (simp add: pred_logits_example_def pred_boxes_example_def)
    have "base pred_logits_example \<noteq> base pred_boxes_example \<longrightarrow>
        frame (base pred_boxes_example)
          (clamped_cells class_one one_image pred_logits_example pred_boxes_example) class_one \<sigma>'"
      using t4 [THEN conjunct2, THEN conjunct1] unfolding r by simp
    then have fr: "frame (base pred_boxes_example) {} class_one \<sigma>'"
      using ne by (simp add: ex_no_clamped_cells)
    have emp: "\<forall>j \<in> {}. 0 < class_one (base pred_boxes_example) ! j
        \<and> class_one (base pred_boxes_example) ! j < 1"
      by simp
    have "\<sigma>' = class_one"
      using t4 [THEN conjunct2, THEN conjunct2, THEN spec, THEN spec, THEN spec, THEN mp,
          OF conjI, OF fr emp] .
    then show ?thesis by (simp add: r)
  qed
  show ?thesis using a b c d e f by (intro conjI)
qed

end
